(* ===== verification/Prelude.thy ===== *)
theory Prelude
  imports Main "HOL-Library.List_Lexorder" "HOL-Library.Char_ord" "HOL-Library.Sublist"
begin

text \<open>
  The parts of Go and of its standard library that every component uses.

  Strings are Go strings, that is byte sequences: HOL's \<open>string\<close> (a list of 8-bit characters),
  ordered byte-wise as Go orders them. A Go \<open>int\<close>, \<open>int64\<close> or \<open>int32\<close> is an \<open>int\<close>; where the
  source's arithmetic can overflow the wrap-around is written out with \<open>i32\<close> and \<open>i64\<close>. A call
  that may return an error has a sum type, \<open>Inl\<close> for the error. A run-time panic is \<open>None\<close>.

  Modelled here: two's complement wrap-around and truncated division, \<open>strconv.Itoa\<close>,
  \<open>strconv.Atoi\<close>, the \<open>%02d\<close> verb, \<open>strings.TrimSpace\<close>, \<open>strings.SplitN(s, sep, 2)\<close>,
  \<open>strings.SplitSeq\<close>, \<open>strings.Join\<close>, \<open>strings.ReplaceAll\<close> for one-byte operands,
  \<open>make([]T, 0, n)\<close> and the \<open>range n\<close> loop.
\<close>

named_theorems go_eval \<open>defining equations used to evaluate the model on concrete input\<close>

section \<open>Integers\<close>

definition i32 :: "int \<Rightarrow> int" where
  "i32 x = (x + 2 ^ 31) mod 2 ^ 32 - 2 ^ 31"

definition i64 :: "int \<Rightarrow> int" where
  "i64 x = (x + 2 ^ 63) mod 2 ^ 64 - 2 ^ 63"

definition in_i32 :: "int \<Rightarrow> bool" where
  "in_i32 x \<longleftrightarrow> - (2 ^ 31) \<le> x \<and> x < 2 ^ 31"

definition in_i64 :: "int \<Rightarrow> bool" where
  "in_i64 x \<longleftrightarrow> - (2 ^ 63) \<le> x \<and> x < 2 ^ 63"

lemma i32_id [simp]: "in_i32 x \<Longrightarrow> i32 x = x"
  by (simp add: i32_def in_i32_def)

lemma i64_id [simp]: "in_i64 x \<Longrightarrow> i64 x = x"
  by (simp add: i64_def in_i64_def)

lemma i32_range: "in_i32 (i32 x)"
  by (simp add: i32_def in_i32_def)

text \<open>Go's integer division truncates towards zero.\<close>

definition go_div :: "int \<Rightarrow> int \<Rightarrow> int" where
  "go_div a b = sgn a * sgn b * (\<bar>a\<bar> div \<bar>b\<bar>)"

lemma go_div_nonneg: "0 \<le> a \<Longrightarrow> 0 < b \<Longrightarrow> go_div a b = a div b"
  by (cases "a = 0") (simp_all add: go_div_def)

text \<open>
  \<open>make([]T, 0, n)\<close> panics when the capacity is negative or when the array would exceed the
  runtime's largest allocation, \<open>2 ^ 48\<close> bytes on 64-bit Linux.
\<close>

definition make_ok :: "int \<Rightarrow> int \<Rightarrow> bool" where
  "make_ok elem_size n \<longleftrightarrow> 0 \<le> n \<and> n * elem_size \<le> 2 ^ 48"

text \<open>The indices a \<open>for i := range n\<close> loop visits: none when \<open>n\<close> is not positive.\<close>

definition go_range :: "int \<Rightarrow> int list" where
  "go_range n = map int [0..<nat n]"

lemma set_go_range [simp]: "set (go_range n) = {0..<n}"
proof -
  have "x \<in> int ` {0..<nat n}" if "0 \<le> x" "x < n" for x
    using that by (intro image_eqI [of _ _ "nat x"]) auto
  then show ?thesis by (auto simp: go_range_def)
qed

lemma length_go_range [simp]: "length (go_range n) = nat n"
  by (simp add: go_range_def)

lemma distinct_go_range [simp]: "distinct (go_range n)"
  by (simp add: go_range_def distinct_map)

lemma nth_go_range [simp]: "i < nat n \<Longrightarrow> go_range n ! i = int i"
  by (simp add: go_range_def)

section \<open>Decimal integers\<close>

definition digit_char :: "nat \<Rightarrow> char" where
  "digit_char d = char_of (48 + d)"

definition is_digit :: "char \<Rightarrow> bool" where
  "is_digit c \<longleftrightarrow> 48 \<le> (of_char c :: nat) \<and> (of_char c :: nat) \<le> 57"

definition digit_val :: "char \<Rightarrow> nat" where
  "digit_val c = of_char c - 48"

lemma is_digit_char [simp]: "d < 10 \<Longrightarrow> is_digit (digit_char d)"
  by (simp add: is_digit_def digit_char_def)

lemma digit_val_char [simp]: "d < 10 \<Longrightarrow> digit_val (digit_char d) = d"
  by (simp add: digit_val_def digit_char_def)

fun nat_digits :: "nat \<Rightarrow> string" where
  "nat_digits n =
     (if n < 10 then [digit_char n] else nat_digits (n div 10) @ [digit_char (n mod 10)])"

declare nat_digits.simps [simp del]

definition digits_val :: "string \<Rightarrow> nat" where
  "digits_val s = foldl (\<lambda>m c. 10 * m + digit_val c) 0 s"

lemma digits_val_snoc [simp]: "digits_val (s @ [c]) = 10 * digits_val s + digit_val c"
  by (simp add: digits_val_def)

lemma nat_digits_ne [simp]: "nat_digits n \<noteq> []"
  by (subst nat_digits.simps) simp

lemma nat_digits_digits: "\<forall>c \<in> set (nat_digits n). is_digit c"
proof (induction n rule: nat_digits.induct)
  case (1 n)
  then show ?case by (cases "n < 10") (simp_all add: nat_digits.simps [of n])
qed

lemma digits_val_nat_digits [simp]: "digits_val (nat_digits n) = n"
proof (induction n rule: nat_digits.induct)
  case (1 n)
  show ?case
  proof (cases "n < 10")
    case True
    then show ?thesis by (simp add: nat_digits.simps [of n] digits_val_def)
  next
    case False
    with 1 show ?thesis by (simp add: nat_digits.simps [of n])
  qed
qed

lemma nat_digits_inj [simp]: "nat_digits m = nat_digits n \<longleftrightarrow> m = n"
  by (metis digits_val_nat_digits)

text \<open>\<open>strconv.Itoa\<close> and the \<open>%d\<close> verb.\<close>

definition itoa :: "int \<Rightarrow> string" where
  "itoa n = (if n < 0 then CHR ''-'' # nat_digits (nat (- n)) else nat_digits (nat n))"

lemma not_digit_minus [simp]: "\<not> is_digit (CHR ''-'')" "\<not> is_digit (CHR ''+'')"
  "\<not> is_digit (CHR '','')" "\<not> is_digit (CHR ''.'')" "\<not> is_digit (CHR ''_'')"
  by (simp_all add: is_digit_def)

lemma nat_digits_not_minus: "c \<notin> set (nat_digits n)" if "\<not> is_digit c"
  using that nat_digits_digits by blast

lemma itoa_inj [simp]: "itoa m = itoa n \<longleftrightarrow> m = n"
proof
  assume eq: "itoa m = itoa n"
  have neg: "CHR ''-'' # xs \<noteq> nat_digits k" for xs k
    using nat_digits_not_minus [OF not_digit_minus(1), of k]
    by (metis list.set_intros(1))
  show "m = n"
  proof (cases "m < 0"; cases "n < 0")
    assume "m < 0" "n < 0" with eq show ?thesis by (simp add: itoa_def)
  next
    assume "m < 0" "\<not> n < 0" with eq show ?thesis by (simp add: itoa_def neg)
  next
    assume "\<not> m < 0" "n < 0" with eq show ?thesis by (simp add: itoa_def neg [symmetric])
  next
    assume "\<not> m < 0" "\<not> n < 0" with eq show ?thesis by (simp add: itoa_def)
  qed
qed simp

text \<open>The \<open>%02d\<close> verb.\<close>

definition pad2 :: "int \<Rightarrow> string" where
  "pad2 n = (if 0 \<le> n \<and> n < 10 then CHR ''0'' # itoa n else itoa n)"

text \<open>
  \<open>strconv.Atoi\<close>: an optional sign, then one or more decimal digits and nothing else, and the
  value has to fit in 64 bits.
\<close>

datatype num_error = ErrSyntax | ErrRange

definition split_sign :: "string \<Rightarrow> bool \<times> string" where
  "split_sign s =
     (case s of [] \<Rightarrow> (False, [])
      | c # cs \<Rightarrow> if c = CHR ''-'' then (True, cs) else if c = CHR ''+'' then (False, cs) else (False, s))"

definition atoi :: "string \<Rightarrow> num_error + int" where
  "atoi s =
     (let (neg, ds) = split_sign s in
      if ds = [] \<or> \<not> list_all is_digit ds then Inl ErrSyntax
      else let n = (if neg then - int (digits_val ds) else int (digits_val ds)) in
           if in_i64 n then Inr n else Inl ErrRange)"

lemma split_sign_itoa: "split_sign (itoa n) = (n < 0, nat_digits (nat \<bar>n\<bar>))"
proof (cases "n < 0")
  case True
  then show ?thesis by (simp add: split_sign_def itoa_def)
next
  case False
  obtain c cs where c: "nat_digits (nat n) = c # cs"
    using nat_digits_ne by (meson neq_Nil_conv)
  then have "is_digit c" using nat_digits_digits [of "nat n"] by simp
  then have "c \<noteq> CHR ''-''" "c \<noteq> CHR ''+''" by (auto simp: not_digit_minus)
  with False c show ?thesis by (simp add: split_sign_def itoa_def)
qed

lemma atoi_itoa [simp]: "in_i64 n \<Longrightarrow> atoi (itoa n) = Inr n"
  using nat_digits_digits [of "nat \<bar>n\<bar>"]
  by (auto simp: atoi_def split_sign_itoa list_all_iff)

lemma atoi_Inr:
  assumes "atoi s = Inr n"
  obtains neg ds where "split_sign s = (neg, ds)" "ds \<noteq> []" "list_all is_digit ds"
    "n = (if neg then - int (digits_val ds) else int (digits_val ds))" "in_i64 n"
proof -
  obtain neg ds where "split_sign s = (neg, ds)" by (cases "split_sign s")
  with assms that show thesis
    by (auto simp: atoi_def Let_def split: if_splits)
qed

section \<open>Strings\<close>

text \<open>
  \<open>strings.TrimSpace\<close> removes leading and trailing Unicode white space: the ASCII spaces, and the
  UTF-8 encodings of the other code points of \<open>unicode.IsSpace\<close>.
\<close>

definition space_seqs :: "string list" where
  "space_seqs =
     [[CHR '' ''], [CHR 0x09], [CHR 0x0A], [CHR 0x0B], [CHR 0x0C], [CHR 0x0D],
      [CHR 0xC2, CHR 0x85], [CHR 0xC2, CHR 0xA0], [CHR 0xE1, CHR 0x9A, CHR 0x80]] @
     map (\<lambda>i. [CHR 0xE2, CHR 0x80, char_of (i :: nat)]) [128..<139] @
     [[CHR 0xE2, CHR 0x80, CHR 0xA8], [CHR 0xE2, CHR 0x80, CHR 0xA9], [CHR 0xE2, CHR 0x80, CHR 0xAF],
      [CHR 0xE2, CHR 0x81, CHR 0x9F], [CHR 0xE3, CHR 0x80, CHR 0x80]]"

lemma space_seqs_ne: "p \<in> set space_seqs \<Longrightarrow> p \<noteq> []"
  by (auto simp: space_seqs_def)

function strip_prefixes :: "string list \<Rightarrow> string \<Rightarrow> string" where
  "strip_prefixes ps s =
     (case find (\<lambda>p. p \<noteq> [] \<and> prefix p s) ps of
        None \<Rightarrow> s
      | Some p \<Rightarrow> strip_prefixes ps (drop (length p) s))"
  by pat_completeness auto
termination
proof (relation "measure (\<lambda>(ps, s). length s)")
  fix ps :: "string list" and s p
  assume "find (\<lambda>p. p \<noteq> [] \<and> prefix p s) ps = Some p"
  then have "p \<noteq> []" "prefix p s" by (auto simp: find_Some_iff)
  then show "((ps, drop (length p) s), (ps, s)) \<in> measure (\<lambda>(ps, s). length s)"
    by (cases p; cases s) auto
qed simp

declare strip_prefixes.simps [simp del]

definition trim_space :: "string \<Rightarrow> string" where
  "trim_space s = rev (strip_prefixes (map rev space_seqs) (rev (strip_prefixes space_seqs s)))"

text \<open>A visible character: ASCII and not a space. Trimming leaves strings of these alone.\<close>

definition visible :: "char \<Rightarrow> bool" where
  "visible c \<longleftrightarrow> 32 < (of_char c :: nat) \<and> (of_char c :: nat) < 127"

lemma space_seqs_not_visible: "p \<in> set space_seqs \<Longrightarrow> \<forall>c \<in> set p. \<not> visible c"
  by (auto simp: space_seqs_def visible_def)

lemma strip_prefixes_visible:
  assumes "\<forall>p \<in> set ps. \<forall>c \<in> set p. \<not> visible c" and "\<forall>c \<in> set s. visible c"
  shows "strip_prefixes ps s = s"
proof -
  have "find (\<lambda>p. p \<noteq> [] \<and> prefix p s) ps = None"
    unfolding find_None_iff
  proof clarify
    fix p assume "p \<in> set ps" "p \<noteq> []" "prefix p s"
    then obtain c where "c \<in> set p" "c \<in> set s"
      by (metis list.set_intros(1) neq_Nil_conv set_mono_prefix subsetD)
    with assms \<open>p \<in> set ps\<close> show False by blast
  qed
  then show ?thesis by (simp add: strip_prefixes.simps)
qed

lemma trim_space_visible [simp]:
  assumes "\<forall>c \<in> set s. visible c"
  shows "trim_space s = s"
proof -
  have "\<forall>p \<in> set (map rev space_seqs). \<forall>c \<in> set p. \<not> visible c"
    using space_seqs_not_visible by simp
  with assms show ?thesis
    using space_seqs_not_visible
    by (simp add: trim_space_def strip_prefixes_visible)
qed

lemma visible_digit: "is_digit c \<Longrightarrow> visible c"
  by (simp add: visible_def is_digit_def)

lemma trim_space_Nil [simp]: "trim_space [] = []"
  by simp

text \<open>\<open>strings.SplitN(s, sep, 2)\<close> with a one-byte separator.\<close>

fun cut_at :: "char \<Rightarrow> string \<Rightarrow> (string \<times> string) option" where
  "cut_at sep [] = None"
| "cut_at sep (c # cs) =
     (if c = sep then Some ([], cs)
      else map_option (\<lambda>(a, b). (c # a, b)) (cut_at sep cs))"

definition split_n2 :: "char \<Rightarrow> string \<Rightarrow> string list" where
  "split_n2 sep s = (case cut_at sep s of None \<Rightarrow> [s] | Some (a, b) \<Rightarrow> [a, b])"

lemma cut_at_append: "sep \<notin> set a \<Longrightarrow> cut_at sep (a @ sep # b) = Some (a, b)"
  by (induction a) auto

lemma cut_at_Some: "cut_at sep s = Some (a, b) \<Longrightarrow> s = a @ sep # b \<and> sep \<notin> set a"
  by (induction s arbitrary: a) (auto split: if_splits)

lemma cut_at_None: "cut_at sep s = None \<longleftrightarrow> sep \<notin> set s"
  by (induction s) auto

lemma split_n2_append: "sep \<notin> set a \<Longrightarrow> split_n2 sep (a @ sep # b) = [a, b]"
  by (simp add: split_n2_def cut_at_append)

lemma split_n2_two: "split_n2 sep s = [a, b] \<longleftrightarrow> s = a @ sep # b \<and> sep \<notin> set a"
  by (auto simp: split_n2_def cut_at_append cut_at_None dest: cut_at_Some split: option.splits)

lemma split_n2_cases: "(\<exists>a b. split_n2 sep s = [a, b]) \<or> split_n2 sep s = [s]"
  by (auto simp: split_n2_def split: option.splits)

text \<open>\<open>strings.Split\<close> and \<open>strings.SplitSeq\<close> with a one-byte separator.\<close>

fun split_on :: "char \<Rightarrow> string \<Rightarrow> string list" where
  "split_on sep [] = [[]]"
| "split_on sep (c # cs) =
     (if c = sep then [] # split_on sep cs
      else (case split_on sep cs of p # ps \<Rightarrow> (c # p) # ps | [] \<Rightarrow> [[c]]))"

fun join :: "string \<Rightarrow> string list \<Rightarrow> string" where
  "join sep [] = []"
| "join sep [p] = p"
| "join sep (p # q # ps) = p @ sep @ join sep (q # ps)"

lemma split_on_ne [simp]: "split_on sep s \<noteq> []"
  by (induction s) (auto split: list.splits)

lemma split_on_no_sep: "sep \<notin> set s \<Longrightarrow> split_on sep s = [s]"
  by (induction s) auto

lemma split_on_append: "sep \<notin> set a \<Longrightarrow> split_on sep (a @ sep # b) = a # split_on sep b"
  by (induction a) auto

text \<open>Splitting at the separator undoes joining with it, when no part holds the separator.\<close>

lemma split_on_join:
  "ps \<noteq> [] \<Longrightarrow> \<forall>p \<in> set ps. sep \<notin> set p \<Longrightarrow> split_on sep (join [sep] ps) = ps"
  by (induction "[sep]" ps rule: join.induct) (auto simp: split_on_no_sep split_on_append)

lemma join_Nil_iff: "join [sep] ps = [] \<longleftrightarrow> ps = [] \<or> ps = [[]]"
  by (induction "[sep]" ps rule: join.induct) auto

text \<open>\<open>strings.ReplaceAll\<close> of one byte by another.\<close>

definition replace_byte :: "char \<Rightarrow> char \<Rightarrow> string \<Rightarrow> string" where
  "replace_byte a b s = map (\<lambda>c. if c = a then b else c) s"

section \<open>Maps\<close>

text \<open>
  Reading a missing key of a Go map of strings gives the empty string.
\<close>

definition map_get :: "(string \<rightharpoonup> string) \<Rightarrow> string \<Rightarrow> string" where
  "map_get m k = (case m k of None \<Rightarrow> [] | Some v \<Rightarrow> v)"

lemma map_get_upd [simp]: "map_get (m(k \<mapsto> v)) k' = (if k = k' then v else map_get m k')"
  by (simp add: map_get_def)

lemma map_get_empty [simp]: "map_get Map.empty k = []"
  by (simp add: map_get_def)

end
