(* ===== verification/Go_Float.thy ===== *)
theory Go_Float
  imports Prelude Complex_Main
begin

text \<open>
  Go's \<open>float64\<close>: IEEE 754 binary64 with round-to-nearest-even, computed exactly on rationals.
  The two zeros are one value (no code under verification tells them apart), every operation is
  rounded by itself (no fused multiply-add). The interface \<open>rounding\<close> states what the bounds
  proofs of the simulators need of a rounding function; it is interpreted on binary64 rounding.
  The theory also models \<open>strconv.ParseFloat(s, 64)\<close> and the draws of \<open>rand.Rand.Float64\<close>.
\<close>

section \<open>What the simulators need of rounding\<close>

locale rounding =
  fixes rnd :: "rat \<Rightarrow> rat" and rep :: "rat \<Rightarrow> bool"
  assumes rnd_mono: "x \<le> y \<Longrightarrow> rnd x \<le> rnd y"
    and rnd_rep: "rep x \<Longrightarrow> rnd x = x"
begin

lemma rnd_ge: "rep a \<Longrightarrow> a \<le> x \<Longrightarrow> a \<le> rnd x"
  using rnd_mono [of a x] by (simp add: rnd_rep)

lemma rnd_le: "rep b \<Longrightarrow> x \<le> b \<Longrightarrow> rnd x \<le> b"
  using rnd_mono [of x b] by (simp add: rnd_rep)

text \<open>A gauge \<open>base + util * c\<close> stays between its values at utilisation 0 and \<open>m\<close>.\<close>

lemma scale_ge: "0 \<le> u \<Longrightarrow> 0 \<le> c \<Longrightarrow> rep 0 \<Longrightarrow> 0 \<le> rnd (u * c)"
  by (rule rnd_ge) simp_all

lemma scale_le: "0 \<le> u \<Longrightarrow> u \<le> m \<Longrightarrow> 0 \<le> c \<Longrightarrow> rnd (u * c) \<le> rnd (m * c)"
  by (rule rnd_mono) (simp add: mult_right_mono)

lemma affine_ge: "rep b \<Longrightarrow> rep 0 \<Longrightarrow> 0 \<le> u \<Longrightarrow> 0 \<le> c \<Longrightarrow> b \<le> rnd (b + rnd (u * c))"
  using scale_ge [of u c] by (intro rnd_ge) simp_all

lemma affine_le:
  "0 \<le> u \<Longrightarrow> u \<le> m \<Longrightarrow> 0 \<le> c \<Longrightarrow> rnd (b + rnd (u * c)) \<le> rnd (b + rnd (m * c))"
  using scale_le [of u m c] by (intro rnd_mono) simp

text \<open>Interpolation \<open>low + f * (high - low)\<close> never falls below \<open>low\<close>.\<close>

lemma lerp_ge:
  assumes "rep low" "rep 0" "low \<le> high" "0 \<le> f"
  shows "low \<le> rnd (low + rnd (f * rnd (high - low)))"
proof -
  have "0 \<le> rnd (high - low)" using assms by (intro rnd_ge) simp_all
  then have "0 \<le> rnd (f * rnd (high - low))" using assms by (intro rnd_ge) simp_all
  then show ?thesis using assms by (intro rnd_ge) simp_all
qed

text \<open>It never exceeds \<open>high\<close> when the width \<open>high - low\<close> is exact.\<close>

lemma lerp_le_exact:
  assumes "rep high" "rep (high - low)" "low \<le> high" "0 \<le> f" "f \<le> 1"
  shows "rnd (low + rnd (f * rnd (high - low))) \<le> high"
proof -
  have "f * (high - low) \<le> high - low"
    using assms mult_right_mono [of f 1 "high - low"] by simp
  then have "rnd (f * rnd (high - low)) \<le> high - low"
    using assms by (intro rnd_le) (simp_all add: rnd_rep)
  then show ?thesis using assms by (intro rnd_le) simp_all
qed

text \<open>In general it is bounded by what interpolation up to any \<open>cap \<ge> high\<close> can give.\<close>

lemma lerp_le_cap:
  assumes "low \<le> high" "high \<le> cap" "0 \<le> f" "f \<le> 1" "rep 0"
  shows "rnd (low + rnd (f * rnd (high - low))) \<le> rnd (low + rnd (rnd (cap - low)))"
proof -
  have w: "0 \<le> rnd (high - low)" using assms by (intro rnd_ge) simp_all
  have "f * rnd (high - low) \<le> rnd (high - low)"
    using assms w mult_right_mono [of f 1 "rnd (high - low)"] by simp
  also have "\<dots> \<le> rnd (cap - low)" using assms by (intro rnd_mono) simp
  finally have "rnd (f * rnd (high - low)) \<le> rnd (rnd (cap - low))" by (rule rnd_mono)
  then show ?thesis by (intro rnd_mono) simp
qed

end

section \<open>Binary64 rounding\<close>

text \<open>The exponent of a positive rational: the largest power of two below it.\<close>

function int_log2 :: "int \<Rightarrow> int" where
  "int_log2 n = (if n < 2 then 0 else 1 + int_log2 (n div 2))"
  by pat_completeness auto
termination
  by (relation "measure nat") auto

declare int_log2.simps [simp del]

lemma int_log2_bounds:
  "1 \<le> n \<Longrightarrow> 0 \<le> int_log2 n \<and> 2 ^ nat (int_log2 n) \<le> n \<and> n < 2 * 2 ^ nat (int_log2 n)"
proof (induction n rule: int_log2.induct)
  case (1 n)
  show ?case
  proof (cases "n < 2")
    case True
    with 1 show ?thesis by (simp add: int_log2.simps [of n])
  next
    case False
    with 1 have IH: "0 \<le> int_log2 (n div 2)" "2 ^ nat (int_log2 (n div 2)) \<le> n div 2"
      "n div 2 < 2 * 2 ^ nat (int_log2 (n div 2))"
      by simp_all
    moreover have "nat (1 + int_log2 (n div 2)) = Suc (nat (int_log2 (n div 2)))"
      using IH(1) by (simp add: Suc_nat_eq_nat_zadd1)
    ultimately show ?thesis
      using False by (simp add: int_log2.simps [of n]) linarith
  qed
qed

definition ilog2 :: "rat \<Rightarrow> int" where
  "ilog2 x =
     (let (p, q) = quotient_of x;
          e = int_log2 p - int_log2 q
      in if 2 powi e \<le> x then e else e - 1)"

lemma ilog2_bounds:
  assumes "0 < x"
  shows "2 powi ilog2 x \<le> x" and "x < 2 powi (ilog2 x + 1)"
proof -
  obtain p q where pq: "quotient_of x = (p, q)" by (cases "quotient_of x")
  have x: "x = of_int p / of_int q" and q: "0 < q"
    using pq quotient_of_div quotient_of_denom_pos by blast+
  with assms have p: "0 < p"
    by (simp add: zero_less_divide_iff)
  define a where "a = nat (int_log2 p)"
  define b where "b = nat (int_log2 q)"
  define e where "e = int a - int b"
  have e: "e = int_log2 p - int_log2 q"
    using p q int_log2_bounds [of p] int_log2_bounds [of q] by (simp add: e_def a_def b_def)
  have i: "2 ^ a \<le> p" "p < 2 * 2 ^ a" "2 ^ b \<le> q" "q < 2 * 2 ^ b"
    using p q int_log2_bounds [of p] int_log2_bounds [of q] by (simp_all add: a_def b_def)
  have P: "(2::rat) ^ a \<le> of_int p" "of_int p < 2 * (2::rat) ^ a"
    "(2::rat) ^ b \<le> of_int q" "of_int q < 2 * (2::rat) ^ b"
    using i [folded of_int_le_iff [where 'a = rat] of_int_less_iff [where 'a = rat]] by simp_all
  have hi: "x < 2 powi (e + 1)"
  proof -
    have "x < (2 * 2 ^ a) / 2 ^ b"
      using P p q by (simp add: x) (intro frac_less; simp)
    also have "\<dots> = 2 powi (e + 1)"
      by (simp add: e_def power_int_diff power_int_add field_simps)
    finally show ?thesis .
  qed
  have lo: "2 powi (e - 1) \<le> x"
  proof -
    have "2 ^ a / (2 * 2 ^ b) \<le> x"
      using P p q by (simp add: x) (intro frac_le; simp)
    moreover have "(2::rat) ^ a / (2 * 2 ^ b) = 2 powi (e - 1)"
      by (simp add: e_def power_int_diff power_int_add field_simps)
    ultimately show ?thesis by simp
  qed
  have "ilog2 x = (if 2 powi e \<le> x then e else e - 1)"
    by (simp add: ilog2_def pq e)
  with hi lo show "2 powi ilog2 x \<le> x" "x < 2 powi (ilog2 x + 1)"
    by (auto split: if_splits)
qed

text \<open>Round half to even on the grid of integers.\<close>

definition rne :: "rat \<Rightarrow> int" where
  "rne y =
     (let f = \<lfloor>y\<rfloor>; d = y - of_int f in
      if d < 1 / 2 then f else if 1 / 2 < d then f + 1 else if even f then f else f + 1)"

lemma rne_of_int [simp]: "rne (of_int n) = n"
  by (simp add: rne_def)

lemma rne_numerals [simp]: "rne 0 = 0" "rne 1 = 1" "rne (numeral n) = numeral n"
  using rne_of_int [of 0] rne_of_int [of 1] rne_of_int [of "numeral n"]
  by (simp_all del: rne_of_int)

lemma rne_floor: "rne y = \<lfloor>y\<rfloor> \<or> rne y = \<lfloor>y\<rfloor> + 1"
  by (simp add: rne_def Let_def)

lemma rne_mono:
  assumes "x \<le> y" shows "rne x \<le> rne y"
proof (cases "\<lfloor>x\<rfloor> = \<lfloor>y\<rfloor>")
  case True
  then show ?thesis using assms by (auto simp: rne_def Let_def)
next
  case False
  with assms have "\<lfloor>x\<rfloor> + 1 \<le> \<lfloor>y\<rfloor>" using floor_mono [of x y] by simp
  then show ?thesis using rne_floor [of x] rne_floor [of y] by auto
qed

lemma rne_error: "\<bar>of_int (rne y) - y\<bar> \<le> 1 / 2"
proof -
  define d where "d = y - of_int \<lfloor>y\<rfloor>"
  have "0 \<le> d" "d < 1" unfolding d_def by linarith+
  then show ?thesis
    unfolding rne_def Let_def d_def [symmetric] by (auto simp: d_def)
qed

text \<open>
  The spacing of binary64 numbers around a positive \<open>x\<close>: 53 significant bits, and no finer than
  the subnormal spacing \<open>2 powi -1074\<close>.
\<close>

definition ulp_exp :: "rat \<Rightarrow> int" where
  "ulp_exp x = max (ilog2 x - 52) (- 1074)"

definition ulp :: "rat \<Rightarrow> rat" where
  "ulp x = 2 powi ulp_exp x"

definition rnd64 :: "rat \<Rightarrow> rat" where
  "rnd64 x = (if x = 0 then 0 else sgn x * (of_int (rne (\<bar>x\<bar> / ulp \<bar>x\<bar>)) * ulp \<bar>x\<bar>))"

text \<open>The finite binary64 numbers, leaving out the upper exponent bound.\<close>

definition rep64 :: "rat \<Rightarrow> bool" where
  "rep64 x \<longleftrightarrow> (\<exists>m k. x = of_int m * 2 powi k \<and> \<bar>m\<bar> \<le> 2 ^ 53 \<and> - 1074 \<le> k)"

lemma ulp_pos [simp]: "0 < ulp x"
  by (simp add: ulp_def)

lemma rep64_of_int [simp]: "\<bar>m\<bar> \<le> 2 ^ 53 \<Longrightarrow> rep64 (of_int m)"
  unfolding rep64_def by (rule exI [of _ m], rule exI [of _ 0]) simp

lemma rep64_numerals [simp]: "rep64 0" "rep64 1"
  "numeral n \<le> (2 ^ 53 :: int) \<Longrightarrow> rep64 (numeral n)"
  using rep64_of_int [of 0] rep64_of_int [of 1] rep64_of_int [of "numeral n"] by simp_all

lemma rep64_neg: "rep64 x \<Longrightarrow> rep64 (- x)"
  unfolding rep64_def
proof (elim exE conjE)
  fix m k assume "x = of_int m * 2 powi k" "\<bar>m\<bar> \<le> 2 ^ 53" "- 1074 \<le> k"
  then show "\<exists>m k. - x = of_int m * 2 powi k \<and> \<bar>m\<bar> \<le> 2 ^ 53 \<and> - 1074 \<le> k"
    by (intro exI [of _ "- m"] exI [of _ k]) simp
qed

lemma rep64_uminus [simp]: "rep64 (- x) \<longleftrightarrow> rep64 x"
  using rep64_neg [of x] rep64_neg [of "- x"] by auto

lemma rnd64_uminus [simp]: "rnd64 (- x) = - rnd64 x"
  by (simp add: rnd64_def sgn_minus)

lemma rnd64_0 [simp]: "rnd64 0 = 0"
  by (simp add: rnd64_def)

lemma rnd64_pos: "0 < x \<Longrightarrow> rnd64 x = of_int (rne (x / ulp x)) * ulp x"
  by (simp add: rnd64_def)

lemma powi_split: "k \<le> (l::int) \<Longrightarrow> (2::rat) powi l = of_int (2 ^ nat (l - k)) * 2 powi k"
  by (simp add: power_int_add [symmetric] flip: power_int_of_nat)

text \<open>
  A representable number near or above \<open>x\<close> lies on the grid of \<open>x\<close>: it is a multiple of
  \<open>ulp x\<close>, or else it lies below the power of two that starts the binade of \<open>x\<close>.
\<close>

lemma rep64_grid:
  assumes "0 < x" "rep64 a"
  shows "(\<exists>n. a = of_int n * ulp x) \<or>
    (\<exists>n. 2 powi ilog2 x = of_int n * ulp x \<and> a \<le> 2 powi ilog2 x)"
proof -
  obtain m k where a: "a = of_int m * 2 powi k" "\<bar>m\<bar> \<le> 2 ^ 53" "- 1074 \<le> k"
    using assms(2) unfolding rep64_def by blast
  show ?thesis
  proof (cases "ulp_exp x \<le> k")
    case True
    have "a = of_int (m * 2 ^ nat (k - ulp_exp x)) * ulp x"
      using powi_split [OF True] by (simp add: a(1) ulp_def)
    then show ?thesis by blast
  next
    case False
    with a(3) have u: "ulp_exp x = ilog2 x - 52" and k: "k + 53 \<le> ilog2 x"
      by (auto simp: ulp_exp_def max_def split: if_splits)
    have "2 powi ilog2 x = of_int (2 ^ 52) * ulp x"
      using powi_split [of "ulp_exp x" "ilog2 x"] by (simp add: ulp_def u)
    moreover have "a \<le> 2 powi ilog2 x"
    proof -
      have "of_int m \<le> (2::rat) ^ 53"
        using a(2) by (metis abs_le_D1 of_int_le_iff of_int_numeral of_int_power)
      then have "a \<le> 2 ^ 53 * 2 powi k"
        by (simp add: a(1))
      also have "\<dots> = 2 powi (k + 53)" by (simp add: power_int_add)
      also have "\<dots> \<le> 2 powi ilog2 x" using k by (intro power_int_increasing) simp_all
      finally show ?thesis .
    qed
    ultimately show ?thesis by blast
  qed
qed

lemma grid_le_rnd64: "0 < x \<Longrightarrow> of_int n * ulp x \<le> x \<Longrightarrow> of_int n * ulp x \<le> rnd64 x"
  using rne_mono [of "of_int n" "x / ulp x"]
  by (simp add: rnd64_pos pos_le_divide_eq)

lemma rnd64_le_grid: "0 < x \<Longrightarrow> x \<le> of_int n * ulp x \<Longrightarrow> rnd64 x \<le> of_int n * ulp x"
  using rne_mono [of "x / ulp x" "of_int n"]
  by (simp add: rnd64_pos pos_divide_le_eq)

lemma rep64_le_rnd64_pos:
  assumes "0 < x" "rep64 a" "a \<le> x" shows "a \<le> rnd64 x"
  using rep64_grid [OF assms(1,2)] assms(3) grid_le_rnd64 [OF assms(1)]
    ilog2_bounds(1) [OF assms(1)] by (metis order_trans)

lemma rnd64_le_rep64_pos:
  assumes "0 < x" "rep64 a" "x \<le> a" shows "rnd64 x \<le> a"
  using rep64_grid [OF assms(1,2)] assms(3) rnd64_le_grid [OF assms(1)]
    ilog2_bounds(1) [OF assms(1)] by (metis order_trans)

lemma rnd64_nonneg: "0 \<le> x \<Longrightarrow> 0 \<le> rnd64 x"
  using rep64_le_rnd64_pos [of x 0] by (cases "x = 0") simp_all

lemma rep64_le_rnd64:
  assumes "rep64 a" "a \<le> x" shows "a \<le> rnd64 x"
proof (cases "0 < x")
  case True with assms show ?thesis by (simp add: rep64_le_rnd64_pos)
next
  case False
  show ?thesis
  proof (cases "x = 0")
    case True with assms show ?thesis by simp
  next
    case False
    with \<open>\<not> 0 < x\<close> assms have "rnd64 (- x) \<le> - a"
      by (intro rnd64_le_rep64_pos) simp_all
    then show ?thesis by simp
  qed
qed

lemma rnd64_le_rep64: "rep64 a \<Longrightarrow> x \<le> a \<Longrightarrow> rnd64 x \<le> a"
  using rep64_le_rnd64 [of "- a" "- x"] by simp

lemma rnd64_rep64: "rep64 x \<Longrightarrow> rnd64 x = x"
  by (intro antisym rep64_le_rnd64 rnd64_le_rep64) simp_all

lemma ilog2_mono:
  assumes "0 < x" "x \<le> y" shows "ilog2 x \<le> ilog2 y"
proof (rule ccontr)
  assume "\<not> ilog2 x \<le> ilog2 y"
  then have "(2::rat) powi (ilog2 y + 1) \<le> 2 powi ilog2 x"
    by (intro power_int_increasing) simp_all
  with ilog2_bounds [of x] ilog2_bounds [of y] assms show False by auto
qed

lemma rep64_powi: "- 1074 \<le> k \<Longrightarrow> rep64 (2 powi k)"
  unfolding rep64_def by (rule exI [of _ 1], rule exI [of _ k]) simp

lemma rnd64_mono_pos:
  assumes "0 < x" "x \<le> y" shows "rnd64 x \<le> rnd64 y"
proof (cases "ulp_exp x = ulp_exp y")
  case True
  have "rne (x / ulp x) \<le> rne (y / ulp x)"
    using assms by (intro rne_mono divide_right_mono) (simp_all add: less_imp_le)
  with True assms show ?thesis by (simp add: rnd64_pos ulp_def)
next
  case False
  with ilog2_mono [OF assms] have e: "ilog2 x < ilog2 y" "- 1022 < ilog2 y"
    by (auto simp: ulp_exp_def max_def split: if_splits)
  have "x \<le> 2 powi ilog2 y"
    using ilog2_bounds(2) [OF assms(1)] e(1) power_int_increasing [of "ilog2 x + 1" "ilog2 y" "2::rat"]
    by simp
  moreover have "rep64 (2 powi ilog2 y)" using e(2) by (intro rep64_powi) simp
  ultimately show ?thesis
    using ilog2_bounds(1) [of y] assms rnd64_le_rep64 rep64_le_rnd64
    by (meson less_le_trans order_trans)
qed

lemma rnd64_mono: "x \<le> y \<Longrightarrow> rnd64 x \<le> rnd64 y"
proof -
  assume le: "x \<le> y"
  consider "0 < x" | "x \<le> 0" "0 \<le> y" | "y < 0" by linarith
  then show ?thesis
  proof cases
    case 1 then show ?thesis using le by (rule rnd64_mono_pos)
  next
    case 2
    then show ?thesis using rnd64_le_rep64 [of 0 x] rep64_le_rnd64 [of 0 y] by simp
  next
    case 3
    with le have "rnd64 (- y) \<le> rnd64 (- x)" by (intro rnd64_mono_pos) simp_all
    then show ?thesis by simp
  qed
qed

interpretation b64: rounding rnd64 rep64
  by unfold_locales (simp_all add: rnd64_mono rnd64_rep64)

text \<open>Rounding is off by at most half a unit of the binade.\<close>

lemma rnd64_error:
  assumes "0 \<le> x" "x < 2 powi k" "- 1021 \<le> k"
  shows "\<bar>rnd64 x - x\<bar> \<le> 2 powi (k - 54)"
proof (cases "x = 0")
  case False
  with assms have x: "0 < x" by simp
  have "ilog2 x < k"
  proof (rule ccontr)
    assume "\<not> ilog2 x < k"
    then have "(2::rat) powi k \<le> 2 powi ilog2 x" by (intro power_int_increasing) simp_all
    with ilog2_bounds(1) [OF x] assms(2) show False by simp
  qed
  with assms(3) have "ulp_exp x \<le> k - 53" by (simp add: ulp_exp_def)
  then have u: "ulp x \<le> 2 powi (k - 53)"
    unfolding ulp_def by (intro power_int_increasing) simp_all
  have "\<bar>rnd64 x - x\<bar> = \<bar>of_int (rne (x / ulp x)) - x / ulp x\<bar> * ulp x"
  proof -
    have "of_int (rne (x / ulp x)) * ulp x - x = (of_int (rne (x / ulp x)) - x / ulp x) * ulp x"
      using ulp_pos [of x] by (simp add: left_diff_distrib del: ulp_pos)
    then show ?thesis using x by (simp add: rnd64_pos abs_mult abs_of_pos)
  qed
  also have "\<dots> \<le> 1 / 2 * ulp x"
    by (intro mult_right_mono rne_error) (simp add: less_imp_le)
  also have "\<dots> \<le> 1 / 2 * 2 powi (k - 53)" using u by simp
  also have "\<dots> = 2 powi (k - 54)" by (simp add: power_int_diff)
  finally show ?thesis .
qed simp

lemma rep64_rnd64: "rep64 (rnd64 x)"
proof -
  have pos: "rep64 (rnd64 x)" if "0 < x" for x
  proof -
    have "ilog2 x - 52 \<le> ulp_exp x" by (simp add: ulp_exp_def)
    then have "(2::rat) powi (ilog2 x - 52) \<le> ulp x"
      unfolding ulp_def by (intro power_int_increasing) simp_all
    then have "2 ^ 53 * (2::rat) powi (ilog2 x - 52) \<le> 2 ^ 53 * ulp x" by simp
    moreover have "(2::rat) powi (ilog2 x + 1) = 2 ^ 53 * 2 powi (ilog2 x - 52)"
      by (simp add: power_int_add power_int_diff)
    ultimately have "x \<le> of_int (2 ^ 53) * ulp x"
      using ilog2_bounds(2) [OF that] by simp
    then have "rne (x / ulp x) \<le> 2 ^ 53"
      using rne_mono [of "x / ulp x" "of_int (2 ^ 53)"]
      by (simp add: pos_divide_le_eq del: of_int_power of_int_numeral)
    moreover have "0 \<le> rne (x / ulp x)"
      using rne_mono [of "of_int 0" "x / ulp x"] that by (simp add: less_imp_le)
    ultimately show ?thesis
      unfolding rep64_def
      by (intro exI [of _ "rne (x / ulp x)"] exI [of _ "ulp_exp x"])
        (simp add: rnd64_pos that ulp_def ulp_exp_def)
  qed
  consider "0 < x" | "x = 0" | "0 < - x" by linarith
  then show ?thesis
  proof cases
    case 3
    then have "rep64 (rnd64 (- x))" by (rule pos)
    then show ?thesis by simp
  qed (simp_all add: pos)
qed

section \<open>The type \<open>float64\<close> and its operations\<close>

datatype f64 = Fin rat | PInf | NInf | NaN

text \<open>A real result rounded, with overflow to an infinity.\<close>

definition f64_of :: "rat \<Rightarrow> f64" where
  "f64_of x =
     (let r = rnd64 x in
      if 2 ^ 1024 \<le> r then PInf else if r \<le> - (2 ^ 1024) then NInf else Fin r)"

fun f_add :: "f64 \<Rightarrow> f64 \<Rightarrow> f64" where
  "f_add (Fin x) (Fin y) = f64_of (x + y)"
| "f_add NaN _ = NaN"
| "f_add _ NaN = NaN"
| "f_add PInf NInf = NaN"
| "f_add NInf PInf = NaN"
| "f_add PInf _ = PInf"
| "f_add _ PInf = PInf"
| "f_add NInf _ = NInf"
| "f_add _ NInf = NInf"

fun f_neg :: "f64 \<Rightarrow> f64" where
  "f_neg (Fin x) = Fin (- x)"
| "f_neg PInf = NInf"
| "f_neg NInf = PInf"
| "f_neg NaN = NaN"

definition f_sub :: "f64 \<Rightarrow> f64 \<Rightarrow> f64" where
  "f_sub a b = f_add a (f_neg b)"

fun f_inf_sign :: "rat \<Rightarrow> f64" where
  "f_inf_sign x = (if x = 0 then NaN else if 0 < x then PInf else NInf)"

fun f_mul :: "f64 \<Rightarrow> f64 \<Rightarrow> f64" where
  "f_mul (Fin x) (Fin y) = f64_of (x * y)"
| "f_mul NaN _ = NaN"
| "f_mul _ NaN = NaN"
| "f_mul (Fin x) PInf = f_inf_sign x"
| "f_mul (Fin x) NInf = f_inf_sign (- x)"
| "f_mul PInf (Fin x) = f_inf_sign x"
| "f_mul NInf (Fin x) = f_inf_sign (- x)"
| "f_mul PInf PInf = PInf"
| "f_mul NInf NInf = PInf"
| "f_mul PInf NInf = NInf"
| "f_mul NInf PInf = NInf"

text \<open>Division by a positive constant, the only division in the code.\<close>

fun f_div_const :: "f64 \<Rightarrow> rat \<Rightarrow> f64" where
  "f_div_const (Fin x) c = f64_of (x / c)"
| "f_div_const y c = y"

text \<open>Comparisons are false as soon as one side is not a number.\<close>

fun f_lt :: "f64 \<Rightarrow> f64 \<Rightarrow> bool" where
  "f_lt (Fin x) (Fin y) \<longleftrightarrow> x < y"
| "f_lt NaN _ \<longleftrightarrow> False"
| "f_lt _ NaN \<longleftrightarrow> False"
| "f_lt NInf b \<longleftrightarrow> b \<noteq> NInf"
| "f_lt a PInf \<longleftrightarrow> a \<noteq> PInf"
| "f_lt _ _ \<longleftrightarrow> False"

definition f_eq :: "f64 \<Rightarrow> f64 \<Rightarrow> bool" where
  "f_eq a b \<longleftrightarrow> a \<noteq> NaN \<and> a = b"

definition f_le :: "f64 \<Rightarrow> f64 \<Rightarrow> bool" where
  "f_le a b \<longleftrightarrow> f_lt a b \<or> f_eq a b"

text \<open>An untyped constant of the source, converted to \<open>float64\<close>.\<close>

definition f_const :: "rat \<Rightarrow> f64" where
  "f_const x = f64_of x"

lemma f_le_Fin [simp]: "f_le (Fin x) (Fin y) \<longleftrightarrow> x \<le> y"
  by (auto simp: f_le_def f_eq_def)

lemma f_lt_irrefl_NaN [simp]: "\<not> f_lt a NaN" "\<not> f_le a NaN" "\<not> f_le NaN a" "\<not> f_eq NaN a"
  by (cases a; simp add: f_le_def f_eq_def)+

lemma f64_of_fin: "rnd64 x < 2 ^ 1024 \<Longrightarrow> - (2 ^ 1024) < rnd64 x \<Longrightarrow> f64_of x = Fin (rnd64 x)"
  by (simp add: f64_of_def)

text \<open>Magnitudes far below the overflow threshold; every gauge lives here.\<close>

definition moderate :: "rat \<Rightarrow> bool" where
  "moderate x \<longleftrightarrow> - (2 ^ 100) \<le> x \<and> x \<le> 2 ^ 100"

lemma rep64_pow100: "rep64 (2 ^ 100)"
  using rep64_powi [of 100] by simp

lemma f64_of_moderate [simp]:
  assumes "moderate x" shows "f64_of x = Fin (rnd64 x)"
proof -
  have "rnd64 x \<le> 2 ^ 100" "- (2 ^ 100) \<le> rnd64 x"
    using assms b64.rnd_le [of "2 ^ 100" x] b64.rnd_ge [of "- (2 ^ 100)" x] rep64_pow100
    by (simp_all add: moderate_def)
  moreover have "(2::rat) ^ 100 < 2 ^ 1024" by (rule power_strict_increasing) simp_all
  ultimately show ?thesis by (intro f64_of_fin) linarith+
qed

lemma f64_of_rep: "rep64 x \<Longrightarrow> moderate x \<Longrightarrow> f64_of x = Fin x"
  by (simp add: rnd64_rep64)

section \<open>Random draws\<close>

text \<open>
  A generator is the stream of the values its \<open>Float64\<close> method will return. By the method's
  contract they are \<open>float64\<close> values of the half-open interval from 0 to 1.
\<close>

type_synonym rng = "nat \<Rightarrow> rat"

definition rng_float64 :: "rng \<Rightarrow> f64 \<times> rng" where
  "rng_float64 g = (Fin (g 0), \<lambda>i. g (Suc i))"

definition rng_ok :: "rng \<Rightarrow> bool" where
  "rng_ok g \<longleftrightarrow> (\<forall>i. 0 \<le> g i \<and> g i < 1 \<and> rep64 (g i))"

lemma rng_okD: "rng_ok g \<Longrightarrow> 0 \<le> g i" "rng_ok g \<Longrightarrow> g i < 1" "rng_ok g \<Longrightarrow> rep64 (g i)"
  by (simp_all add: rng_ok_def)

lemma rng_ok_tail [simp]: "rng_ok g \<Longrightarrow> rng_ok (\<lambda>i. g (Suc i))"
  by (simp add: rng_ok_def)

lemma rep64_half [simp]: "rep64 (1 / 2)"
proof -
  have "(1 / 2 :: rat) = 2 powi - 1" by (simp add: power_int_minus)
  then show ?thesis using rep64_powi [of "- 1"] by (simp only:)
qed

lemma rng_ok_const_half [simp]: "rng_ok (\<lambda>_. 1 / 2)"
  by (simp add: rng_ok_def)

section \<open>Finite values between bounds\<close>

definition between :: "rat \<Rightarrow> rat \<Rightarrow> f64 \<Rightarrow> bool" where
  "between lo hi f \<longleftrightarrow> (case f of Fin x \<Rightarrow> lo \<le> x \<and> x \<le> hi | _ \<Rightarrow> False)"

lemma between_Fin [simp]: "between lo hi (Fin x) \<longleftrightarrow> lo \<le> x \<and> x \<le> hi"
  by (simp add: between_def)

lemma betweenE:
  assumes "between lo hi f" obtains x where "f = Fin x" "lo \<le> x" "x \<le> hi"
  using assms by (cases f) (simp_all add: between_def)

lemma between_weaken: "between lo hi f \<Longrightarrow> lo' \<le> lo \<Longrightarrow> hi \<le> hi' \<Longrightarrow> between lo' hi' f"
  by (erule betweenE) simp

lemma moderateI: "- (2 ^ 100) \<le> a \<Longrightarrow> a \<le> x \<Longrightarrow> x \<le> b \<Longrightarrow> b \<le> 2 ^ 100 \<Longrightarrow> moderate x"
  by (simp add: moderate_def)

text \<open>A product of non-negative factors and a sum of bounded terms, rounded.\<close>

lemma f_mul_between:
  assumes "between 0 m a" "between 0 n b" "rep64 (m * n)" "m * n \<le> 2 ^ 100"
  shows "between 0 (m * n) (f_mul a b)"
proof -
  obtain x y where xy: "a = Fin x" "b = Fin y" "0 \<le> x" "x \<le> m" "0 \<le> y" "y \<le> n"
    using assms by (auto elim!: betweenE)
  have p: "0 \<le> x * y" "x * y \<le> m * n" using xy by (simp, intro mult_mono) auto
  then have "moderate (x * y)" using assms(4) by (intro moderateI [of 0 _ "m * n"]) auto
  moreover have "0 \<le> rnd64 (x * y)" "rnd64 (x * y) \<le> m * n"
    using p assms(3) by (auto intro: b64.rnd_ge b64.rnd_le)
  ultimately show ?thesis by (simp add: xy)
qed

lemma f_add_between:
  assumes "between a b x" "between c d y" "rep64 (a + c)" "rep64 (b + d)"
    "- (2 ^ 100) \<le> a + c" "b + d \<le> 2 ^ 100"
  shows "between (a + c) (b + d) (f_add x y)"
proof -
  obtain u v where uv: "x = Fin u" "y = Fin v" "a \<le> u" "u \<le> b" "c \<le> v" "v \<le> d"
    using assms by (auto elim!: betweenE)
  then have "moderate (u + v)" using assms(5,6) by (intro moderateI [of "a + c" _ "b + d"]) auto
  moreover have "a + c \<le> rnd64 (u + v)" "rnd64 (u + v) \<le> b + d"
    using uv assms(3,4) by (auto intro: b64.rnd_ge b64.rnd_le)
  ultimately show ?thesis by (simp add: uv)
qed

text \<open>The \<open>base + util * c\<close> shape of every gauge, for percentages of utilisation.\<close>

lemma affine_between:
  assumes "0 \<le> u" "u \<le> 100" "rep64 base" "0 \<le> base" "base \<le> 1000" "0 \<le> c" "c \<le> 1000"
  shows "between base (rnd64 (base + rnd64 (100 * rnd64 c))) (f_add (Fin base) (f_mul (Fin u) (f64_of c)))"
proof -
  have c: "0 \<le> rnd64 c" "rnd64 c \<le> 1000" using assms by (auto intro: b64.rnd_ge b64.rnd_le)
  have mc: "moderate c" using assms by (intro moderateI [of 0 _ 1000]) simp_all
  have uc: "0 \<le> u * rnd64 c" "u * rnd64 c \<le> 100000"
    using assms c mult_mono [of u 100 "rnd64 c" 1000] by simp_all
  then have muc: "moderate (u * rnd64 c)" by (intro moderateI [of 0 _ 100000]) simp_all
  have p: "0 \<le> rnd64 (u * rnd64 c)" "rnd64 (u * rnd64 c) \<le> 100000"
    using uc by (auto intro: b64.rnd_ge b64.rnd_le)
  have "moderate (base + rnd64 (u * rnd64 c))"
    using assms p by (intro moderateI [of 0 _ 101000]) simp_all
  with mc muc show ?thesis
    using assms c by (simp add: b64.affine_ge b64.affine_le)
qed

end
