(* ===== verification/Go_Parse_Float.thy ===== *)
theory Go_Parse_Float
  imports Go_Float
begin

text \<open>
  \<open>strconv.ParseFloat(s, 64)\<close>: decimal and hexadecimal floating-point syntax with digit-separating
  underscores, and the special words for infinity and not-a-number. The exact value of the literal
  is rounded once. The lemmas relate it to \<open>strconv.Atoi\<close>: whatever \<open>Atoi\<close> accepts, \<open>ParseFloat\<close>
  reads as the same number.
\<close>

text \<open>ASCII case folding.\<close>

definition lower :: "char \<Rightarrow> char" where
  "lower c = (if 65 \<le> (of_char c :: nat) \<and> (of_char c :: nat) \<le> 90 then char_of ((of_char c :: nat) + 32) else c)"

text \<open>The special words: an optional sign before \<open>inf\<close> or \<open>infinity\<close>, none before \<open>nan\<close>.\<close>

definition special :: "string \<Rightarrow> f64 option" where
  "special s =
     (let w = map lower s; (neg, t) = split_sign w in
      if t = ''inf'' \<or> t = ''infinity'' then Some (if neg then NInf else PInf)
      else if w = ''nan'' then Some NaN else None)"

text \<open>
  Where underscores may stand: between digits, counting the base prefix as a digit. The last seen
  character is abstracted to its class.
\<close>

datatype seen = SDigit | SUnderscore | SOther

definition is_hex_digit :: "char \<Rightarrow> bool" where
  "is_hex_digit c \<longleftrightarrow> is_digit c \<or> lower c \<in> set ''abcdef''"

fun underscores_from :: "bool \<Rightarrow> seen \<Rightarrow> string \<Rightarrow> bool" where
  "underscores_from hex i [] \<longleftrightarrow> i \<noteq> SUnderscore"
| "underscores_from hex i (c # cs) \<longleftrightarrow>
     (if is_digit c \<or> (hex \<and> is_hex_digit c) then underscores_from hex SDigit cs
      else if c = CHR ''_'' then i = SDigit \<and> underscores_from hex SUnderscore cs
      else i \<noteq> SUnderscore \<and> underscores_from hex SOther cs)"

definition underscore_ok :: "string \<Rightarrow> bool" where
  "underscore_ok s =
     (let t = snd (split_sign s) in
      case t of
        z # b # rest \<Rightarrow>
          if z = CHR ''0'' \<and> lower b \<in> set ''box'' then underscores_from (lower b = CHR ''x'') SDigit rest
          else underscores_from False SOther t
      | _ \<Rightarrow> underscores_from False SOther t)"

text \<open>
  The mantissa: all its digits as one number, how many of them follow the point, whether a point
  and a digit were seen, and the rest of the input.
\<close>

record mantissa =
  m_val :: nat
  m_frac :: nat
  m_dot :: bool
  m_digits :: bool

definition hex_val :: "char \<Rightarrow> nat" where
  "hex_val c = (if is_digit c then digit_val c else of_char (lower c) - 87)"

fun scan_mantissa :: "bool \<Rightarrow> string \<Rightarrow> mantissa \<Rightarrow> mantissa \<times> string" where
  "scan_mantissa hex [] m = (m, [])"
| "scan_mantissa hex (c # cs) m =
     (if c = CHR ''_'' then scan_mantissa hex cs m
      else if c = CHR ''.'' then (if m_dot m then (m, c # cs) else scan_mantissa hex cs (m\<lparr>m_dot := True\<rparr>))
      else if is_digit c \<or> (hex \<and> is_hex_digit c) then
        scan_mantissa hex cs
          (m\<lparr>m_val := (if hex then 16 else 10) * m_val m + hex_val c,
             m_frac := (if m_dot m then Suc (m_frac m) else m_frac m), m_digits := True\<rparr>)
      else (m, c # cs))"

text \<open>Exponent digits; past 10000 the source stops accumulating.\<close>

fun scan_exp_digits :: "string \<Rightarrow> nat \<Rightarrow> nat \<times> string" where
  "scan_exp_digits [] e = (e, [])"
| "scan_exp_digits (c # cs) e =
     (if c = CHR ''_'' then scan_exp_digits cs e
      else if is_digit c then scan_exp_digits cs (if e < 10000 then 10 * e + digit_val c else e)
      else (e, c # cs))"

text \<open>An exponent part, if there is one; \<open>None\<close> when it is malformed.\<close>

definition scan_exp :: "bool \<Rightarrow> string \<Rightarrow> (int \<times> string) option" where
  "scan_exp hex s =
     (case s of
        [] \<Rightarrow> if hex then None else Some (0, [])
      | c # cs \<Rightarrow>
          if lower c = (if hex then CHR ''p'' else CHR ''e'') then
            (let (neg, ds) = split_sign cs in
             if ds = [] \<or> \<not> is_digit (hd ds) then None
             else let (e, rest) = scan_exp_digits ds 0 in Some (if neg then - int e else int e, rest))
          else if hex then None else Some (0, s))"

text \<open>The exact value of a literal that spans the whole string.\<close>

definition read_float :: "string \<Rightarrow> rat option" where
  "read_float s =
     (let (neg, t) = split_sign s;
          hex = (case t of z # x # _ # _ \<Rightarrow> z = CHR ''0'' \<and> lower x = CHR ''x'' | _ \<Rightarrow> False);
          (m, rest) = scan_mantissa hex (if hex then drop 2 t else t)
            \<lparr>m_val = 0, m_frac = 0, m_dot = False, m_digits = False\<rparr>
      in if \<not> m_digits m then None
         else case scan_exp hex rest of
           None \<Rightarrow> None
         | Some (e, rest') \<Rightarrow>
             if rest' \<noteq> [] \<or> (CHR ''_'' \<in> set s \<and> \<not> underscore_ok s) then None
             else let v = of_nat (m_val m) / (if hex then 16 else 10) ^ m_frac m * (if hex then 2 else 10) powi e
                  in Some (if neg then - v else v))"

definition parse_float :: "string \<Rightarrow> num_error + f64" where
  "parse_float s =
     (case special s of
        Some f \<Rightarrow> Inr f
      | None \<Rightarrow>
          (case read_float s of
             None \<Rightarrow> Inl ErrSyntax
           | Some v \<Rightarrow> (case f64_of v of Fin x \<Rightarrow> Inr (Fin x) | _ \<Rightarrow> Inl ErrRange)))"

section \<open>Results are \<open>float64\<close> values\<close>

definition f64_ok :: "f64 \<Rightarrow> bool" where
  "f64_ok f \<longleftrightarrow> (case f of Fin x \<Rightarrow> rep64 x | _ \<Rightarrow> True)"

lemma f64_ok_of [simp]: "f64_ok (f64_of x)"
  by (simp add: f64_ok_def f64_of_def Let_def rep64_rnd64)

lemma special_not_Fin [simp]: "special s \<noteq> Some (Fin x)"
  by (simp add: special_def Let_def split: prod.splits)

lemma parse_float_ok: "parse_float s = Inr f \<Longrightarrow> f64_ok f"
proof -
  assume p: "parse_float s = Inr f"
  have "rep64 x" if "f64_of v = Fin x" for v x
    using f64_ok_of [of v] that by (simp add: f64_ok_def)
  with p show ?thesis
    by (auto simp: parse_float_def f64_ok_def split: option.splits f64.splits)
qed

section \<open>Plain decimal integers\<close>

lemma digit_not_letter:
  assumes "is_digit c" shows "lower c = c" "c \<noteq> CHR ''i''" "c \<noteq> CHR ''n''" "c \<noteq> CHR ''x''"
    "c \<noteq> CHR ''_''" "c \<noteq> CHR ''.''" "c \<noteq> CHR ''-''" "c \<noteq> CHR ''+''"
  using assms by (auto simp: lower_def is_digit_def)

lemma scan_mantissa_digits:
  "list_all is_digit ds \<Longrightarrow> m_dot m = False \<Longrightarrow>
   scan_mantissa False ds m =
     (m\<lparr>m_val := foldl (\<lambda>v c. 10 * v + digit_val c) (m_val m) ds, m_digits := m_digits m \<or> ds \<noteq> []\<rparr>, [])"
  by (induction ds arbitrary: m) (auto simp: digit_not_letter hex_val_def)

lemma special_digits:
  assumes "split_sign s = (neg, ds)" "ds \<noteq> []" "list_all is_digit ds"
  shows "special s = None"
proof -
  have lower_ds: "map lower ds = ds"
    using assms(3) by (induction ds) (auto simp: digit_not_letter)
  obtain d ds' where ds: "ds = d # ds'" using assms(2) by (cases ds) auto
  then have d: "is_digit d" using assms(3) by simp
  from assms(1) ds consider "s = ds" | "s = CHR ''-'' # ds" | "s = CHR ''+'' # ds"
    by (auto simp: split_sign_def split: list.splits if_splits)
  then show ?thesis
    using digit_not_letter [OF d] lower_ds
    by cases (auto simp: special_def split_sign_def ds lower_def)
qed

lemma read_float_digits:
  assumes s: "split_sign s = (neg, ds)" "ds \<noteq> []" "list_all is_digit ds"
  shows "read_float s = Some (of_int (if neg then - int (digits_val ds) else int (digits_val ds)))"
proof -
  have "CHR ''_'' \<notin> set ds"
    using s(3) not_digit_minus(5) by (auto simp only: list_all_iff)
  with s(1) have u: "CHR ''_'' \<notin> set s"
    by (auto simp: split_sign_def split: list.splits if_splits)
  have hex: "\<not> (case ds of z # x # _ # _ \<Rightarrow> z = CHR ''0'' \<and> lower x = CHR ''x'' | _ \<Rightarrow> False)"
    using s(3) by (auto simp: digit_not_letter split: list.splits)
  show ?thesis
    using hex by (simp add: read_float_def s scan_mantissa_digits scan_exp_def u digits_val_def)
qed

lemma parse_float_atoi:
  assumes "atoi s = Inr n" and small: "\<bar>n\<bar> \<le> 2 ^ 53"
  shows "parse_float s = Inr (Fin (of_int n))"
proof -
  from assms(1) obtain neg ds where s: "split_sign s = (neg, ds)" "ds \<noteq> []" "list_all is_digit ds"
    and n: "n = (if neg then - int (digits_val ds) else int (digits_val ds))"
    by (rule atoi_Inr)
  have "of_int (- (2 ^ 53)) \<le> (of_int n :: rat)" "of_int n \<le> (of_int (2 ^ 53) :: rat)"
    using small by (simp_all only: of_int_le_iff abs_le_iff) auto
  then have "moderate (of_int n)" by (simp add: moderate_def)
  with small have "f64_of (of_int n) = Fin (of_int n)"
    by (simp add: f64_of_rep del: f64_of_moderate)
  then show ?thesis
    using n by (simp add: parse_float_def special_digits [OF s] read_float_digits [OF s])
qed

end
