(* ===== verification/Go_Flag.thy ===== *)
theory Go_Flag
  imports Go_Parse_Float "HOL-Library.AList"
begin

text \<open>
  Go's package \<open>flag\<close> as the programs use it: \<open>FlagSet.Parse\<close> over the declared flags with their current
  values, \<open>strconv.ParseInt\<close> with base 0 for the integer flags and \<open>strconv.ParseBool\<close> for the boolean
  ones. \<open>time.ParseDuration\<close> is the parameter \<open>dur\<close>. The lemmas show that an argument \<open>--name=value\<close>
  sets exactly that flag, and that a rendered integer is read back.
\<close>

text \<open>Storing under a new key appends.\<close>

lemma update_fresh: "k \<notin> fst ` set m \<Longrightarrow> AList.update k v m = m @ [(k, v)]"
  by (induction m) auto

section \<open>Integers in any base\<close>

definition digit_of :: "char \<Rightarrow> nat option" where
  "digit_of c =
     (if is_digit c then Some (digit_val c)
      else let k = (of_char (lower c) :: nat) in
           if 97 \<le> k \<and> k \<le> 122 then Some (k - 97 + 10) else None)"

fun base_value :: "nat \<Rightarrow> string \<Rightarrow> nat \<Rightarrow> nat option" where
  "base_value b [] n = Some n"
| "base_value b (c # cs) n =
     (if c = CHR ''_'' then base_value b cs n
      else case digit_of c of
        None \<Rightarrow> None
      | Some d \<Rightarrow> if b \<le> d then None else base_value b cs (b * n + d))"

text \<open>The base named by the prefix, and the digits after it.\<close>

definition base_prefix :: "string \<Rightarrow> nat \<times> string" where
  "base_prefix t =
     (case t of
        z # b # d # rest \<Rightarrow>
          if z \<noteq> CHR ''0'' then (10, t)
          else if lower b = CHR ''b'' then (2, d # rest)
          else if lower b = CHR ''o'' then (8, d # rest)
          else if lower b = CHR ''x'' then (16, d # rest)
          else (8, b # d # rest)
      | z # rest \<Rightarrow> if z \<noteq> CHR ''0'' then (10, t) else (8, rest)
      | [] \<Rightarrow> (10, t))"

definition parse_int0 :: "string \<Rightarrow> int option" where
  "parse_int0 s =
     (let (neg, t) = split_sign s; (b, ds) = base_prefix t in
      if t = [] then None
      else case base_value b ds 0 of
        None \<Rightarrow> None
      | Some n \<Rightarrow>
          let v = (if neg then - int n else int n) in
          if CHR ''_'' \<in> set t \<and> \<not> underscore_ok t then None
          else if in_i64 v then Some v else None)"

definition parse_bool :: "string \<Rightarrow> bool option" where
  "parse_bool s =
     (if s \<in> {''1'', ''t'', ''T'', ''TRUE'', ''true'', ''True''} then Some True
      else if s \<in> {''0'', ''f'', ''F'', ''FALSE'', ''false'', ''False''} then Some False
      else None)"

lemma base_value_decimal:
  "\<forall>c \<in> set ds. is_digit c \<Longrightarrow> base_value 10 ds n = Some (foldl (\<lambda>n c. 10 * n + digit_val c) n ds)"
proof (induction ds arbitrary: n)
  case (Cons c ds)
  then have "c \<noteq> CHR ''_''" "digit_val c < 10" by (auto simp: is_digit_def digit_val_def)
  then show ?case using Cons by (simp add: digit_of_def)
qed simp

lemma nat_digits_head: "nat_digits n = c # cs \<Longrightarrow> c \<noteq> CHR ''0'' \<or> n = 0 \<and> cs = []"
proof (induction n arbitrary: cs rule: nat_digits.induct)
  case (1 n)
  show ?case
  proof (cases "n < 10")
    case True
    then have "cs = []" "c = digit_char n" using 1(2) by (simp_all add: nat_digits.simps [of n])
    moreover have "digit_char n = CHR ''0'' \<Longrightarrow> n = 0"
      using digit_val_char [OF True] by (auto simp: digit_val_def)
    ultimately show ?thesis by auto
  next
    case False
    then obtain ds where "nat_digits (n div 10) = c # ds"
      using 1(2) by (cases "nat_digits (n div 10)") (auto simp: nat_digits.simps [of n])
    with 1(1) [OF False] False show ?thesis by auto
  qed
qed

lemma nat_digits_0: "nat_digits 0 = ''0''"
  by code_simp

lemma base_prefix_digits: "base_prefix (nat_digits n) = (if n = 0 then (8, []) else (10, nat_digits n))"
proof (cases "n = 0")
  case False
  obtain c cs where c: "nat_digits n = c # cs" by (meson nat_digits_ne neq_Nil_conv)
  with nat_digits_head [OF c] False show ?thesis by (auto simp: base_prefix_def split: list.split)
qed (simp add: nat_digits_0 base_prefix_def)

text \<open>An integer printed in decimal is read back.\<close>

lemma parse_int0_itoa:
  assumes "in_i64 n"
  shows "parse_int0 (itoa n) = Some n"
proof -
  let ?t = "nat_digits (nat \<bar>n\<bar>)"
  have under: "CHR ''_'' \<notin> set ?t"
    using nat_digits_digits [of "nat \<bar>n\<bar>"] by (auto simp: is_digit_def)
  have "(case base_prefix ?t of (b, ds) \<Rightarrow> base_value b ds 0) = Some (nat \<bar>n\<bar>)"
    using base_value_decimal [OF nat_digits_digits, of "nat \<bar>n\<bar>" 0] digits_val_nat_digits [of "nat \<bar>n\<bar>"]
    by (simp add: base_prefix_digits digits_val_def)
  then show ?thesis
    using assms under by (auto simp: parse_int0_def split_sign_itoa Let_def split: prod.split)
qed

section \<open>Flag sets\<close>

datatype flag_value = FlagString string | FlagInt int | FlagBool bool | FlagDuration int

type_synonym flags = "(string \<times> flag_value) list"

datatype flag_error =
    BadFlagSyntax string
  | FlagNotDefined string
  | FlagNeedsArgument string
  | InvalidFlagValue string string
  | ErrHelp

text \<open>\<open>Value.Set\<close>: the kind of the flag is that of its current value.\<close>

fun set_flag :: "(string \<Rightarrow> int option) \<Rightarrow> flag_value \<Rightarrow> string \<Rightarrow> flag_value option" where
  "set_flag dur (FlagString _) s = Some (FlagString s)"
| "set_flag dur (FlagInt _) s = map_option FlagInt (parse_int0 s)"
| "set_flag dur (FlagBool _) s = map_option FlagBool (parse_bool s)"
| "set_flag dur (FlagDuration _) s = map_option FlagDuration (dur s)"

fun is_bool_flag :: "flag_value \<Rightarrow> bool" where
  "is_bool_flag (FlagBool _) = True"
| "is_bool_flag _ = False"

text \<open>The name and the value after an equals sign, which cannot come first.\<close>

definition split_flag :: "string \<Rightarrow> string \<times> string option" where
  "split_flag s =
     (case s of [] \<Rightarrow> ([], None)
      | c # cs \<Rightarrow> (case cut_at (CHR ''='') cs of None \<Rightarrow> (s, None) | Some (a, b) \<Rightarrow> (c # a, Some b)))"

definition flag_name :: "string \<Rightarrow> string" where
  "flag_name s = (if length s \<ge> 2 \<and> s ! 1 = CHR ''-'' then drop 2 s else drop 1 s)"

definition store_flag :: "(string \<Rightarrow> int option) \<Rightarrow> flags \<Rightarrow> string \<Rightarrow> string \<Rightarrow> flag_error + flags" where
  "store_flag dur vals name s =
     (case map_of vals name of
        None \<Rightarrow> Inl (FlagNotDefined name)
      | Some old \<Rightarrow>
          (case set_flag dur old s of
             None \<Rightarrow> Inl (InvalidFlagValue s name)
           | Some v \<Rightarrow> Inr (AList.update name v vals)))"

text \<open>\<open>Parse\<close>: it stops at the first argument that is not a flag, or after \<open>--\<close>.\<close>

fun parse_flags :: "(string \<Rightarrow> int option) \<Rightarrow> flags \<Rightarrow> string list \<Rightarrow> flag_error + flags" where
  "parse_flags dur vals [] = Inr vals"
| "parse_flags dur vals (s # rest) =
     (if length s < 2 \<or> hd s \<noteq> CHR ''-'' \<or> s = ''--'' then Inr vals
      else
        let raw = flag_name s in
        if raw = [] \<or> hd raw = CHR ''-'' \<or> hd raw = CHR ''='' then Inl (BadFlagSyntax s)
        else
          let (name, given) = split_flag raw in
          case map_of vals name of
            None \<Rightarrow> Inl (if name = ''help'' \<or> name = ''h'' then ErrHelp else FlagNotDefined name)
          | Some old \<Rightarrow>
              (case given of
                 Some v \<Rightarrow>
                   (case store_flag dur vals name v of
                      Inl e \<Rightarrow> Inl e
                    | Inr vals1 \<Rightarrow> parse_flags dur vals1 rest)
               | None \<Rightarrow>
                   if is_bool_flag old then
                     (case store_flag dur vals name ''true'' of
                        Inl e \<Rightarrow> Inl e
                      | Inr vals1 \<Rightarrow> parse_flags dur vals1 rest)
                   else
                     (case rest of
                        [] \<Rightarrow> Inl (FlagNeedsArgument name)
                      | v # rest1 \<Rightarrow>
                          (case store_flag dur vals name v of
                             Inl e \<Rightarrow> Inl e
                           | Inr vals1 \<Rightarrow> parse_flags dur vals1 rest1))))"

text \<open>The arguments a program renders: \<open>--name=value\<close>.\<close>

definition flag_arg :: "string \<Rightarrow> string \<Rightarrow> string" where
  "flag_arg name v = ''--'' @ name @ ''='' @ v"

definition plain_name :: "string \<Rightarrow> bool" where
  "plain_name name \<longleftrightarrow> name \<noteq> [] \<and> hd name \<noteq> CHR ''-'' \<and> CHR ''='' \<notin> set name"

lemma flag_name_arg: "flag_name (flag_arg name v) = name @ ''='' @ v"
  by (simp add: flag_name_def flag_arg_def)

lemma split_flag_arg:
  assumes "plain_name name"
  shows "split_flag (name @ CHR ''='' # v) = (name, Some v)"
proof (cases name)
  case (Cons c cs)
  then have "CHR ''='' \<notin> set cs" using assms by (simp add: plain_name_def)
  then show ?thesis using Cons by (simp add: split_flag_def cut_at_append)
qed (use assms in \<open>simp add: plain_name_def\<close>)

text \<open>One rendered argument sets one flag.\<close>

lemma parse_flag_arg:
  assumes "plain_name name" "map_of vals name = Some old" "set_flag dur old v = Some new"
  shows "parse_flags dur vals (flag_arg name v # rest) =
         parse_flags dur (AList.update name new vals) rest"
proof -
  have "length (flag_arg name v) \<ge> 2" "hd (flag_arg name v) = CHR ''-''" "flag_arg name v \<noteq> ''--''"
    by (simp_all add: flag_arg_def)
  moreover have "name @ ''='' @ v \<noteq> []" "hd (name @ ''='' @ v) \<noteq> CHR ''-''" "hd (name @ ''='' @ v) \<noteq> CHR ''=''"
    using assms(1) by (cases name; auto simp: plain_name_def)+
  ultimately show ?thesis
    using assms by (simp add: flag_name_arg split_flag_arg store_flag_def Let_def)
qed

text \<open>A whole rendered command line sets its flags from left to right.\<close>

fun set_all :: "(string \<Rightarrow> int option) \<Rightarrow> flags \<Rightarrow> (string \<times> string) list \<Rightarrow> flags option" where
  "set_all dur vals [] = Some vals"
| "set_all dur vals ((name, v) # rest) =
     (if \<not> plain_name name then None
      else case map_of vals name of
        None \<Rightarrow> None
      | Some old \<Rightarrow>
          (case set_flag dur old v of
             None \<Rightarrow> None
           | Some new \<Rightarrow> set_all dur (AList.update name new vals) rest))"

lemma parse_rendered:
  "set_all dur vals nvs = Some vals1 \<Longrightarrow>
     parse_flags dur vals (map (\<lambda>(name, v). flag_arg name v) nvs) = Inr vals1"
proof (induction dur vals nvs rule: set_all.induct)
  case (2 dur vals name v rest)
  then show ?case by (auto simp: parse_flag_arg simp del: parse_flags.simps split: if_splits option.splits)
qed simp

end
