(* ===== verification/Workloads.thy ===== *)
theory Workloads
  imports Prelude
begin

text \<open>
  The Kubernetes objects the controller creates, with the fields its builders fill in, the
  DeviceConfig resource (\<open>api/v1alpha1/deviceconfig_types.go\<close>), and the builders themselves
  (\<open>pkg/controller/deviceconfig_controller.go\<close>). Pointers to optional scalars are options.
\<close>

text \<open>Label and selector maps are association lists with distinct keys, in the order of the source.\<close>

type_synonym labels = "(string \<times> string) list"

section \<open>The DeviceConfig resource\<close>

record DriverSpec =
  drv_Enable :: "bool option"

record DevicePluginSpec =
  dp_Enable :: "bool option"
  dp_ImagePullPolicy :: string

record MetricsExporterSpec =
  me_Enable :: "bool option"

record CommonConfigSpec =
  InitContainerImage :: string

record ComputePartitionSpec =
  Mode :: string
  Count :: int

record DeviceConfigSpec =
  Driver :: DriverSpec
  DevicePlugin :: DevicePluginSpec
  MetricsExporter :: MetricsExporterSpec
  NodeSelector :: labels
  CommonConfig :: CommonConfigSpec
  ComputePartition :: ComputePartitionSpec

record DeviceConfigStatus =
  DevicePluginReady :: bool
  MetricsExporterReady :: bool
  Conditions :: "string list"

record DeviceConfig =
  dc_Name :: string
  Spec :: DeviceConfigSpec
  Status :: DeviceConfigStatus

definition empty_status :: DeviceConfigStatus where
  "empty_status = \<lparr>DevicePluginReady = False, MetricsExporterReady = False, Conditions = []\<rparr>"

section \<open>Kubernetes objects\<close>

record ObjectMeta =
  om_Name :: string
  om_Namespace :: string
  om_Labels :: labels
  om_controller :: "string option" \<comment> \<open>the owner whose reference has the controller flag\<close>

record SecurityContext =
  Privileged :: "bool option"
  RunAsUser :: "int option"
  RunAsGroup :: "int option"
  RunAsNonRoot :: "bool option"
  AllowPrivilegeEscalation :: "bool option"
  ReadOnlyRootFilesystem :: "bool option"
  DropCapabilities :: "string list"

record VolumeMount =
  vm_Name :: string
  vm_MountPath :: string
  vm_ReadOnly :: bool

record Volume =
  vol_Name :: string
  vol_HostPath :: string
  vol_Type :: string

record ContainerPort =
  cp_Name :: string
  cp_ContainerPort :: int
  cp_Protocol :: string

record KContainer =
  k_Name :: string
  k_Image :: string
  k_ImagePullPolicy :: string
  k_Args :: "string list"
  k_Env :: "(string \<times> string) list" \<comment> \<open>variable and field path\<close>
  k_Ports :: "ContainerPort list"
  k_SecurityContext :: SecurityContext
  k_VolumeMounts :: "VolumeMount list"

record PodSpec =
  ps_ServiceAccountName :: string
  ps_NodeSelector :: labels
  ps_PriorityClassName :: string
  ps_Containers :: "KContainer list"
  ps_Volumes :: "Volume list"

record ServicePort =
  sp_Name :: string
  sp_Port :: int
  sp_TargetPort :: string
  sp_Protocol :: string

text \<open>The specification of a DaemonSet, a Deployment or a Service.\<close>

record DaemonSetSpec =
  ds_Selector :: labels
  ds_TemplateLabels :: labels
  ds_PodSpec :: PodSpec

record DeploymentSpec =
  dep_Replicas :: "int option"
  dep_Strategy :: string
  dep_Selector :: labels
  dep_TemplateLabels :: labels
  dep_PodSpec :: PodSpec

record ServiceSpec =
  svc_Type :: string
  svc_Selector :: labels
  svc_Ports :: "ServicePort list"
  svc_ClusterIP :: string

datatype WorkloadSpec = DaemonSetSpecOf DaemonSetSpec | DeploymentSpecOf DeploymentSpec | ServiceSpecOf ServiceSpec

text \<open>A stored child object; the two counters are the part of a DaemonSet's status that is read.\<close>

record Workload =
  w_Meta :: ObjectMeta
  w_Spec :: WorkloadSpec
  NumberReady :: int
  DesiredNumberScheduled :: int

datatype kind = KDaemonSet | KDeployment | KService

type_synonym wkey = "kind \<times> string \<times> string"

section \<open>The controller's configuration\<close>

record Config =
  Image :: string
  ImagePullPolicy :: string
  GPUsPerNode :: int
  ProductName :: string
  GPUMemoryBytes :: int
  ResourceName :: string
  DefaultNodeSelector :: labels
  DefaultUtilization :: string
  Namespace :: string

definition enabled :: "bool option \<Rightarrow> bool \<Rightarrow> bool" where
  "enabled p dflt = (case p of None \<Rightarrow> dflt | Some b \<Rightarrow> b)"

definition normalizePartition :: "ComputePartitionSpec \<Rightarrow> string \<times> int" where
  "normalizePartition p =
     (if Mode p \<noteq> ''cpx'' then (''spx'', 1)
      else if Count p < 1 then (''cpx'', 1)
      else (''cpx'', Count p))"

definition partitionMultiplier :: "ComputePartitionSpec \<Rightarrow> int" where
  "partitionMultiplier p = (let (_, count) = normalizePartition p in count)"

section \<open>Builders\<close>

definition commonLabels :: "string \<Rightarrow> labels" where
  "commonLabels app =
     [(''app'', app),
      (''app.kubernetes.io/name'', ''fake-rocm-gpu-operator''),
      (''app.kubernetes.io/managed-by'', ''deviceconfig-controller''),
      (''app.kubernetes.io/part-of'', ''sims'')]"

definition node_name_env :: "(string \<times> string) list" where
  "node_name_env = [(''NODE_NAME'', ''spec.nodeName'')]"

definition child_meta :: "Config \<Rightarrow> string \<Rightarrow> ObjectMeta" where
  "child_meta cfg name =
     \<lparr>om_Name = name, om_Namespace = Namespace cfg, om_Labels = commonLabels name, om_controller = None\<rparr>"

definition new_workload :: "ObjectMeta \<Rightarrow> WorkloadSpec \<Rightarrow> Workload" where
  "new_workload m s = \<lparr>w_Meta = m, w_Spec = s, NumberReady = 0, DesiredNumberScheduled = 0\<rparr>"

text \<open>The security context of the unprivileged workloads.\<close>

definition restricted_context :: SecurityContext where
  "restricted_context =
     \<lparr>Privileged = None, RunAsUser = Some 65532, RunAsGroup = Some 65532, RunAsNonRoot = Some True,
      AllowPrivilegeEscalation = Some False, ReadOnlyRootFilesystem = Some True,
      DropCapabilities = [''ALL'']\<rparr>"

definition effectiveGPUs :: "Config \<Rightarrow> DeviceConfig \<Rightarrow> int" where
  "effectiveGPUs cfg cr = i32 (GPUsPerNode cfg * partitionMultiplier (ComputePartition (Spec cr)))"

definition buildDevicePluginDS ::
  "Config \<Rightarrow> DeviceConfig \<Rightarrow> labels \<Rightarrow> string \<Rightarrow> Workload" where
  "buildDevicePluginDS cfg cr nodeSelector pullPolicy =
     (let pp = (if pullPolicy = [] then ImagePullPolicy cfg else pullPolicy);
          lbl = commonLabels ''amd-device-plugin''
      in new_workload (child_meta cfg ''amd-device-plugin'')
        (DaemonSetSpecOf
          \<lparr>ds_Selector = [(''app'', ''amd-device-plugin'')],
           ds_TemplateLabels = lbl,
           ds_PodSpec =
             \<lparr>ps_ServiceAccountName = ''amd-device-plugin'',
              ps_NodeSelector = nodeSelector,
              ps_PriorityClassName = ''system-node-critical'',
              ps_Containers =
                [\<lparr>k_Name = ''device-plugin'',
                  k_Image = Image cfg,
                  k_ImagePullPolicy = pp,
                  k_Args =
                    [''device-plugin'',
                     ''--gpus-per-node='' @ itoa (effectiveGPUs cfg cr),
                     ''--resource-name='' @ ResourceName cfg,
                     ''--kubelet-socket-dir=/var/lib/kubelet/device-plugins'',
                     ''--pod-resources-socket=/var/lib/kubelet/pod-resources/kubelet.sock''],
                  k_Env = node_name_env,
                  k_Ports = [],
                  k_SecurityContext =
                    \<lparr>Privileged = Some True, RunAsUser = Some 0, RunAsGroup = Some 0,
                     RunAsNonRoot = None, AllowPrivilegeEscalation = None,
                     ReadOnlyRootFilesystem = None, DropCapabilities = []\<rparr>,
                  k_VolumeMounts =
                    [\<lparr>vm_Name = ''kubelet-device-plugins'',
                      vm_MountPath = ''/var/lib/kubelet/device-plugins'', vm_ReadOnly = False\<rparr>,
                     \<lparr>vm_Name = ''pod-resources'',
                      vm_MountPath = ''/var/lib/kubelet/pod-resources'', vm_ReadOnly = True\<rparr>]\<rparr>],
              ps_Volumes =
                [\<lparr>vol_Name = ''kubelet-device-plugins'',
                  vol_HostPath = ''/var/lib/kubelet/device-plugins'', vol_Type = ''Directory''\<rparr>,
                 \<lparr>vol_Name = ''pod-resources'',
                  vol_HostPath = ''/var/lib/kubelet/pod-resources'', vol_Type = ''Directory''\<rparr>]\<rparr>\<rparr>))"

definition buildMetricsExporterDS ::
  "Config \<Rightarrow> DeviceConfig \<Rightarrow> labels \<Rightarrow> Workload" where
  "buildMetricsExporterDS cfg cr nodeSelector =
     (let lbl = commonLabels ''amd-device-metrics-exporter'';
          (mode, count) = normalizePartition (ComputePartition (Spec cr))
      in new_workload (child_meta cfg ''amd-device-metrics-exporter'')
        (DaemonSetSpecOf
          \<lparr>ds_Selector = [(''app'', ''amd-device-metrics-exporter'')],
           ds_TemplateLabels = lbl,
           ds_PodSpec =
             \<lparr>ps_ServiceAccountName = ''amd-device-metrics-exporter'',
              ps_NodeSelector = nodeSelector,
              ps_PriorityClassName = [],
              ps_Containers =
                [\<lparr>k_Name = ''metrics-exporter'',
                  k_Image = Image cfg,
                  k_ImagePullPolicy = ImagePullPolicy cfg,
                  k_Args =
                    [''metrics-exporter'',
                     ''--listen=:5000'',
                     ''--gpus-per-node='' @ itoa (GPUsPerNode cfg),
                     ''--product-name='' @ ProductName cfg,
                     ''--memory-bytes='' @ itoa (GPUMemoryBytes cfg),
                     ''--topology-namespace='' @ Namespace cfg,
                     ''--partition-mode='' @ mode,
                     ''--partition-count='' @ itoa count,
                     ''--default-utilization='' @ DefaultUtilization cfg],
                  k_Env = node_name_env,
                  k_Ports = [\<lparr>cp_Name = ''gpu-metrics'', cp_ContainerPort = 5000, cp_Protocol = ''TCP''\<rparr>],
                  k_SecurityContext = restricted_context,
                  k_VolumeMounts = []\<rparr>],
              ps_Volumes = []\<rparr>\<rparr>))"

definition buildMetricsExporterService :: "Config \<Rightarrow> DeviceConfig \<Rightarrow> Workload" where
  "buildMetricsExporterService cfg cr =
     new_workload (child_meta cfg ''amd-device-metrics-exporter'')
       (ServiceSpecOf
         \<lparr>svc_Type = ''ClusterIP'',
          svc_Selector = [(''app'', ''amd-device-metrics-exporter'')],
          svc_Ports =
            [\<lparr>sp_Name = ''gpu-metrics'', sp_Port = 5000, sp_TargetPort = ''gpu-metrics'', sp_Protocol = ''TCP''\<rparr>],
          svc_ClusterIP = []\<rparr>)"

definition buildStatusUpdaterDeployment ::
  "Config \<Rightarrow> DeviceConfig \<Rightarrow> labels \<Rightarrow> Workload" where
  "buildStatusUpdaterDeployment cfg cr nodeSelector =
     (let lbl = commonLabels ''amd-status-updater''
      in new_workload (child_meta cfg ''amd-status-updater'')
        (DeploymentSpecOf
          \<lparr>dep_Replicas = Some 1,
           dep_Strategy = ''Recreate'',
           dep_Selector = [(''app'', ''amd-status-updater'')],
           dep_TemplateLabels = lbl,
           dep_PodSpec =
             \<lparr>ps_ServiceAccountName = ''amd-status-updater'',
              ps_NodeSelector = [],
              ps_PriorityClassName = [],
              ps_Containers =
                [\<lparr>k_Name = ''status-updater'',
                  k_Image = Image cfg,
                  k_ImagePullPolicy = ImagePullPolicy cfg,
                  k_Args =
                    [''status-updater'',
                     ''--topology-namespace='' @ Namespace cfg,
                     ''--reconcile-interval=5s''],
                  k_Env = [],
                  k_Ports = [],
                  k_SecurityContext = restricted_context,
                  k_VolumeMounts = []\<rparr>],
              ps_Volumes = []\<rparr>\<rparr>))"

definition buildNodeLabellerDS ::
  "Config \<Rightarrow> DeviceConfig \<Rightarrow> labels \<Rightarrow> Workload" where
  "buildNodeLabellerDS cfg cr nodeSelector =
     (let lbl = commonLabels ''amd-node-labeller''
      in new_workload (child_meta cfg ''amd-node-labeller'')
        (DaemonSetSpecOf
          \<lparr>ds_Selector = [(''app'', ''amd-node-labeller'')],
           ds_TemplateLabels = lbl,
           ds_PodSpec =
             \<lparr>ps_ServiceAccountName = ''amd-node-labeller'',
              ps_NodeSelector = nodeSelector,
              ps_PriorityClassName = [],
              ps_Containers =
                [\<lparr>k_Name = ''node-labeller'',
                  k_Image = Image cfg,
                  k_ImagePullPolicy = ImagePullPolicy cfg,
                  k_Args = [''node-labeller'', ''--product-name='' @ ProductName cfg],
                  k_Env = node_name_env,
                  k_Ports = [],
                  k_SecurityContext = restricted_context,
                  k_VolumeMounts = []\<rparr>],
              ps_Volumes = []\<rparr>\<rparr>))"

lemmas builder_defs = buildDevicePluginDS_def buildMetricsExporterDS_def buildMetricsExporterService_def
  buildStatusUpdaterDeployment_def buildNodeLabellerDS_def

section \<open>Reading the built objects\<close>

fun pod_spec_of :: "WorkloadSpec \<Rightarrow> PodSpec option" where
  "pod_spec_of (DaemonSetSpecOf s) = Some (ds_PodSpec s)"
| "pod_spec_of (DeploymentSpecOf s) = Some (dep_PodSpec s)"
| "pod_spec_of (ServiceSpecOf s) = None"

definition container_args :: "Workload \<Rightarrow> string list" where
  "container_args x =
     (case pod_spec_of (w_Spec x) of None \<Rightarrow> [] | Some p \<Rightarrow> concat (map k_Args (ps_Containers p)))"

definition node_selector_of :: "Workload \<Rightarrow> labels" where
  "node_selector_of x = (case pod_spec_of (w_Spec x) of None \<Rightarrow> [] | Some p \<Rightarrow> ps_NodeSelector p)"

lemma normalizePartition_ge: "normalizePartition p = (mode, count) \<Longrightarrow> 1 \<le> count"
  by (auto simp: normalizePartition_def split: if_splits)

lemma builder_names:
  "om_Name (w_Meta (buildDevicePluginDS cfg cr sel pp)) = ''amd-device-plugin''"
  "om_Name (w_Meta (buildMetricsExporterDS cfg cr sel)) = ''amd-device-metrics-exporter''"
  "om_Name (w_Meta (buildMetricsExporterService cfg cr)) = ''amd-device-metrics-exporter''"
  "om_Name (w_Meta (buildStatusUpdaterDeployment cfg cr sel)) = ''amd-status-updater''"
  "om_Name (w_Meta (buildNodeLabellerDS cfg cr sel)) = ''amd-node-labeller''"
  by (simp_all add: builder_defs new_workload_def child_meta_def split: prod.splits)

lemma builder_namespaces:
  "om_Namespace (w_Meta (buildDevicePluginDS cfg cr sel pp)) = Namespace cfg"
  "om_Namespace (w_Meta (buildMetricsExporterDS cfg cr sel)) = Namespace cfg"
  "om_Namespace (w_Meta (buildMetricsExporterService cfg cr)) = Namespace cfg"
  "om_Namespace (w_Meta (buildStatusUpdaterDeployment cfg cr sel)) = Namespace cfg"
  "om_Namespace (w_Meta (buildNodeLabellerDS cfg cr sel)) = Namespace cfg"
  by (simp_all add: builder_defs new_workload_def child_meta_def split: prod.splits)

end
