(* ===== verification/Kube_API.thy ===== *)
theory Kube_API
  imports Prelude
begin

text \<open>
  The Kubernetes API server as its clients see it. client-go, controller-runtime and the server
  are not part of the repository: every component takes the calls it makes as parameters, and the
  interfaces \<open>object_reader\<close> and \<open>object_store\<close> state the documented behaviour of those calls.
  \<open>view w k\<close> is the object stored under key \<open>k\<close> in world \<open>w\<close>. A call may fail at any time with an
  error other than the documented ones. The objects here are the fields the code reads and writes.

  The interfaces are interpreted on a reference server: a map of objects, with a predicate that
  makes chosen keys unreachable.
\<close>

datatype api_error = NotFound | AlreadyExists | OtherError string

type_synonym key = "string \<times> string" \<comment> \<open>namespace and name\<close>

locale object_reader =
  fixes view :: "'w \<Rightarrow> 'k \<Rightarrow> 'o option"
    and get :: "'k \<Rightarrow> 'w \<Rightarrow> api_error + 'o"
  assumes get_Inr: "get k w = Inr x \<Longrightarrow> view w k = Some x"
    and get_NotFound: "get k w = Inl NotFound \<Longrightarrow> view w k = None"
begin

lemma get_view_cases:
  obtains x where "get k w = Inr x" "view w k = Some x"
  | "get k w = Inl NotFound" "view w k = None"
  | e where "get k w = Inl e" "e \<noteq> NotFound"
proof (cases "get k w")
  case (Inl e)
  then show thesis using that(2,3) get_NotFound [of k w] by (cases "e = NotFound") auto
next
  case (Inr x)
  then show thesis using that(1) get_Inr [of k w x] by auto
qed

end

locale object_store = object_reader view get
  for view :: "'w \<Rightarrow> 'k \<Rightarrow> 'o option" and get :: "'k \<Rightarrow> 'w \<Rightarrow> api_error + 'o" +
  fixes create :: "'k \<Rightarrow> 'o \<Rightarrow> 'w \<Rightarrow> api_error option \<times> 'w"
    and update :: "'k \<Rightarrow> 'o \<Rightarrow> 'w \<Rightarrow> api_error option \<times> 'w"
    and delete :: "'k \<Rightarrow> 'w \<Rightarrow> api_error option \<times> 'w"
  assumes create_None: "create k x w = (None, w') \<Longrightarrow> view w k = None \<and> view w' = (view w)(k \<mapsto> x)"
    and create_AlreadyExists: "create k x w = (Some AlreadyExists, w') \<Longrightarrow> view w k \<noteq> None \<and> view w' = view w"
    and update_None: "update k x w = (None, w') \<Longrightarrow> view w k \<noteq> None \<and> view w' = (view w)(k \<mapsto> x)"
    and update_NotFound: "update k x w = (Some NotFound, w') \<Longrightarrow> view w k = None \<and> view w' = view w"
    and delete_None: "delete k w = (None, w') \<Longrightarrow> view w k \<noteq> None \<and> view w' = (view w)(k := None)"
    and delete_NotFound: "delete k w = (Some NotFound, w') \<Longrightarrow> view w k = None \<and> view w' = view w"
begin

text \<open>After a successful write the object reads back, unless the read itself fails.\<close>

lemma read_your_create:
  assumes "create k x w = (None, w')" "get k w' = Inr y" shows "y = x"
  using create_None [OF assms(1)] get_Inr [OF assms(2)] by simp

lemma read_your_update:
  assumes "update k x w = (None, w')" "get k w' = Inr y" shows "y = x"
  using update_None [OF assms(1)] get_Inr [OF assms(2)] by simp

text \<open>Deleting an object that may be absent leaves it absent.\<close>

lemma delete_gone:
  assumes "delete k w = (r, w')" "r = None \<or> r = Some NotFound"
  shows "view w' = (view w)(k := None)"
  using assms delete_None [of k w w'] delete_NotFound [of k w w'] by (auto simp: fun_eq_iff)

end

section \<open>A reference server\<close>

record ('k, 'o) server =
  objects :: "'k \<rightharpoonup> 'o"
  unreachable :: "'k \<Rightarrow> bool"

definition srv_error :: api_error where
  "srv_error = OtherError ''the server is currently unable to handle the request''"

definition srv_get :: "'k \<Rightarrow> ('k, 'o) server \<Rightarrow> api_error + 'o" where
  "srv_get k w =
     (if unreachable w k then Inl srv_error
      else case objects w k of None \<Rightarrow> Inl NotFound | Some x \<Rightarrow> Inr x)"

definition srv_create :: "'k \<Rightarrow> 'o \<Rightarrow> ('k, 'o) server \<Rightarrow> api_error option \<times> ('k, 'o) server" where
  "srv_create k x w =
     (if unreachable w k then (Some srv_error, w)
      else case objects w k of
        None \<Rightarrow> (None, w\<lparr>objects := (objects w)(k \<mapsto> x)\<rparr>)
      | Some _ \<Rightarrow> (Some AlreadyExists, w))"

definition srv_update :: "'k \<Rightarrow> 'o \<Rightarrow> ('k, 'o) server \<Rightarrow> api_error option \<times> ('k, 'o) server" where
  "srv_update k x w =
     (if unreachable w k then (Some srv_error, w)
      else case objects w k of
        None \<Rightarrow> (Some NotFound, w)
      | Some _ \<Rightarrow> (None, w\<lparr>objects := (objects w)(k \<mapsto> x)\<rparr>))"

definition srv_delete :: "'k \<Rightarrow> ('k, 'o) server \<Rightarrow> api_error option \<times> ('k, 'o) server" where
  "srv_delete k w =
     (if unreachable w k then (Some srv_error, w)
      else case objects w k of
        None \<Rightarrow> (Some NotFound, w)
      | Some _ \<Rightarrow> (None, w\<lparr>objects := (objects w)(k := None)\<rparr>))"

lemmas srv_defs = srv_get_def srv_create_def srv_update_def srv_delete_def srv_error_def

interpretation srv: object_store objects srv_get srv_create srv_update srv_delete
  by unfold_locales (auto simp: srv_defs split: if_splits option.splits)

end
