(* ===== verification/Pods.thy ===== *)
theory Pods
  imports Kube_API Complex_Main
begin

text \<open>
  Pods as the components see them: identity, node, phase, annotations and the GPU-relevant part of
  each container. The store of pods adds to the reader interface the one write the device plugin
  makes, a merge patch of a single annotation.

  A resource quantity is the number it denotes; \<open>IsZero\<close> tests it against zero and \<open>AsInt64\<close>
  succeeds on the integers that fit.
\<close>

type_synonym Quantity = rat

record PodContainer =
  c_name :: string
  c_limits :: "string \<rightharpoonup> Quantity"
  c_requests :: "string \<rightharpoonup> Quantity"

record Pod =
  p_namespace :: string
  p_name :: string
  p_node :: string
  p_phase :: string
  p_annotations :: "string \<rightharpoonup> string"
  p_containers :: "PodContainer list"

definition pod_key :: "Pod \<Rightarrow> key" where
  "pod_key p = (p_namespace p, p_name p)"

definition set_annotation :: "string \<Rightarrow> string \<Rightarrow> Pod \<Rightarrow> Pod" where
  "set_annotation a v p = p\<lparr>p_annotations := (p_annotations p)(a \<mapsto> v)\<rparr>"

lemma map_get_set_annotation [simp]:
  "map_get (p_annotations (set_annotation a v p)) b = (if a = b then v else map_get (p_annotations p) b)"
  by (simp add: set_annotation_def)

text \<open>A container asks for a GPU when its limit or its request for the resource is present and not zero.\<close>

definition hasGPURequest :: "string \<Rightarrow> PodContainer \<Rightarrow> bool" where
  "hasGPURequest resource c \<longleftrightarrow>
     (case c_limits c resource of Some q \<Rightarrow> q \<noteq> 0 | None \<Rightarrow> False) \<or>
     (case c_requests c resource of Some q \<Rightarrow> q \<noteq> 0 | None \<Rightarrow> False)"

text \<open>The name of the first such container, or the empty string.\<close>

definition firstGPUContainer :: "string \<Rightarrow> Pod \<Rightarrow> string" where
  "firstGPUContainer resource p =
     (case find (hasGPURequest resource) (p_containers p) of None \<Rightarrow> [] | Some c \<Rightarrow> c_name c)"

locale pod_store = object_reader view get
  for view :: "'w \<Rightarrow> key \<Rightarrow> Pod option" and get :: "key \<Rightarrow> 'w \<Rightarrow> api_error + Pod" +
  fixes patch :: "key \<Rightarrow> string \<Rightarrow> string \<Rightarrow> 'w \<Rightarrow> api_error option \<times> 'w"
  assumes patch_None: "patch k a v w = (None, w') \<Longrightarrow>
      \<exists>p. view w k = Some p \<and> view w' = (view w)(k \<mapsto> set_annotation a v p)"
    and patch_Some: "patch k a v w = (Some e, w') \<Longrightarrow> view w' = view w \<or>
      (\<exists>p. view w k = Some p \<and> view w' = (view w)(k \<mapsto> set_annotation a v p))"

text \<open>
  A failed patch may or may not have reached the server, which is what \<open>patch_Some\<close> says. The
  reference server's patch:
\<close>

definition srv_patch ::
  "key \<Rightarrow> string \<Rightarrow> string \<Rightarrow> (key, Pod) server \<Rightarrow> api_error option \<times> (key, Pod) server" where
  "srv_patch k a v w =
     (if unreachable w k then (Some srv_error, w)
      else case objects w k of
        None \<Rightarrow> (Some NotFound, w)
      | Some p \<Rightarrow> (None, w\<lparr>objects := (objects w)(k \<mapsto> set_annotation a v p)\<rparr>))"

interpretation pods: pod_store objects srv_get srv_patch
  by unfold_locales (auto simp: srv_patch_def split: if_splits option.splits)

end
