(* ===== verification/Go_Path.thy ===== *)
theory Go_Path
  imports Prelude
begin

text \<open>
  Go's \<open>filepath.Clean\<close> and \<open>filepath.Join\<close> on Unix. Cleaning processes the components of a path
  from left to right, keeping those that survive on a stack.
\<close>

fun clean_step :: "bool \<Rightarrow> string list \<Rightarrow> string \<Rightarrow> string list" where
  "clean_step rooted st c =
     (if c = [] \<or> c = ''.'' then st
      else if c = ''..'' then
        (case st of
           [] \<Rightarrow> if rooted then [] else [c]
         | p # rest \<Rightarrow> if p = ''..'' then c # st else rest)
      else c # st)"

definition path_rooted :: "string \<Rightarrow> bool" where
  "path_rooted p \<longleftrightarrow> (case p of [] \<Rightarrow> False | c # _ \<Rightarrow> c = CHR ''/'')"

definition path_clean :: "string \<Rightarrow> string" where
  "path_clean p =
     (let rooted = path_rooted p;
          out = join ''/'' (rev (foldl (clean_step rooted) [] (split_on (CHR ''/'') p)));
          full = (if rooted then CHR ''/'' # out else out)
      in if full = [] then ''.'' else full)"

text \<open>\<open>Join\<close> ignores empty elements; joining nothing gives the empty string.\<close>

definition path_join :: "string list \<Rightarrow> string" where
  "path_join elems =
     (let es = filter (\<lambda>e. e \<noteq> []) elems
      in if es = [] then [] else path_clean (join ''/'' es))"

lemma path_clean_ne [simp]: "path_clean p \<noteq> []"
  by (simp add: path_clean_def Let_def)

text \<open>A component that \<open>Clean\<close> keeps as it is.\<close>

definition plain_component :: "string \<Rightarrow> bool" where
  "plain_component c \<longleftrightarrow> c \<noteq> [] \<and> c \<noteq> ''.'' \<and> c \<noteq> ''..'' \<and> CHR ''/'' \<notin> set c"

lemma foldl_clean_plain:
  "\<forall>c \<in> set cs. plain_component c \<Longrightarrow> foldl (clean_step r) st cs = rev cs @ st"
  by (induction cs arbitrary: st) (auto simp: plain_component_def)

text \<open>An absolute path of plain components is already clean.\<close>

definition absolute :: "string list \<Rightarrow> string" where
  "absolute cs = CHR ''/'' # join ''/'' cs"

lemma split_on_absolute:
  assumes "cs \<noteq> []" "\<forall>c \<in> set cs. plain_component c"
  shows "split_on (CHR ''/'') (absolute cs) = [] # cs"
  using assms split_on_join [of cs "CHR ''/''"]
  by (simp add: absolute_def plain_component_def)

lemma path_clean_absolute:
  assumes "cs \<noteq> []" "\<forall>c \<in> set cs. plain_component c"
  shows "path_clean (absolute cs) = absolute cs"
  using split_on_absolute [OF assms] foldl_clean_plain [OF assms(2), of True "[]"]
  by (simp add: path_clean_def path_rooted_def absolute_def Let_def)

lemma join_snoc: "cs \<noteq> [] \<Longrightarrow> join sep (cs @ [c]) = join sep cs @ sep @ c"
  by (induction sep cs rule: join.induct) auto

lemma path_join_absolute:
  assumes "cs \<noteq> []" "\<forall>c \<in> set cs. plain_component c" "plain_component n"
  shows "path_join [absolute cs, n] = absolute (cs @ [n])"
proof -
  have n: "n \<noteq> []" using assms(3) by (simp add: plain_component_def)
  have "path_join [absolute cs, n] = path_clean (absolute (cs @ [n]))"
    using n assms(1) by (simp add: path_join_def absolute_def join_snoc)
  also have "\<dots> = absolute (cs @ [n])"
    using assms by (intro path_clean_absolute) auto
  finally show ?thesis .
qed

end
