(* ===== verification/Device_Plugin.thy ===== *)
theory Device_Plugin
  imports Pods Go_Path
begin

text \<open>
  Package \<open>deviceplugin\<close> (\<open>pkg/deviceplugin\<close>): the kubelet device-plugin server (\<open>server.go\<close>,
  \<open>registration.go\<close>) and the annotator (\<open>annotate.go\<close>) that copies the kubelet's device
  assignments onto the pods. Constants of the kubelet API package are parameters. The effects of
  the server on its host are a trace of system calls whose outcomes are inputs.
\<close>

definition DefaultResourceName :: string where "DefaultResourceName = ''amd.com/gpu''"
definition DefaultSocketDir :: string where "DefaultSocketDir = ''/var/lib/kubelet/device-plugins''"
definition PluginSocketName :: string where "PluginSocketName = ''amd-gpu.sock''"
definition KubeletSocketName :: string where "KubeletSocketName = ''kubelet.sock''"
definition AssignedGPUsAnnotation :: string where "AssignedGPUsAnnotation = ''sims.io/assigned-gpus''"
definition DefaultPodResourcesSocket :: string where
  "DefaultPodResourcesSocket = ''/var/lib/kubelet/pod-resources/kubelet.sock''"

section \<open>The server\<close>

record Device =
  dev_ID :: string
  dev_Health :: string

record Options =
  o_ResourceName :: string
  o_SocketDir :: string
  o_GPUCount :: int

record Server =
  resourceName :: string
  socketDir :: string
  gpuCount :: int
  devices :: "Device list"
  stopUpdates_closed :: bool
  grpcServer :: bool
  listener :: bool

text \<open>\<open>None\<close> is the panic of \<open>make\<close> (a pointer takes 8 bytes).\<close>

definition buildDevices :: "string \<Rightarrow> int \<Rightarrow> Device list option" where
  "buildDevices healthy n =
     (if \<not> make_ok 8 n then None
      else Some (map (\<lambda>i. \<lparr>dev_ID = ''gpu-'' @ itoa i, dev_Health = healthy\<rparr>) (go_range n)))"

definition New :: "string \<Rightarrow> Options \<Rightarrow> Server option" where
  "New healthy opts =
     (let count = (if o_GPUCount opts < 0 then 0 else o_GPUCount opts)
      in case buildDevices healthy count of
           None \<Rightarrow> None
         | Some devs \<Rightarrow> Some
             \<lparr>resourceName = (if o_ResourceName opts = [] then DefaultResourceName else o_ResourceName opts),
              socketDir = (if o_SocketDir opts = [] then DefaultSocketDir else o_SocketDir opts),
              gpuCount = count, devices = devs,
              stopUpdates_closed = False, grpcServer = False, listener = False\<rparr>)"

definition SocketPath :: "Server \<Rightarrow> string" where
  "SocketPath s = path_join [socketDir s, PluginSocketName]"

record RegisterRequest =
  r_Version :: string
  r_Endpoint :: string
  r_ResourceName :: string

datatype sys_call =
  Remove string | Listen string | Serve | Dial string | Register RegisterRequest
| GracefulStop | CloseListener

datatype remove_outcome = Removed | NotExist | RemoveFailed

datatype server_error =
  RemoveStale string | ListenFailed string | DialFailed string | RegisterFailed

text \<open>What the host answers during one \<open>Run\<close>.\<close>

record outcomes =
  on_remove :: remove_outcome
  listen_ok :: bool
  dial_ok :: bool
  register_ok :: bool

definition start :: "outcomes \<Rightarrow> Server \<Rightarrow> sys_call list \<times> server_error option \<times> Server" where
  "start os s =
     (let sock = SocketPath s in
      if on_remove os = RemoveFailed then ([Remove sock], Some (RemoveStale sock), s)
      else if \<not> listen_ok os then ([Remove sock, Listen sock], Some (ListenFailed sock), s)
      else ([Remove sock, Listen sock, Serve], None, s\<lparr>listener := True, grpcServer := True\<rparr>))"

definition register :: "string \<Rightarrow> outcomes \<Rightarrow> Server \<Rightarrow> sys_call list \<times> server_error option" where
  "register version os s =
     (let sock = path_join [socketDir s, KubeletSocketName];
          req = \<lparr>r_Version = version, r_Endpoint = PluginSocketName, r_ResourceName = resourceName s\<rparr>
      in if \<not> dial_ok os then ([Dial sock], Some (DialFailed sock))
         else ([Dial sock, Register req], if register_ok os then None else Some RegisterFailed))"

definition stop :: "Server \<Rightarrow> sys_call list \<times> Server" where
  "stop s =
     ((if grpcServer s then [GracefulStop] else []) @ (if listener s then [CloseListener] else []) @
        (if SocketPath s \<noteq> [] then [Remove (SocketPath s)] else []),
      s\<lparr>stopUpdates_closed := True, grpcServer := False, listener := False\<rparr>)"

text \<open>A run up to the cancellation of its context.\<close>

definition Run :: "string \<Rightarrow> outcomes \<Rightarrow> Server \<Rightarrow> sys_call list \<times> server_error option \<times> Server" where
  "Run version os s =
     (case start os s of
        (calls, Some e, s') \<Rightarrow> (calls, Some e, s')
      | (calls, None, s') \<Rightarrow>
          let (rcalls, err) = register version os s'; (scalls, s'') = stop s'
          in (calls @ rcalls @ scalls, err, s''))"

text \<open>
  \<open>ListAndWatch\<close>: the first send, then one reaction per choice of the \<open>select\<close>. A send carries its
  error, if any. The result is the list of messages sent and whether the call has returned.
\<close>

datatype select_event = CtxDone | StopUpdates | Tick "string option"
datatype watch_status = Blocked | Returned "string option"

fun watch_loop :: "Device list \<Rightarrow> select_event list \<Rightarrow> Device list list \<times> watch_status" where
  "watch_loop devs [] = ([], Blocked)"
| "watch_loop devs (CtxDone # _) = ([], Returned None)"
| "watch_loop devs (StopUpdates # _) = ([], Returned None)"
| "watch_loop devs (Tick (Some e) # _) = ([devs], Returned (Some e))"
| "watch_loop devs (Tick None # es) = apfst ((#) devs) (watch_loop devs es)"

definition ListAndWatch :: "Server \<Rightarrow> string option \<Rightarrow> select_event list \<Rightarrow> Device list list \<times> watch_status" where
  "ListAndWatch s first_send es =
     (case first_send of
        Some e \<Rightarrow> ([devices s], Returned (Some e))
      | None \<Rightarrow> apfst ((#) (devices s)) (watch_loop (devices s) es))"

text \<open>\<open>Allocate\<close>: one empty response per container request.\<close>

record ContainerAllocateResponse =
  ar_envs :: "(string \<times> string) list"
  ar_mounts :: "string list"
  ar_devices :: "string list"

definition empty_response :: ContainerAllocateResponse where
  "empty_response = \<lparr>ar_envs = [], ar_mounts = [], ar_devices = []\<rparr>"

definition Allocate :: "string list list \<Rightarrow> ContainerAllocateResponse list" where
  "Allocate reqs = map (\<lambda>_. empty_response) reqs"

section \<open>The annotator\<close>

record ContainerDevices =
  cd_ResourceName :: string
  cd_DeviceIds :: "string list"

record PodResources =
  pr_Namespace :: string
  pr_Name :: string
  pr_Containers :: "ContainerDevices list list"

definition collectDevicesForResource :: "PodResources \<Rightarrow> string \<Rightarrow> string list" where
  "collectDevicesForResource pod resource =
     sort (remdups (concat (map (\<lambda>c. concat (map cd_DeviceIds
       (filter (\<lambda>d. cd_ResourceName d = resource) c))) (pr_Containers pod))))"

datatype annotate_error = GetPod api_error | PatchPod api_error

definition annotatePod ::
  "(key \<Rightarrow> 'w \<Rightarrow> api_error + Pod) \<Rightarrow> (key \<Rightarrow> string \<Rightarrow> string \<Rightarrow> 'w \<Rightarrow> api_error option \<times> 'w) \<Rightarrow>
   key \<Rightarrow> string \<Rightarrow> 'w \<Rightarrow> annotate_error option \<times> 'w" where
  "annotatePod get patch k value w =
     (case get k w of
        Inl e \<Rightarrow> (Some (GetPod e), w)
      | Inr pod \<Rightarrow>
          if map_get (p_annotations pod) AssignedGPUsAnnotation = value then (None, w)
          else apfst (map_option PatchPod) (patch k AssignedGPUsAnnotation value w))"

text \<open>
  The loop of \<open>reconcile\<close> over the listed pods. It goes on after an error; the result lists the
  outcome for every pod that holds devices.
\<close>

fun annotate_all ::
  "(key \<Rightarrow> 'w \<Rightarrow> api_error + Pod) \<Rightarrow> (key \<Rightarrow> string \<Rightarrow> string \<Rightarrow> 'w \<Rightarrow> api_error option \<times> 'w) \<Rightarrow>
   string \<Rightarrow> PodResources list \<Rightarrow> 'w \<Rightarrow> (key \<times> string \<times> annotate_error option) list \<times> 'w" where
  "annotate_all get patch resource [] w = ([], w)"
| "annotate_all get patch resource (pod # pods) w =
     (let devs = collectDevicesForResource pod resource in
      if devs = [] then annotate_all get patch resource pods w
      else let k = (pr_Namespace pod, pr_Name pod); want = join '','' devs;
               (err, w1) = annotatePod get patch k want w;
               (rest, w2) = annotate_all get patch resource pods w1
           in ((k, want, err) # rest, w2))"

definition annotator_reconcile ::
  "('w \<Rightarrow> api_error + PodResources list) \<Rightarrow> (key \<Rightarrow> 'w \<Rightarrow> api_error + Pod) \<Rightarrow>
   (key \<Rightarrow> string \<Rightarrow> string \<Rightarrow> 'w \<Rightarrow> api_error option \<times> 'w) \<Rightarrow> string \<Rightarrow> 'w \<Rightarrow>
   (key \<times> string \<times> annotate_error option) list \<times> 'w" where
  "annotator_reconcile list_pods get patch resource w =
     (case list_pods w of
        Inl _ \<Rightarrow> ([], w)
      | Inr pods \<Rightarrow> annotate_all get patch resource pods w)"

section \<open>Server lemmas\<close>

lemma buildDevices_ids:
  "buildDevices healthy n = Some ds \<Longrightarrow> map dev_ID ds = map (\<lambda>i. ''gpu-'' @ itoa i) (go_range n)"
  by (auto simp: buildDevices_def comp_def split: if_splits)

lemma New_devices:
  "New healthy opts = Some s \<Longrightarrow>
   buildDevices healthy (max 0 (o_GPUCount opts)) = Some (devices s) \<and> gpuCount s = max 0 (o_GPUCount opts)"
  by (auto simp: New_def Let_def max_def split: option.splits)

lemma SocketPath_ne [simp]: "SocketPath s \<noteq> []"
  by (auto simp: SocketPath_def path_join_def PluginSocketName_def Let_def)

lemma SocketPath_upd [simp]:
  "SocketPath (s\<lparr>listener := l, grpcServer := g\<rparr>) = SocketPath s"
  by (simp add: SocketPath_def)

lemma watch_loop_all_devices: "m \<in> set (fst (watch_loop devs es)) \<Longrightarrow> m = devs"
  by (induction devs es rule: watch_loop.induct) (auto simp: apfst_def map_prod_def split: prod.splits)

lemma watch_loop_returned:
  "snd (watch_loop devs es) = Blocked \<longleftrightarrow> (\<forall>e \<in> set es. e = Tick None)"
  by (induction devs es rule: watch_loop.induct) auto

lemma watch_loop_sends: "length (fst (watch_loop devs es)) \<le> length es"
  by (induction devs es rule: watch_loop.induct) auto

section \<open>Annotator lemmas\<close>

lemma collect_sorted: "sorted (collectDevicesForResource pod r)"
  by (simp add: collectDevicesForResource_def)

lemma collect_distinct: "distinct (collectDevicesForResource pod r)"
  by (simp add: collectDevicesForResource_def)

lemma collect_set:
  "set (collectDevicesForResource pod r) =
   {i. \<exists>c \<in> set (pr_Containers pod). \<exists>d \<in> set c. cd_ResourceName d = r \<and> i \<in> set (cd_DeviceIds d)}"
  by (auto simp: collectDevicesForResource_def)

context pod_store
begin

lemma annotatePod_None:
  assumes "annotatePod get patch k v w = (None, w')"
  obtains p where "view w k = Some p" "view w' = (view w)(k \<mapsto> p)"
    "map_get (p_annotations p) AssignedGPUsAnnotation = v"
  | p where "view w k = Some p" "view w' = (view w)(k \<mapsto> set_annotation AssignedGPUsAnnotation v p)"
proof (cases "get k w")
  case (Inl e)
  with assms show thesis by (simp add: annotatePod_def)
next
  case (Inr p)
  then have v: "view w k = Some p" by (rule get_Inr)
  show thesis
  proof (cases "map_get (p_annotations p) AssignedGPUsAnnotation = v")
    case True
    with assms Inr have "w' = w" by (simp add: annotatePod_def)
    moreover have "(view w)(k \<mapsto> p) = view w" using v by (rule fun_upd_idem)
    ultimately show thesis using v True by (intro that(1) [of p]) simp_all
  next
    case False
    with assms Inr have "patch k AssignedGPUsAnnotation v w = (None, w')"
      by (auto simp: annotatePod_def apfst_def map_prod_def split: prod.splits)
    then show thesis using that(2) patch_None by blast
  qed
qed

text \<open>Whatever the outcome, only the pod's own annotation can change.\<close>

lemma annotatePod_frame:
  assumes "annotatePod get patch k v w = (e, w')" "k' \<noteq> k"
  shows "view w' k' = view w k'"
proof (cases "get k w")
  case (Inl e)
  with assms show ?thesis by (simp add: annotatePod_def)
next
  case (Inr p)
  show ?thesis
  proof (cases "map_get (p_annotations p) AssignedGPUsAnnotation = v")
    case True
    with assms Inr show ?thesis by (simp add: annotatePod_def)
  next
    case False
    obtain e' where "patch k AssignedGPUsAnnotation v w = (e', w')"
      using assms Inr False by (auto simp: annotatePod_def apfst_def map_prod_def split: prod.splits)
    then show ?thesis
      using patch_None [of k _ v w w'] patch_Some [of k _ v w _ w'] assms(2)
      by (cases e') (fastforce simp: fun_upd_def)+
  qed
qed

lemma annotate_all_frame:
  "annotate_all get patch r pods w = (res, w') \<Longrightarrow>
   k \<notin> (\<lambda>p. (pr_Namespace p, pr_Name p)) ` set pods \<Longrightarrow> view w' k = view w k"
  by (induction pods arbitrary: res w)
    (auto simp: Let_def split: if_splits prod.splits dest: annotatePod_frame)

text \<open>Every pod whose own call succeeded ends up with the annotation it was given.\<close>

lemma annotate_all_annotated:
  assumes "annotate_all get patch r pods w = (res, w')"
    and "distinct (map (\<lambda>p. (pr_Namespace p, pr_Name p)) pods)"
    and "(k, v, None) \<in> set res"
  shows "\<exists>p. view w' k = Some p \<and> map_get (p_annotations p) AssignedGPUsAnnotation = v"
  using assms
proof (induction pods arbitrary: res w)
  case Nil
  then show ?case by simp
next
  case (Cons pod pods)
  let ?devs = "collectDevicesForResource pod r" and ?k = "(pr_Namespace pod, pr_Name pod)"
  show ?case
  proof (cases "?devs = []")
    case True
    with Cons show ?thesis by simp
  next
    case False
    obtain err w1 where a: "annotatePod get patch ?k (join '','' ?devs) w = (err, w1)"
      by (meson surj_pair)
    obtain rest where rest: "annotate_all get patch r pods w1 = (rest, w')"
      and res: "res = (?k, join '','' ?devs, err) # rest"
      using Cons.prems(1) False a by (auto simp: Let_def split: prod.splits)
    show ?thesis
    proof (cases "(k, v, None) \<in> set rest")
      case True
      with Cons.IH [OF rest] Cons.prems(2) show ?thesis by simp
    next
      case False
      with Cons.prems(3) res have k: "k = ?k" "v = join '','' ?devs" "err = None" by auto
      have "view w' ?k = view w1 ?k"
        using Cons.prems(2) by (intro annotate_all_frame [OF rest]) (auto simp: image_iff)
      with a k show ?thesis by (auto elim!: annotatePod_None)
    qed
  qed
qed

end

section \<open>Properties\<close>

definition demo_server :: Server where
  "demo_server = the (New ''Healthy'' \<lparr>o_ResourceName = [], o_SocketDir = [], o_GPUCount = 2\<rparr>)"

text \<open>
  The life of a device-plugin server. A run that gets as far as serving tears everything down
  again, in order: the gRPC server stops, the listener closes and the socket file goes, also when the
  registration failed, and the server ends with neither. A run that does not get there never talks to
  the kubelet and reports an error. A run without error has registered its own endpoint and resource.
\<close>

lemma server_run_protocol:
  assumes "Run version os s = (calls, err, s')"
  shows "(Serve \<in> set calls \<longrightarrow> (\<exists>mid. calls = [Remove (SocketPath s), Listen (SocketPath s), Serve] @ mid @
        [GracefulStop, CloseListener, Remove (SocketPath s)]) \<and>
        \<not> listener s' \<and> \<not> grpcServer s' \<and> stopUpdates_closed s') \<and>
    (Serve \<notin> set calls \<longrightarrow> err \<noteq> None \<and> s' = s \<and> (\<forall>p r. Dial p \<notin> set calls \<and> Register r \<notin> set calls)) \<and>
    (err = None \<longrightarrow> Register \<lparr>r_Version = version, r_Endpoint = PluginSocketName,
        r_ResourceName = resourceName s\<rparr> \<in> set calls)"
  using assms
  by (cases "on_remove os = RemoveFailed"; cases "listen_ok os"; cases "dial_ok os"; cases "register_ok os")
     (auto simp: Run_def start_def register_def stop_def Let_def)

lemma server_run_protocol_witness:
  "\<exists>calls s'. Run ''v1beta1'' \<lparr>on_remove = NotExist, listen_ok = True, dial_ok = True, register_ok = False\<rparr>
       demo_server = (calls, Some RegisterFailed, s') \<and> \<not> listener s' \<and>
     (\<exists>pre. calls = pre @ [GracefulStop, CloseListener, Remove (SocketPath demo_server)])"
proof -
  let ?os = "\<lparr>on_remove = NotExist, listen_ok = True, dial_ok = True, register_ok = False\<rparr>"
  obtain calls err s' where run: "Run ''v1beta1'' ?os demo_server = (calls, err, s')"
    by (meson prod_cases3)
  then have "Serve \<in> set calls" "err = Some RegisterFailed"
    by (auto simp: Run_def start_def register_def stop_def Let_def)
  with server_run_protocol [OF run] run show ?thesis by (metis append.assoc)
qed

text \<open>
  Every message on the \<open>ListAndWatch\<close> stream is the full device list, and the call blocks exactly as
  long as every send succeeds and neither the context nor the server stops.
\<close>

lemma list_and_watch_stream:
  "(\<forall>m \<in> set (fst (ListAndWatch s first es)). m = devices s) \<and>
   (snd (ListAndWatch s first es) = Blocked \<longleftrightarrow> first = None \<and> (\<forall>e \<in> set es. e = Tick None))"
  by (cases first) (auto simp: ListAndWatch_def watch_loop_returned dest: watch_loop_all_devices)

lemma list_and_watch_stream_witness:
  "fst (ListAndWatch demo_server None [Tick None, StopUpdates]) ! 1 = devices demo_server"
proof -
  have "length (fst (ListAndWatch demo_server None [Tick None, StopUpdates])) = 2"
    by (simp add: ListAndWatch_def)
  then have "fst (ListAndWatch demo_server None [Tick None, StopUpdates]) ! 1 \<in>
      set (fst (ListAndWatch demo_server None [Tick None, StopUpdates]))"
    by (intro nth_mem) simp
  with list_and_watch_stream [of demo_server None "[Tick None, StopUpdates]"] show ?thesis by blast
qed

text \<open>
  The devices of a pod: the collected identifiers are exactly those the kubelet lists for the
  resource in any of the pod's containers, sorted and without duplicates.
\<close>

lemma collected_devices_exact:
  "sorted (collectDevicesForResource pod r) \<and> distinct (collectDevicesForResource pod r) \<and>
   set (collectDevicesForResource pod r) =
     {i. \<exists>c \<in> set (pr_Containers pod). \<exists>d \<in> set c. cd_ResourceName d = r \<and> i \<in> set (cd_DeviceIds d)}"
  using collect_sorted collect_distinct collect_set by blast

lemma collected_devices_exact_witness:
  "set (collectDevicesForResource \<lparr>pr_Namespace = ''ns'', pr_Name = ''p'', pr_Containers =
       [[\<lparr>cd_ResourceName = ''amd.com/gpu'', cd_DeviceIds = [''gpu-1'']\<rparr>,
         \<lparr>cd_ResourceName = ''nvidia.com/gpu'', cd_DeviceIds = [''gpu-7'']\<rparr>]]\<rparr> ''amd.com/gpu'') = {''gpu-1''}"
  using collected_devices_exact by simp

text \<open>A node with one pod that holds two GPUs, and the server that stores the pod.\<close>

definition demo_resources :: PodResources where
  "demo_resources = \<lparr>pr_Namespace = ''default'', pr_Name = ''train'', pr_Containers =
     [[\<lparr>cd_ResourceName = ''amd.com/gpu'', cd_DeviceIds = [''gpu-1'', ''gpu-0'']\<rparr>]]\<rparr>"

definition demo_pod :: Pod where
  "demo_pod = \<lparr>p_namespace = ''default'', p_name = ''train'', p_node = ''node-1'', p_phase = ''Running'',
     p_annotations = Map.empty,
     p_containers = [\<lparr>c_name = ''main'', c_limits = [''amd.com/gpu'' \<mapsto> 2], c_requests = Map.empty\<rparr>]\<rparr>"

definition demo_pods :: "(key, Pod) server" where
  "demo_pods = \<lparr>objects = [(''default'', ''train'') \<mapsto> demo_pod, (''default'', ''other'') \<mapsto> demo_pod],
     unreachable = (\<lambda>_. False)\<rparr>"

lemma demo_annotate:
  "\<exists>w'. annotator_reconcile (\<lambda>_. Inr [demo_resources]) srv_get srv_patch ''amd.com/gpu'' demo_pods =
     ([((''default'', ''train''), ''gpu-0,gpu-1'', None)], w')"
proof -
  have "collectDevicesForResource demo_resources ''amd.com/gpu'' = [''gpu-0'', ''gpu-1'']" by code_simp
  then show ?thesis
    by (simp add: annotator_reconcile_def Let_def demo_resources_def annotatePod_def srv_get_def
        srv_patch_def demo_pods_def demo_pod_def map_get_def)
qed



end
