(* ===== verification/Annotations.thy ===== *)
theory Annotations
  imports Go_Parse_Float
begin

text \<open>
  Package \<open>annotations\<close> (\<open>pkg/annotations/parse.go\<close>): the utilisation range a pod may declare in
  its annotation, and the draw of a value from such a range.
\<close>

definition UtilizationAnnotation :: string where
  "UtilizationAnnotation = ''sims.io/simulated-gpu-utilization''"

definition DefaultUtilizationRange :: string where
  "DefaultUtilizationRange = ''5-15''"

record Range =
  Low :: f64
  High :: f64

definition zero_range :: Range where
  "zero_range = \<lparr>Low = Fin 0, High = Fin 0\<rparr>"

text \<open>One constructor per error return of \<open>ParseUtilizationWithDefault\<close>, in its order.\<close>

datatype range_error =
  NotLowHigh string
| BadLow num_error
| BadHigh num_error
| OutOfBounds f64 f64

definition ParseUtilizationWithDefault :: "string \<Rightarrow> string \<Rightarrow> range_error + Range" where
  "ParseUtilizationWithDefault s fallback =
     (let s = (if s = [] then fallback else s);
          parts = split_n2 (CHR ''-'') s
      in case parts of
           [a, b] \<Rightarrow>
             (case parse_float (trim_space a) of
                Inl e \<Rightarrow> Inl (BadLow e)
              | Inr low \<Rightarrow>
                  (case parse_float (trim_space b) of
                     Inl e \<Rightarrow> Inl (BadHigh e)
                   | Inr high \<Rightarrow>
                       if f_lt low (Fin 0) \<or> f_lt (Fin 100) high \<or> f_lt high low
                       then Inl (OutOfBounds low high)
                       else Inr \<lparr>Low = low, High = high\<rparr>))
         | _ \<Rightarrow> Inl (NotLowHigh s))"

definition ParseUtilization :: "string \<Rightarrow> range_error + Range" where
  "ParseUtilization s = ParseUtilizationWithDefault s DefaultUtilizationRange"

text \<open>\<open>Range.Sample\<close>: the generator is advanced only when the two bounds differ.\<close>

definition Range_Sample :: "Range \<Rightarrow> rng \<Rightarrow> f64 \<times> rng" where
  "Range_Sample r g =
     (if f_eq (High r) (Low r) then (Low r, g)
      else let (f, g') = rng_float64 g in (f_add (Low r) (f_mul f (f_sub (High r) (Low r))), g'))"

section \<open>What a parsed range satisfies\<close>

text \<open>A proper range: two finite \<open>float64\<close> percentages in order.\<close>

definition range_ok :: "Range \<Rightarrow> bool" where
  "range_ok r \<longleftrightarrow>
     (\<exists>l h. r = \<lparr>Low = Fin l, High = Fin h\<rparr> \<and> rep64 l \<and> rep64 h \<and> 0 \<le> l \<and> l \<le> h \<and> h \<le> 100)"

text \<open>A range with a bound that is not a number; nothing else gets past the three comparisons.\<close>

definition range_nan :: "Range \<Rightarrow> bool" where
  "range_nan r \<longleftrightarrow> Low r = NaN \<or> High r = NaN"

lemma bounds_pass:
  assumes "\<not> f_lt low (Fin 0)" "\<not> f_lt (Fin 100) high" "\<not> f_lt high low" "f64_ok low" "f64_ok high"
  shows "range_ok \<lparr>Low = low, High = high\<rparr> \<or> range_nan \<lparr>Low = low, High = high\<rparr>"
  using assms by (cases low; cases high) (auto simp: range_ok_def range_nan_def f64_ok_def)

lemma parse_range_classified:
  assumes "ParseUtilizationWithDefault s d = Inr r"
  shows "range_ok r \<or> range_nan r"
proof -
  from assms obtain a b low high where
    "parse_float (trim_space a) = Inr low" "parse_float (trim_space b) = Inr high"
    and pass: "\<not> f_lt low (Fin 0)" "\<not> f_lt (Fin 100) high" "\<not> f_lt high low"
    and r: "r = \<lparr>Low = low, High = high\<rparr>"
    by (auto simp: ParseUtilizationWithDefault_def Let_def split: list.splits sum.splits if_splits)
  then have "f64_ok low" "f64_ok high" by (auto dest: parse_float_ok)
  with pass show ?thesis unfolding r by (rule bounds_pass)
qed

lemma range_ok_not_nan: "range_ok r \<Longrightarrow> \<not> range_nan r"
  by (auto simp: range_ok_def range_nan_def)

lemma range_okE:
  assumes "range_ok r"
  obtains l h where "r = \<lparr>Low = Fin l, High = Fin h\<rparr>" "rep64 l" "rep64 h" "0 \<le> l" "l \<le> h" "h \<le> 100"
  using assms by (auto simp: range_ok_def)

section \<open>Round trip from integer bounds\<close>

lemma itoa_nonneg: "0 \<le> n \<Longrightarrow> itoa n = nat_digits (nat n)"
  by (simp add: itoa_def)

lemma visible_nat_digits: "\<forall>c \<in> set (nat_digits n). visible c"
  using nat_digits_digits visible_digit by blast

lemma atoi_visible: "atoi s = Inr n \<Longrightarrow> \<forall>c \<in> set s. visible c"
proof (erule atoi_Inr)
  fix neg ds assume "split_sign s = (neg, ds)" "list_all is_digit ds"
  moreover have "visible (CHR ''-'')" "visible (CHR ''+'')" by (simp_all add: visible_def)
  ultimately show "\<forall>c \<in> set s. visible c"
    by (auto simp: split_sign_def list_all_iff visible_digit split: list.splits if_splits)
qed

text \<open>Two strings that \<open>Atoi\<close> reads as ordered percentages make a range with those bounds.\<close>

lemma parse_range_atoi:
  assumes "atoi a = Inr lo" "atoi b = Inr hi" "0 \<le> lo" "lo \<le> hi" "hi \<le> 100"
    and "CHR ''-'' \<notin> set a"
  shows "ParseUtilizationWithDefault (a @ CHR ''-'' # b) d =
    Inr \<lparr>Low = Fin (of_int lo), High = Fin (of_int hi)\<rparr>"
proof -
  have "parse_float (trim_space a) = Inr (Fin (of_int lo))"
    using assms by (simp add: parse_float_atoi atoi_visible)
  moreover have "parse_float (trim_space b) = Inr (Fin (of_int hi))"
    using assms by (simp add: parse_float_atoi atoi_visible)
  ultimately show ?thesis
    using assms by (simp add: ParseUtilizationWithDefault_def split_n2_append)
qed

lemma range_ok_of_int:
  "0 \<le> lo \<Longrightarrow> lo \<le> hi \<Longrightarrow> hi \<le> 100 \<Longrightarrow>
   range_ok \<lparr>Low = Fin (of_int lo), High = Fin (of_int hi)\<rparr>"
  by (simp add: range_ok_def)

section \<open>Sampling\<close>

lemma Sample_degenerate:
  assumes "range_ok r" "High r = Low r"
  shows "Range_Sample r g = (Low r, g)"
  using assms by (auto elim!: range_okE simp: Range_Sample_def f_eq_def)

text \<open>Interpolation in a proper range never overflows, so it is the rounded rational formula.\<close>

lemma moderate_le: "- (2 ^ 100) \<le> a \<Longrightarrow> a \<le> x \<Longrightarrow> x \<le> b \<Longrightarrow> b \<le> 2 ^ 100 \<Longrightarrow> moderate x"
  by (simp add: moderate_def)

lemma lerp_f64:
  assumes "rep64 l" "rep64 h" "0 \<le> l" "l \<le> h" "h \<le> 100" "0 \<le> f" "f \<le> 1"
  shows "f_add (Fin l) (f_mul (Fin f) (f_sub (Fin h) (Fin l))) =
    Fin (rnd64 (l + rnd64 (f * rnd64 (h - l))))"
proof -
  have w: "0 \<le> rnd64 (h - l)" "rnd64 (h - l) \<le> 100"
    using assms by (auto intro: b64.rnd_ge b64.rnd_le)
  have m: "moderate (h - l)" by (rule moderate_le [of 0 _ 100]) (use assms in auto)
  have fw: "0 \<le> f * rnd64 (h - l)" "f * rnd64 (h - l) \<le> 100"
    using w assms mult_mono [of f 1 "rnd64 (h - l)" 100] by simp_all
  have p: "0 \<le> rnd64 (f * rnd64 (h - l))" "rnd64 (f * rnd64 (h - l)) \<le> 100"
    using fw by (auto intro: b64.rnd_ge b64.rnd_le)
  have m2: "moderate (f * rnd64 (h - l))" by (rule moderate_le [of 0 _ 100]) (use fw in auto)
  have m3: "moderate (l + rnd64 (f * rnd64 (h - l)))"
    by (rule moderate_le [of 0 _ 200]) (use p assms in auto)
  from m m2 m3 show ?thesis by (simp add: f_sub_def)
qed

text \<open>
  The rounding of \<open>100 - low\<close> can be off by half a unit, but 100 has an even significand, so the
  sum rounds back to 100.
\<close>

lemma lerp_cap_100:
  assumes "0 \<le> l" "l \<le> 100"
  shows "rnd64 (l + rnd64 (rnd64 (100 - l))) \<le> 100"
proof -
  have "(2::rat) powi (7 - 54) = 1 / 2 ^ 47" by code_simp
  moreover have "\<bar>rnd64 (100 - l) - (100 - l)\<bar> \<le> 2 powi (7 - 54)"
    using assms by (intro rnd64_error) simp_all
  ultimately have "\<bar>rnd64 (100 - l) - (100 - l)\<bar> \<le> 1 / 2 ^ 47" by (simp only:)
  then have "l + rnd64 (100 - l) \<le> 100 + 1 / 2 ^ 47" by linarith
  then have "rnd64 (l + rnd64 (100 - l)) \<le> rnd64 (100 + 1 / 2 ^ 47)" by (rule rnd64_mono)
  also have "rnd64 (100 + 1 / 2 ^ 47) = 100" by code_simp
  finally show ?thesis by (simp add: rnd64_rep64 rep64_rnd64)
qed

lemma Sample_proper:
  assumes "range_ok r" "rng_ok g"
  obtains u g' where "Range_Sample r g = (Fin u, g')" "rng_ok g'" "Low r = Fin l \<Longrightarrow> l \<le> u"
    "0 \<le> u" "u \<le> 100"
proof -
  obtain l h where r: "r = \<lparr>Low = Fin l, High = Fin h\<rparr>" and lh: "rep64 l" "rep64 h" "0 \<le> l" "l \<le> h" "h \<le> 100"
    using assms(1) by (rule range_okE)
  show thesis
  proof (cases "h = l")
    case True
    show thesis by (rule that [of l g]) (use True r lh assms in \<open>auto simp: Range_Sample_def f_eq_def\<close>)
  next
    case False
    define f where "f = g 0"
    have f: "0 \<le> f" "f \<le> 1" using rng_okD [OF assms(2), of 0] by (simp_all add: f_def)
    let ?u = "rnd64 (l + rnd64 (f * rnd64 (h - l)))"
    have "Range_Sample r g = (Fin ?u, \<lambda>i. g (Suc i))"
      using False lerp_f64 [OF lh f] by (simp add: Range_Sample_def r f_eq_def rng_float64_def f_def)
    moreover have "l \<le> ?u" using lh f by (intro b64.lerp_ge) simp_all
    moreover have "?u \<le> 100"
      using b64.lerp_le_cap [of l h 100 f] lerp_cap_100 [of l] lh f by simp
    ultimately show thesis
      by (intro that [of ?u "\<lambda>i. g (Suc i)"]) (use assms r lh in auto)
  qed
qed

section \<open>Properties\<close>

lemma demo_range: "ParseUtilizationWithDefault ''40-60'' ''5-15'' = Inr \<lparr>Low = Fin 40, High = Fin 60\<rparr>"
  using parse_range_atoi [of "''40''" 40 "''60''" 60]
  by (simp add: atoi_def split_sign_def digits_val_def digit_val_def is_digit_def in_i64_def)

text \<open>
  Every range the parser accepts is a proper one, two \<open>float64\<close> percentages in order, unless a
  bound is not a number: infinities, negative and inverted bounds never get through.
\<close>

lemma accepted_range_proper_or_nan:
  assumes "ParseUtilizationWithDefault s fallback = Inr r"
  shows "range_ok r \<or> range_nan r"
  by (rule parse_range_classified [OF assms])

lemma accepted_range_proper_or_nan_witness:
  "range_ok \<lparr>Low = Fin 40, High = Fin 60\<rparr> \<or> range_nan \<lparr>Low = Fin 40, High = Fin 60\<rparr>"
  by (rule accepted_range_proper_or_nan [OF demo_range])

text \<open>
  The comparisons of the bounds check are false on NaN, so \<open>nan-50\<close> is accepted as a range.
\<close>

lemma nan_bound_accepted:
  "ParseUtilization ''nan-50'' = Inr \<lparr>Low = NaN, High = Fin 50\<rparr>"
proof -
  have "trim_space ''nan'' = ''nan''" "trim_space ''50'' = ''50''"
    by (rule trim_space_visible; simp add: visible_def)+
  moreover have "parse_float ''nan'' = Inr NaN"
    by (simp add: parse_float_def special_def lower_def split_sign_def)
  moreover have "parse_float ''50'' = Inr (Fin (of_int 50))"
    by (rule parse_float_atoi)
       (simp_all add: atoi_def split_sign_def digits_val_def digit_val_def is_digit_def in_i64_def)
  moreover have "split_n2 (CHR ''-'') ''nan-50'' = [''nan'', ''50'']"
    using split_n2_append [of "CHR ''-''" "''nan''" "''50''"] by simp
  ultimately show ?thesis by (simp add: ParseUtilization_def ParseUtilizationWithDefault_def)
qed



text \<open>
  Round trip: the decimal rendering of two ordered integer percentages, joined by a dash, parses
  to exactly these bounds.
\<close>

lemma integer_range_round_trip:
  assumes "0 \<le> lo" "lo \<le> hi" "hi \<le> 100"
  shows "ParseUtilizationWithDefault (itoa lo @ ''-'' @ itoa hi) fallback =
    Inr \<lparr>Low = Fin (of_int lo), High = Fin (of_int hi)\<rparr>"
proof -
  have r: "in_i64 lo" "in_i64 hi" using assms by (simp_all add: in_i64_def)
  have "CHR ''-'' \<notin> set (itoa lo)"
    using assms(1) nat_digits_not_minus [OF not_digit_minus(1)] by (simp add: itoa_nonneg)
  with parse_range_atoi [OF atoi_itoa atoi_itoa, of lo hi fallback] r assms show ?thesis by simp
qed

lemma integer_range_round_trip_witness:
  "ParseUtilizationWithDefault (itoa 0 @ ''-'' @ itoa 100) [] = Inr \<lparr>Low = Fin 0, High = Fin 100\<rparr>"
  using integer_range_round_trip [of 0 100 "[]"] by simp

end
