(* ===== verification/Topology.thy ===== *)
theory Topology
  imports Kube_API
begin

text \<open>
  Package \<open>topology\<close> (\<open>pkg/topology/configmap.go\<close>): the ConfigMap that maps the GPUs of each node
  to the pods that hold them, written by the status-updater and read by the metrics-exporter. The
  YAML library is a pair of parameters \<open>marshal\<close> and \<open>unmarshal\<close>. A Go map that may be nil is an
  option of a map, \<open>None\<close> for nil.
\<close>

definition ConfigMapName :: string where "ConfigMapName = ''topology''"
definition DataKey :: string where "DataKey = ''topology.yaml''"

record Assignment =
  GPUID :: string
  PodNamespace :: string
  PodName :: string
  Container :: string

record Topology =
  Nodes :: "(string \<rightharpoonup> Assignment list) option"

record ConfigMap =
  cm_name :: string
  cm_namespace :: string
  cm_labels :: "string \<rightharpoonup> string"
  cm_data :: "(string \<rightharpoonup> string) option"

definition Empty :: Topology where
  "Empty = \<lparr>Nodes = Some Map.empty\<rparr>"

text \<open>Reading \<open>t.Nodes[node]\<close>: a nil map and a missing key both give the empty slice.\<close>

definition nodes_of :: "Topology \<Rightarrow> string \<Rightarrow> Assignment list" where
  "nodes_of t node =
     (case Nodes t of None \<Rightarrow> [] | Some m \<Rightarrow> (case m node of None \<Rightarrow> [] | Some xs \<Rightarrow> xs))"

text \<open>The guard \<open>if t.Nodes == nil { t.Nodes = map[string][]Assignment{} }\<close>.\<close>

definition ensure_nodes :: "Topology \<Rightarrow> Topology" where
  "ensure_nodes t = (case Nodes t of None \<Rightarrow> t\<lparr>Nodes := Some Map.empty\<rparr> | Some _ \<Rightarrow> t)"

datatype 'y topology_error =
  TopologyNil | GetCM api_error | CreateCM api_error | UpdateCM api_error | Marshal 'y | Unmarshal 'y

definition Load ::
  "(key \<Rightarrow> 'w \<Rightarrow> api_error + ConfigMap) \<Rightarrow> (string \<Rightarrow> 'y + Topology) \<Rightarrow> string \<Rightarrow> 'w \<Rightarrow>
   'y topology_error + Topology" where
  "Load get unmarshal namespace w =
     (case get (namespace, ConfigMapName) w of
        Inl e \<Rightarrow> if e = NotFound then Inr Empty else Inl (GetCM e)
      | Inr cm \<Rightarrow>
          (case Option.bind (cm_data cm) (\<lambda>d. d DataKey) of
             None \<Rightarrow> Inr Empty
           | Some body \<Rightarrow>
               if body = [] then Inr Empty
               else case unmarshal body of
                 Inl e \<Rightarrow> Inl (Unmarshal e)
               | Inr t \<Rightarrow> Inr (ensure_nodes t)))"

definition new_configmap :: "string \<Rightarrow> string \<Rightarrow> ConfigMap" where
  "new_configmap namespace body =
     \<lparr>cm_name = ConfigMapName, cm_namespace = namespace,
      cm_labels = [''app.kubernetes.io/part-of'' \<mapsto> ''sims'',
                   ''app.kubernetes.io/managed-by'' \<mapsto> ''fake-rocm-gpu-operator''],
      cm_data = Some [DataKey \<mapsto> body]\<rparr>"

text \<open>The topology argument is a pointer, \<open>None\<close> for nil.\<close>

definition Save ::
  "(key \<Rightarrow> 'w \<Rightarrow> api_error + ConfigMap) \<Rightarrow>
   (key \<Rightarrow> ConfigMap \<Rightarrow> 'w \<Rightarrow> api_error option \<times> 'w) \<Rightarrow>
   (key \<Rightarrow> ConfigMap \<Rightarrow> 'w \<Rightarrow> api_error option \<times> 'w) \<Rightarrow>
   (Topology \<Rightarrow> 'y + string) \<Rightarrow> string \<Rightarrow> Topology option \<Rightarrow> 'w \<Rightarrow>
   'y topology_error option \<times> 'w" where
  "Save get create update marshal namespace topo w =
     (case topo of
        None \<Rightarrow> (Some TopologyNil, w)
      | Some t \<Rightarrow>
          (case marshal (ensure_nodes t) of
             Inl e \<Rightarrow> (Some (Marshal e), w)
           | Inr body \<Rightarrow>
               (case get (namespace, ConfigMapName) w of
                  Inl e \<Rightarrow>
                    if e \<noteq> NotFound then (Some (GetCM e), w)
                    else apfst (map_option CreateCM)
                      (create (namespace, ConfigMapName) (new_configmap namespace body) w)
                | Inr existing \<Rightarrow>
                    let data = (case cm_data existing of None \<Rightarrow> Map.empty | Some d \<Rightarrow> d) in
                    if map_get data DataKey = body then (None, w)
                    else apfst (map_option UpdateCM)
                      (update (namespace, ConfigMapName)
                        (existing\<lparr>cm_data := Some (data(DataKey \<mapsto> body))\<rparr>) w))))"

text \<open>\<open>FindAssignment\<close>: the first assignment of the GPU on the node.\<close>

definition FindAssignment :: "Topology \<Rightarrow> string \<Rightarrow> string \<Rightarrow> Assignment option" where
  "FindAssignment t node gpuID = find (\<lambda>a. GPUID a = gpuID) (nodes_of t node)"

section \<open>Lookup\<close>

lemma nodes_of_Empty [simp]: "nodes_of Empty n = []"
  by (simp add: nodes_of_def Empty_def)

lemma nodes_of_ensure [simp]: "nodes_of (ensure_nodes t) n = nodes_of t n"
  by (simp add: nodes_of_def ensure_nodes_def split: option.splits)

lemma ensure_nodes_Some [simp]: "Nodes t = Some m \<Longrightarrow> ensure_nodes t = t"
  by (simp add: ensure_nodes_def)

lemma FindAssignment_None: "FindAssignment t n g = None \<longleftrightarrow> g \<notin> GPUID ` set (nodes_of t n)"
  by (auto simp: FindAssignment_def find_None_iff)

lemma FindAssignment_Some:
  "FindAssignment t n g = Some a \<Longrightarrow> a \<in> set (nodes_of t n) \<and> GPUID a = g"
  by (auto simp: FindAssignment_def find_Some_iff)

text \<open>With one holder per GPU the assignment found is the only one.\<close>

lemma find_unique:
  "distinct (map f xs) \<Longrightarrow> x \<in> set xs \<Longrightarrow> find (\<lambda>a. f a = f x) xs = Some x"
  by (induction xs) auto

lemma FindAssignment_unique:
  "distinct (map GPUID (nodes_of t n)) \<Longrightarrow> a \<in> set (nodes_of t n) \<Longrightarrow>
   FindAssignment t n (GPUID a) = Some a"
  by (simp add: FindAssignment_def find_unique)

section \<open>Saving and loading\<close>

definition stored_body :: "ConfigMap \<Rightarrow> string" where
  "stored_body cm = (case cm_data cm of None \<Rightarrow> [] | Some d \<Rightarrow> map_get d DataKey)"

lemma Load_stored:
  assumes "get (ns, ConfigMapName) w = Inr cm" "stored_body cm = body" "body \<noteq> []"
    "unmarshal body = Inr t"
  shows "Load get unmarshal ns w = Inr (ensure_nodes t)"
  using assms by (auto simp: Load_def stored_body_def map_get_def split: option.splits)

lemma Save_Some_cases:
  assumes "Save get create update marshal ns (Some t) w = (None, w')"
  obtains body where "marshal (ensure_nodes t) = Inr body"
    "get (ns, ConfigMapName) w = Inl NotFound"
    "create (ns, ConfigMapName) (new_configmap ns body) w = (None, w')"
  | body existing where "marshal (ensure_nodes t) = Inr body"
    "get (ns, ConfigMapName) w = Inr existing" "stored_body existing = body" "w' = w"
  | body existing data where "marshal (ensure_nodes t) = Inr body"
    "get (ns, ConfigMapName) w = Inr existing"
    "data = (case cm_data existing of None \<Rightarrow> Map.empty | Some d \<Rightarrow> d)"
    "update (ns, ConfigMapName) (existing\<lparr>cm_data := Some (data(DataKey \<mapsto> body))\<rparr>) w = (None, w')"
proof -
  obtain body where m: "marshal (ensure_nodes t) = Inr body"
    using assms by (cases "marshal (ensure_nodes t)") (auto simp: Save_def)
  show thesis
  proof (cases "get (ns, ConfigMapName) w")
    case (Inl e)
    with assms m that(1) show thesis
      by (auto simp: Save_def apfst_def map_prod_def split: if_splits prod.splits)
  next
    case (Inr existing)
    show thesis
    proof (cases "stored_body existing = body")
      case True
      with assms m Inr that(2) show thesis
        by (auto simp: Save_def Let_def stored_body_def split: if_splits option.splits)
    next
      case False
      with assms m Inr that(3) show thesis
        by (auto simp: Save_def Let_def stored_body_def apfst_def map_prod_def
            split: if_splits option.splits prod.splits)
    qed
  qed
qed

text \<open>The store of ConfigMaps, and what a successful save leaves behind in it.\<close>

locale configmap_store = object_store view get create update delete
  for view :: "'w \<Rightarrow> key \<Rightarrow> ConfigMap option"
    and get :: "key \<Rightarrow> 'w \<Rightarrow> api_error + ConfigMap"
    and create :: "key \<Rightarrow> ConfigMap \<Rightarrow> 'w \<Rightarrow> api_error option \<times> 'w"
    and update :: "key \<Rightarrow> ConfigMap \<Rightarrow> 'w \<Rightarrow> api_error option \<times> 'w"
    and delete :: "key \<Rightarrow> 'w \<Rightarrow> api_error option \<times> 'w"
begin

lemma Save_view:
  assumes "Save get create update marshal ns (Some t) w = (None, w')"
  obtains body cm where "marshal (ensure_nodes t) = Inr body"
    "view w' = (view w)((ns, ConfigMapName) \<mapsto> cm)" "stored_body cm = body"
    "\<And>k d. k \<noteq> DataKey \<Longrightarrow> view w (ns, ConfigMapName) = Some cm0 \<Longrightarrow>
       cm_data cm0 = Some d \<Longrightarrow> Option.bind (cm_data cm) (\<lambda>d. d k) = d k"
proof -
  show thesis
    using assms
  proof (cases rule: Save_Some_cases)
    case (1 body)
    then show thesis
      using create_None that by (force simp: stored_body_def new_configmap_def)
  next
    case (2 body existing)
    then have "view w (ns, ConfigMapName) = Some existing" by (simp add: get_Inr)
    with 2 show thesis by (intro that [of body existing]) (auto simp: fun_upd_idem)
  next
    case (3 body existing data)
    then have "view w (ns, ConfigMapName) = Some existing" by (simp add: get_Inr)
    with 3 show thesis
      using update_None by (intro that [of body "existing\<lparr>cm_data := Some (data(DataKey \<mapsto> body))\<rparr>"])
        (auto simp: stored_body_def split: option.splits)
  qed
qed

text \<open>A topology that was saved is what a later load returns, whoever reads.\<close>

lemma Save_Load:
  assumes "Save get create update marshal ns (Some t) w = (None, w')"
    and "marshal (ensure_nodes t) = Inr body" "body \<noteq> []" "unmarshal body = Inr (ensure_nodes t)"
    and "get (ns, ConfigMapName) w' = Inr cm"
  shows "Load get unmarshal ns w' = Inr (ensure_nodes t)"
proof -
  obtain body' cm' where b: "marshal (ensure_nodes t) = Inr body'" "view w' (ns, ConfigMapName) = Some cm'"
    "stored_body cm' = body'"
    using assms(1) by (rule Save_view) simp
  with get_Inr [OF assms(5)] assms(2) have "stored_body cm = body" by simp
  moreover have "ensure_nodes (ensure_nodes t) = ensure_nodes t"
    by (simp add: ensure_nodes_def split: option.splits)
  ultimately show ?thesis
    using Load_stored [of get ns w' cm body unmarshal "ensure_nodes t"] assms(3-5) by simp
qed

end

interpretation cms: configmap_store objects srv_get srv_create srv_update srv_delete
  by unfold_locales

section \<open>Properties\<close>

text \<open>A topology, its rendering, and a server that holds an older one beside a foreign key.\<close>

definition demo_topology :: Topology where
  "demo_topology = \<lparr>Nodes = Some [''node-1'' \<mapsto>
     [\<lparr>GPUID = ''gpu-0'', PodNamespace = ''default'', PodName = ''train'', Container = ''main''\<rparr>]]\<rparr>"

definition demo_body :: string where "demo_body = ''nodes: {node-1: [{gpuID: gpu-0}]}''"

definition demo_marshal :: "Topology \<Rightarrow> string + string" where
  "demo_marshal t = Inr demo_body"

definition demo_unmarshal :: "string \<Rightarrow> string + Topology" where
  "demo_unmarshal s = (if s = demo_body then Inr demo_topology else Inl ''unexpected document'')"

definition demo_store :: "(key, ConfigMap) server" where
  "demo_store = \<lparr>objects = [(''sims'', ConfigMapName) \<mapsto>
      (new_configmap ''sims'' ''nodes: {}'')\<lparr>cm_data := Some [DataKey \<mapsto> ''nodes: {}'', ''note'' \<mapsto> ''kept'']\<rparr>],
     unreachable = (\<lambda>_. False)\<rparr>"

definition demo_saved :: "(key, ConfigMap) server" where
  "demo_saved = snd (Save srv_get srv_create srv_update demo_marshal ''sims'' (Some demo_topology) demo_store)"

lemma demo_save:
  "Save srv_get srv_create srv_update demo_marshal ''sims'' (Some demo_topology) demo_store = (None, demo_saved)"
  by (simp add: prod_eq_iff demo_saved_def)
     (simp add: Save_def demo_marshal_def demo_store_def demo_topology_def srv_defs ensure_nodes_def
       DataKey_def map_get_def demo_body_def)

text \<open>
  Round trip through the cluster: a topology that the status-updater saved is what the exporter
  loads, as soon as it can read the ConfigMap, provided the YAML library reads back what it wrote.
\<close>

lemma saved_topology_loads:
  assumes "configmap_store view get create update delete"
    and "Save get create update marshal ns (Some t) w = (None, w')"
    and "marshal (ensure_nodes t) = Inr body" "body \<noteq> []" "unmarshal body = Inr (ensure_nodes t)"
    and "get (ns, ConfigMapName) w' = Inr cm"
  shows "Load get unmarshal ns w' = Inr (ensure_nodes t)"
  using assms by (rule configmap_store.Save_Load)

lemma saved_topology_loads_witness:
  "Load srv_get demo_unmarshal ''sims'' demo_saved = Inr demo_topology"
proof -
  have e: "ensure_nodes demo_topology = demo_topology" by (simp add: demo_topology_def)
  have "\<exists>cm. srv_get (''sims'', ConfigMapName) demo_saved = Inr cm"
    by (simp add: demo_saved_def Save_def demo_marshal_def demo_store_def demo_topology_def srv_defs
        ensure_nodes_def DataKey_def map_get_def demo_body_def)
  then obtain cm where "srv_get (''sims'', ConfigMapName) demo_saved = Inr cm" ..
  then have "Load srv_get demo_unmarshal ''sims'' demo_saved = Inr (ensure_nodes demo_topology)"
    by (intro saved_topology_loads [OF cms.configmap_store_axioms demo_save, where body = demo_body])
       (simp_all add: demo_marshal_def demo_unmarshal_def demo_body_def e)
  then show ?thesis by (simp only: e)
qed

text \<open>
  A successful save changes nothing but the topology ConfigMap, and of an existing ConfigMap only
  the topology document: other objects and other data keys are kept.
\<close>

lemma save_frame:
  assumes "configmap_store view get create update delete"
    and "Save get create update marshal ns (Some t) w = (None, w')"
  shows "(k \<noteq> (ns, ConfigMapName) \<longrightarrow> view w' k = view w k) \<and>
    (view w (ns, ConfigMapName) = Some cm0 \<longrightarrow> cm_data cm0 = Some d \<longrightarrow> dk \<noteq> DataKey \<longrightarrow>
      (\<exists>cm. view w' (ns, ConfigMapName) = Some cm \<and> Option.bind (cm_data cm) (\<lambda>d. d dk) = d dk))"
proof -
  obtain cm where cm: "view w' = (view w)((ns, ConfigMapName) \<mapsto> cm)"
    "\<And>k d. k \<noteq> DataKey \<Longrightarrow> view w (ns, ConfigMapName) = Some cm0 \<Longrightarrow> cm_data cm0 = Some d \<Longrightarrow>
       Option.bind (cm_data cm) (\<lambda>d. d k) = d k"
    by (rule configmap_store.Save_view [OF assms, where ?cm0.0 = cm0]) blast
  then show ?thesis by simp
qed

lemma save_frame_witness:
  "\<exists>cm. objects demo_saved (''sims'', ConfigMapName) = Some cm \<and>
     Option.bind (cm_data cm) (\<lambda>d. d ''note'') = Some ''kept''"
  using save_frame [OF cms.configmap_store_axioms demo_save,
      of _ "(new_configmap ''sims'' ''nodes: {}'')\<lparr>cm_data := Some [DataKey \<mapsto> ''nodes: {}'', ''note'' \<mapsto> ''kept'']\<rparr>"
        "[DataKey \<mapsto> ''nodes: {}'', ''note'' \<mapsto> ''kept'']" "''note''"]
  by (simp add: demo_store_def DataKey_def)

end
