(* ===== verification/Status_Updater.thy ===== *)
theory Status_Updater
  imports Device_Plugin Topology
begin

text \<open>
  The status-updater (\<open>internal/statusupdater/run.go\<close>): on every tick it lists all pods, rebuilds
  the whole topology from their annotations and saves it. \<open>build_nodes\<close> is the double loop of
  \<open>reconcile\<close>; \<open>pod_assignments\<close> is the abstract specification of what one pod contributes.
\<close>

definition amdGPUResource :: string where "amdGPUResource = ''amd.com/gpu''"

definition lookup_nodes :: "(string \<rightharpoonup> Assignment list) \<Rightarrow> string \<Rightarrow> Assignment list" where
  "lookup_nodes m n = (case m n of None \<Rightarrow> [] | Some xs \<Rightarrow> xs)"

definition assignment_for :: "Pod \<Rightarrow> string \<Rightarrow> string \<Rightarrow> Assignment" where
  "assignment_for p cname g =
     \<lparr>GPUID = g, PodNamespace = p_namespace p, PodName = p_name p, Container = cname\<rparr>"

text \<open>The loop over the comma-separated identifiers of one pod.\<close>

fun add_gpus ::
  "Pod \<Rightarrow> string \<Rightarrow> string list \<Rightarrow> (string \<rightharpoonup> Assignment list) \<Rightarrow> (string \<rightharpoonup> Assignment list)" where
  "add_gpus p cname [] m = m"
| "add_gpus p cname (part # parts) m =
     (let gpuID = trim_space part in
      if gpuID = [] then add_gpus p cname parts m
      else add_gpus p cname parts
        (m(p_node p \<mapsto> lookup_nodes m (p_node p) @ [assignment_for p cname gpuID])))"

text \<open>The loop over the pods.\<close>

fun build_nodes :: "Pod list \<Rightarrow> (string \<rightharpoonup> Assignment list) \<Rightarrow> (string \<rightharpoonup> Assignment list)" where
  "build_nodes [] m = m"
| "build_nodes (p # pods) m =
     (if p_node p = [] then build_nodes pods m
      else let assigned = map_get (p_annotations p) AssignedGPUsAnnotation in
        if assigned = [] then build_nodes pods m
        else build_nodes pods
          (add_gpus p (firstGPUContainer amdGPUResource p) (split_on (CHR '','') assigned) m))"

definition build_topology :: "Pod list \<Rightarrow> Topology" where
  "build_topology pods = \<lparr>Nodes = Some (build_nodes pods Map.empty)\<rparr>"

datatype 'y updater_error = ListPods api_error | SaveTopology "'y topology_error"

definition updater_reconcile ::
  "('w \<Rightarrow> api_error + Pod list) \<Rightarrow> (key \<Rightarrow> 'w \<Rightarrow> api_error + ConfigMap) \<Rightarrow>
   (key \<Rightarrow> ConfigMap \<Rightarrow> 'w \<Rightarrow> api_error option \<times> 'w) \<Rightarrow>
   (key \<Rightarrow> ConfigMap \<Rightarrow> 'w \<Rightarrow> api_error option \<times> 'w) \<Rightarrow>
   (Topology \<Rightarrow> 'y + string) \<Rightarrow> string \<Rightarrow> 'w \<Rightarrow> 'y updater_error option \<times> 'w" where
  "updater_reconcile list_pods get create update marshal namespace w =
     (case list_pods w of
        Inl e \<Rightarrow> (Some (ListPods e), w)
      | Inr pods \<Rightarrow>
          apfst (map_option SaveTopology)
            (Save get create update marshal namespace (Some (build_topology pods)) w))"

section \<open>What the topology holds\<close>

text \<open>The identifiers a pod's annotation names, and the assignments they stand for.\<close>

definition annotated_ids :: "Pod \<Rightarrow> string list" where
  "annotated_ids p =
     filter (\<lambda>g. g \<noteq> []) (map trim_space
       (split_on (CHR '','') (map_get (p_annotations p) AssignedGPUsAnnotation)))"

definition pod_assignments :: "Pod \<Rightarrow> Assignment list" where
  "pod_assignments p =
     (if p_node p = [] then []
      else map (assignment_for p (firstGPUContainer amdGPUResource p)) (annotated_ids p))"

lemma lookup_nodes_upd [simp]:
  "lookup_nodes (m(k \<mapsto> v)) n = (if n = k then v else lookup_nodes m n)"
  by (simp add: lookup_nodes_def)

lemma lookup_nodes_empty [simp]: "lookup_nodes Map.empty n = []"
  by (simp add: lookup_nodes_def)

lemma add_gpus_spec:
  "lookup_nodes (add_gpus p cname parts m) n =
   lookup_nodes m n @ (if n = p_node p
     then map (assignment_for p cname) (filter (\<lambda>g. g \<noteq> []) (map trim_space parts)) else [])"
  by (cases "n = p_node p"; induction parts arbitrary: m) (simp_all add: Let_def)

lemma annotated_ids_empty: "map_get (p_annotations p) AssignedGPUsAnnotation = [] \<Longrightarrow> annotated_ids p = []"
  by (simp add: annotated_ids_def)

lemma build_nodes_spec:
  "lookup_nodes (build_nodes pods m) n =
   lookup_nodes m n @ concat (map pod_assignments (filter (\<lambda>p. p_node p = n) pods))"
proof (induction pods m rule: build_nodes.induct)
  case (2 p pods m)
  show ?case
  proof (cases "p_node p = [] \<or> map_get (p_annotations p) AssignedGPUsAnnotation = []")
    case True
    then have "pod_assignments p = []" by (auto simp: pod_assignments_def annotated_ids_empty)
    with True 2 show ?thesis by auto
  next
    case False
    with 2 show ?thesis
      by (simp add: add_gpus_spec pod_assignments_def annotated_ids_def)
  qed
qed simp

lemma nodes_of_build:
  "nodes_of (build_topology pods) n = concat (map pod_assignments (filter (\<lambda>p. p_node p = n) pods))"
  using build_nodes_spec [of pods Map.empty n]
  by (simp add: nodes_of_def build_topology_def lookup_nodes_def split: option.splits)

lemma pod_assignments_fields:
  "a \<in> set (pod_assignments p) \<Longrightarrow> PodNamespace a = p_namespace p \<and> PodName a = p_name p \<and>
     Container a = firstGPUContainer amdGPUResource p \<and> p_node p \<noteq> []"
  by (auto simp: pod_assignments_def assignment_for_def split: if_splits)

text \<open>
  The annotation the annotator writes, a comma-joined list, comes back as the same list when the
  identifiers are non-empty, visible and free of commas; the identifiers of the device plugin are.
\<close>

definition plain_id :: "string \<Rightarrow> bool" where
  "plain_id g \<longleftrightarrow> g \<noteq> [] \<and> (\<forall>c \<in> set g. visible c \<and> c \<noteq> CHR '','')"

lemma annotated_ids_join:
  assumes "map_get (p_annotations p) AssignedGPUsAnnotation = join '','' devs"
    and "devs \<noteq> []" and "\<forall>g \<in> set devs. plain_id g"
  shows "annotated_ids p = devs"
proof -
  have "split_on (CHR '','') (join '','' devs) = devs"
    using assms(2,3) by (intro split_on_join) (auto simp: plain_id_def)
  moreover have "map trim_space devs = devs"
    using assms(3) by (intro map_idI) (simp add: plain_id_def)
  moreover have "filter (\<lambda>g. g \<noteq> []) devs = devs"
    using assms(3) by (intro filter_True) (simp add: plain_id_def)
  ultimately show ?thesis by (simp add: annotated_ids_def assms(1))
qed

lemma plain_id_gpu: "0 \<le> i \<Longrightarrow> plain_id (''gpu-'' @ itoa i)"
proof -
  assume "0 \<le> i"
  then have "\<forall>c \<in> set (itoa i). is_digit c"
    using nat_digits_digits by (simp add: itoa_def)
  then have "\<forall>c \<in> set (itoa i). visible c \<and> c \<noteq> CHR '',''"
    using visible_digit not_digit_minus(3) by metis
  then show ?thesis by (auto simp: plain_id_def visible_def)
qed

section \<open>Properties\<close>

text \<open>
  C23. The rebuilt topology is exactly what the pods' annotations say: on every node, the assignments of
  the pods bound to it, pod by pod in listing order, one per non-blank identifier of the annotation.
\<close>

theorem topology_lists_holders:
  "nodes_of (build_topology pods) n =
     concat (map (\<lambda>p. if p_node p = [] then [] else
         map (\<lambda>g. \<lparr>GPUID = g, PodNamespace = p_namespace p, PodName = p_name p,
                   Container = firstGPUContainer amdGPUResource p\<rparr>) (annotated_ids p))
       (filter (\<lambda>p. p_node p = n) pods))"
proof -
  have "pod_assignments = (\<lambda>p. if p_node p = [] then [] else
      map (\<lambda>g. \<lparr>GPUID = g, PodNamespace = p_namespace p, PodName = p_name p,
                Container = firstGPUContainer amdGPUResource p\<rparr>) (annotated_ids p))"
    by (rule ext) (simp add: pod_assignments_def assignment_for_def [abs_def])
  then show ?thesis by (simp only: nodes_of_build)
qed

lemma build_nodes_phase:
  "build_nodes (map (\<lambda>p. p\<lparr>p_phase := f p\<rparr>) pods) m = build_nodes pods m"
proof -
  have "add_gpus (p\<lparr>p_phase := f p\<rparr>) cn parts m = add_gpus p cn parts m" for p cn parts m
    by (induction parts arbitrary: m) (simp_all add: Let_def assignment_for_def)
  then show ?thesis
    by (induction pods arbitrary: m) (simp_all add: firstGPUContainer_def Let_def)
qed

text \<open>
  The phase of a pod plays no part: a pod that has completed or failed keeps its GPUs in the
  topology for as long as its annotation is there.
\<close>

lemma topology_ignores_phase:
  "build_topology (map (\<lambda>p. p\<lparr>p_phase := f p\<rparr>) pods) = build_topology pods"
  by (simp add: build_topology_def build_nodes_phase)

lemma updater_pass_Load:
  assumes "configmap_store view get create update delete"
    and "updater_reconcile list_pods get create update marshal ns w = (None, w')" "list_pods w = Inr pods"
    and "marshal (build_topology pods) = Inr body" "body \<noteq> []" "unmarshal body = Inr (build_topology pods)"
    and "get (ns, ConfigMapName) w' = Inr cm"
  shows "Load get unmarshal ns w' = Inr (build_topology pods)"
proof -
  have e: "ensure_nodes (build_topology pods) = build_topology pods" by (simp add: build_topology_def)
  have "Save get create update marshal ns (Some (build_topology pods)) w = (None, w')"
    using assms(2,3) by (auto simp: updater_reconcile_def apfst_def map_prod_def split: prod.splits)
  then have "Load get unmarshal ns w' = Inr (ensure_nodes (build_topology pods))"
    by (rule configmap_store.Save_Load [OF assms(1)]) (use assms e in simp_all)
  then show ?thesis by (simp only: e)
qed

text \<open>
  C24. One pass of the status-updater publishes its view: after a pass without error, whoever can read
  the ConfigMap loads the topology built from the pods of that pass.
\<close>

theorem updater_publishes:
  assumes "configmap_store view get create update delete"
    and "updater_reconcile list_pods get create update marshal ns w = (None, w')" "list_pods w = Inr pods"
    and "marshal (build_topology pods) = Inr body" "body \<noteq> []" "unmarshal body = Inr (build_topology pods)"
    and "get (ns, ConfigMapName) w' = Inr cm"
  shows "Load get unmarshal ns w' = Inr (build_topology pods)"
  using assms by (rule updater_pass_Load)

definition annotated_pod :: Pod where
  "annotated_pod = set_annotation AssignedGPUsAnnotation ''gpu-0,gpu-1'' demo_pod"

theorem updater_publishes_witness:
  "\<exists>w'. updater_reconcile (\<lambda>_. Inr [annotated_pod]) srv_get srv_create srv_update demo_marshal ''sims'' demo_store =
       (None, w') \<and>
     Load srv_get (\<lambda>_. Inr (build_topology [annotated_pod])) ''sims'' w' =
       (Inr (build_topology [annotated_pod]) :: string topology_error + Topology)"
proof -
  let ?run = "updater_reconcile (\<lambda>_. Inr [annotated_pod]) srv_get srv_create srv_update demo_marshal ''sims'' demo_store"
  have run: "?run = (None, snd ?run)" "\<exists>cm. srv_get (''sims'', ConfigMapName) (snd ?run) = Inr cm"
    by (simp_all add: prod_eq_iff)
       (simp_all add: updater_reconcile_def Save_def demo_marshal_def demo_store_def srv_defs ensure_nodes_def
         DataKey_def map_get_def demo_body_def build_topology_def)
  then obtain cm where "srv_get (''sims'', ConfigMapName) (snd ?run) = Inr cm" by blast
  then have "Load srv_get (\<lambda>_. Inr (build_topology [annotated_pod])) ''sims'' (snd ?run) =
      (Inr (build_topology [annotated_pod]) :: string topology_error + Topology)"
    by (intro updater_publishes [OF cms.configmap_store_axioms run(1), where body = demo_body])
       (simp_all add: demo_marshal_def demo_body_def)
  with run(1) show ?thesis by blast
qed

end
