(* ===== verification/Simulate.thy ===== *)
theory Simulate
  imports Go_Float
begin

text \<open>
  Package \<open>simulate\<close> (\<open>pkg/simulate/gpu.go\<close>): the fake GPUs of a node, under both partition modes,
  and the idle and loaded values their gauges report. Gauges are computed in \<open>float64\<close>.
\<close>

definition PartitionSPX :: string where "PartitionSPX = ''spx''"
definition PartitionCPX :: string where "PartitionCPX = ''cpx''"

record GPU =
  ID :: string
  SerialNumber :: string
  CardSeries :: string
  CardModel :: string
  MemoryTotal :: int
  PartitionMode :: string
  PartitionID :: string

record Sample =
  Util :: f64
  JunctionTemp :: f64
  PackagePower :: f64
  GfxActivity :: f64
  UsedVRAM :: f64
  TotalVRAM :: f64
  ClockGfx :: f64
  Voltage :: f64
  FanSpeed :: f64
  PCIeBandwidth :: f64
  Health :: int

text \<open>The mode and the count that \<open>BuildGPUs\<close> works with after its two normalising tests.\<close>

definition norm_partition :: "string \<Rightarrow> int \<Rightarrow> string \<times> int" where
  "norm_partition mode count =
     (let (mode, count) = (if mode \<noteq> PartitionCPX then (PartitionSPX, 1) else (mode, count))
      in (mode, if count < 1 then 1 else count))"

text \<open>The body of the inner loop, for physical card \<open>phys\<close> and partition \<open>part\<close>.\<close>

definition gpu_at :: "string \<Rightarrow> string \<Rightarrow> int \<Rightarrow> string \<Rightarrow> int \<Rightarrow> int \<Rightarrow> int \<Rightarrow> GPU" where
  "gpu_at hostname productName perPartitionMemory mode count phys part =
     \<lparr>ID = ''gpu-'' @ itoa (i64 (i64 (phys * count) + part)),
      SerialNumber = ''SIM-'' @ hostname @ ''-'' @ pad2 phys @ ''-p'' @ itoa part,
      CardSeries = productName,
      CardModel = productName,
      MemoryTotal = perPartitionMemory,
      PartitionMode = mode,
      PartitionID = itoa part\<rparr>"

text \<open>
  \<open>None\<close> is the panic of \<open>make\<close>: the product of the two counts wrapped to a negative number or
  asks for more memory than the runtime can reserve (a \<open>GPU\<close> takes 104 bytes).
\<close>

definition BuildGPUs ::
  "string \<Rightarrow> string \<Rightarrow> int \<Rightarrow> int \<Rightarrow> string \<Rightarrow> int \<Rightarrow> GPU list option" where
  "BuildGPUs hostname productName memoryBytes physicalCount partitionMode partitionCount =
     (let (mode, count) = norm_partition partitionMode partitionCount;
          perPartitionMemory = go_div memoryBytes count
      in if \<not> make_ok 104 (i64 (physicalCount * count)) then None
         else Some (concat (map (\<lambda>phys.
                map (gpu_at hostname productName perPartitionMemory mode count phys) (go_range count))
              (go_range physicalCount))))"

text \<open>\<open>float64(g.MemoryTotal)\<close>.\<close>

definition float_of_int64 :: "int \<Rightarrow> f64" where
  "float_of_int64 n = f64_of (of_int n)"

definition SampleIdle :: "GPU \<Rightarrow> Sample" where
  "SampleIdle g =
     \<lparr>Util = Fin 0, JunctionTemp = Fin 35, PackagePower = Fin 30, GfxActivity = Fin 0,
      UsedVRAM = Fin 0, TotalVRAM = float_of_int64 (MemoryTotal g), ClockGfx = Fin 500,
      Voltage = Fin 800, FanSpeed = Fin 20, PCIeBandwidth = Fin 100, Health = 1\<rparr>"

definition clamp_util :: "f64 \<Rightarrow> f64" where
  "clamp_util util =
     (let util = (if f_lt util (Fin 0) then Fin 0 else util)
      in if f_lt (Fin 100) util then Fin 100 else util)"

text \<open>A gauge of the form \<open>base + util * factor\<close>.\<close>

definition linear :: "rat \<Rightarrow> f64 \<Rightarrow> rat \<Rightarrow> f64" where
  "linear base util factor = f_add (Fin base) (f_mul util (f_const factor))"

definition SampleLoaded :: "GPU \<Rightarrow> f64 \<Rightarrow> rng \<Rightarrow> Sample \<times> rng" where
  "SampleLoaded g util rng0 =
     (let util = clamp_util util;
          (r, rng1) = rng_float64 rng0;
          jitter = f_sub (f_mul r (Fin 2)) (Fin 1);
          total = float_of_int64 (MemoryTotal g)
      in (\<lparr>Util = util,
           JunctionTemp = f_add (linear 40 util (55 / 100)) jitter,
           PackagePower = linear 50 util (5 / 2),
           GfxActivity = util,
           UsedVRAM = f_mul (f_mul (f_div_const util 100) total) (f_const (8 / 10)),
           TotalVRAM = total,
           ClockGfx = linear 500 util 12,
           Voltage = linear 800 util 4,
           FanSpeed = linear 20 util (6 / 10),
           PCIeBandwidth = linear 100 util 80,
           Health = 1\<rparr>, rng1))"

section \<open>The GPU list\<close>

definition serial_at :: "string \<Rightarrow> int \<Rightarrow> int \<Rightarrow> string" where
  "serial_at hostname phys part = ''SIM-'' @ hostname @ ''-'' @ pad2 phys @ ''-p'' @ itoa part"

lemma norm_partition_ge: "1 \<le> snd (norm_partition mode count)"
  by (simp add: norm_partition_def Let_def)

text \<open>The row-major enumeration of pairs is the enumeration of their global index.\<close>

lemma concat_row_major:
  "concat (map (\<lambda>i. map (\<lambda>j. f (i * m + j)) [0..<m]) [0..<n]) = map f [0..<n * m]" for n m :: nat
proof (induction n)
  case (Suc n)
  have "map (\<lambda>j. f (n * m + j)) [0..<m] = map f [n * m..<n * m + m]"
    by (simp add: map_add_upt [symmetric] comp_def add.commute)
  moreover have "[0..<n * m + m] = [0..<n * m] @ [n * m..<n * m + m]"
    by (rule upt_add_eq_append) simp
  ultimately show ?case using Suc by (simp add: add.commute)
qed simp

lemma global_index_in_range:
  assumes "0 \<le> phys" "phys < n" "0 \<le> part" "part < count" "n * count < 2 ^ 63"
  shows "i64 (i64 (phys * count) + part) = phys * count + part"
proof -
  have "phys * count + part < (phys + 1) * count" using assms by (simp add: algebra_simps)
  also have "\<dots> \<le> n * count" using assms by (intro mult_right_mono) simp_all
  finally have le: "phys * count + part < 2 ^ 63" using assms by simp
  have nn: "0 \<le> phys * count" using assms by simp
  have "in_i64 (phys * count)" "in_i64 (phys * count + part)"
    using le nn assms unfolding in_i64_def by linarith+
  then show ?thesis by simp
qed

text \<open>
  The advertised identifiers are \<open>gpu-0\<close>, \<open>gpu-1\<close>, and so on, one per logical device, in order.
\<close>

lemma concat_map_cong:
  "(\<And>x. x \<in> set xs \<Longrightarrow> f x = g x) \<Longrightarrow> concat (map f xs) = concat (map g xs)"
  by (induction xs) auto

lemma make_ok_bound: "0 < n * c \<Longrightarrow> make_ok e (n * c) \<Longrightarrow> 1 \<le> e \<Longrightarrow> n * c \<le> 2 ^ 48" for n c e :: int
  using mult_left_mono [of 1 e "n * c"] by (simp add: make_ok_def)

lemma BuildGPUs_ids:
  assumes "BuildGPUs host product mem n mode0 count0 = Some gs"
    and "norm_partition mode0 count0 = (mode, count)" and "0 \<le> n" and "n * count < 2 ^ 63"
  shows "map ID gs = map (\<lambda>i. ''gpu-'' @ itoa i) (go_range (n * count))"
proof -
  have c: "1 \<le> count" using norm_partition_ge [of mode0 count0] assms(2) by simp
  have gs: "gs = concat (map (\<lambda>phys. map (gpu_at host product (go_div mem count) mode count phys)
      (go_range count)) (go_range n))"
    using assms(1,2) by (simp add: BuildGPUs_def split: if_splits)
  have "map ID gs = concat (map (\<lambda>phys. map (\<lambda>part. ''gpu-'' @ itoa (phys * count + part))
      (go_range count)) (go_range n))"
    unfolding gs map_concat map_map comp_def
  proof (rule concat_map_cong, rule map_cong [OF refl])
    fix phys part assume "phys \<in> set (go_range n)" "part \<in> set (go_range count)"
    then show "ID (gpu_at host product (go_div mem count) mode count phys part) =
        ''gpu-'' @ itoa (phys * count + part)"
      using global_index_in_range [of phys n part count] assms(4) by (simp add: gpu_at_def)
  qed
  also have "\<dots> = concat (map (\<lambda>i. map (\<lambda>j. ''gpu-'' @ itoa (int (i * nat count + j))) [0..<nat count])
      [0..<nat n])"
    using c by (simp add: go_range_def comp_def)
  also have "\<dots> = map (\<lambda>i. ''gpu-'' @ itoa (int i)) [0..<nat n * nat count]"
    by (rule concat_row_major)
  also have "\<dots> = map (\<lambda>i. ''gpu-'' @ itoa i) (go_range (n * count))"
    using assms(3) c by (simp add: go_range_def nat_mult_distrib comp_def)
  finally show ?thesis .
qed

lemma BuildGPUs_fields:
  assumes "BuildGPUs host product mem n mode0 count0 = Some gs" "g \<in> set gs"
    and "norm_partition mode0 count0 = (mode, count)"
  shows "MemoryTotal g = go_div mem count \<and> PartitionMode g = mode \<and> CardSeries g = product \<and>
    CardModel g = product \<and> (\<exists>part. 0 \<le> part \<and> part < count \<and> PartitionID g = itoa part)"
  using assms by (auto simp: BuildGPUs_def gpu_at_def split: if_splits)

lemma BuildGPUs_distinct_ids:
  assumes "BuildGPUs host product mem n mode0 count0 = Some gs"
    and "norm_partition mode0 count0 = (mode, count)" and "0 \<le> n" and "n * count < 2 ^ 63"
  shows "distinct (map ID gs)"
  unfolding BuildGPUs_ids [OF assms] by (simp add: distinct_map inj_on_def)

section \<open>Gauge bounds\<close>

lemma clamp_util_between:
  assumes "util \<noteq> NaN" shows "between 0 100 (clamp_util util)"
  using assms by (cases util) (auto simp: clamp_util_def Let_def)

lemma clamp_util_NaN [simp]: "clamp_util NaN = NaN"
  by (simp add: clamp_util_def)

lemma clamp_util_id: "between 0 100 u \<Longrightarrow> clamp_util u = u"
  by (auto elim!: betweenE simp: clamp_util_def)

lemma linear_between:
  assumes "between 0 100 u" "rep64 base" "0 \<le> base" "base \<le> 1000" "0 \<le> c" "c \<le> 1000"
    "rnd64 (base + rnd64 (100 * rnd64 c)) = t"
  shows "between base t (linear base u c)"
proof -
  obtain x where "u = Fin x" "0 \<le> x" "x \<le> 100" using assms(1) by (rule betweenE)
  with affine_between [of x base c] assms(2-) show ?thesis
    by (simp only: linear_def f_const_def simp_thms)
qed

text \<open>The largest value of each gauge, computed with binary64 rounding.\<close>

lemma gauge_maxima:
  "rnd64 (40 + rnd64 (100 * rnd64 (55 / 100))) = 95"
  "rnd64 (50 + rnd64 (100 * rnd64 (5 / 2))) = 300"
  "rnd64 (500 + rnd64 (100 * rnd64 12)) = 1700"
  "rnd64 (800 + rnd64 (100 * rnd64 4)) = 1200"
  "rnd64 (20 + rnd64 (100 * rnd64 (6 / 10))) = 80"
  "rnd64 (100 + rnd64 (100 * rnd64 80)) = 8100"
  by code_simp+

lemma jitter_between:
  assumes "rng_ok g"
  shows "between (- 1) 1 (f_sub (f_mul (fst (rng_float64 g)) (Fin 2)) (Fin 1))"
proof -
  have "between 0 1 (fst (rng_float64 g))"
    using rng_okD [OF assms, of 0] by (simp add: rng_float64_def)
  then have "between 0 2 (f_mul (fst (rng_float64 g)) (Fin 2))"
    using f_mul_between [of 1 _ 2 "Fin 2"] by simp
  then have "between (0 + - 1) (2 + - 1) (f_add (f_mul (fst (rng_float64 g)) (Fin 2)) (Fin (- 1)))"
    by (rule f_add_between) simp_all
  then show ?thesis by (simp add: f_sub_def)
qed

lemma float_of_int64_between:
  assumes "0 \<le> n" "n < 2 ^ 63"
  obtains t where "float_of_int64 n = Fin t" "0 \<le> t" "t \<le> 2 ^ 63" "rep64 t"
proof -
  have n: "(0::rat) \<le> of_int n" "of_int n \<le> (2::rat) ^ 63"
    using assms by (simp, metis less_imp_le of_int_le_iff of_int_numeral of_int_power)
  have "rep64 (2 ^ 63)" using rep64_powi [of 63] by simp
  moreover have "moderate (of_int n)" using n by (intro moderateI [of 0 _ "2 ^ 63"]) simp_all
  ultimately show thesis
    using n by (intro that [of "rnd64 (of_int n)"])
      (auto simp: float_of_int64_def rep64_rnd64 intro: b64.rnd_ge b64.rnd_le)
qed

text \<open>Used memory never exceeds the total: 0.8 rounds to a number below one.\<close>

lemma rnd64_08: "rnd64 (8 / 10) \<le> 1" "0 \<le> rnd64 (8 / 10)"
  by (rule b64.rnd_le; simp) (rule b64.rnd_ge; simp)

lemma used_between:
  assumes "between 0 100 u" "0 \<le> t" "rep64 t" "t \<le> 2 ^ 63"
  shows "between 0 t (f_mul (f_mul (f_div_const u 100) (Fin t)) (f_const (8 / 10)))"
proof -
  obtain x where u: "u = Fin x" "0 \<le> x" "x \<le> 100" using assms(1) by (rule betweenE)
  have t100: "t \<le> 2 ^ 100" using assms(4) by simp
  have "moderate (x / 100)" using u by (intro moderateI [of 0 _ 1]) simp_all
  moreover have "0 \<le> rnd64 (x / 100)" "rnd64 (x / 100) \<le> 1"
    using u by (auto intro: b64.rnd_ge b64.rnd_le)
  ultimately have "between 0 1 (f_div_const u 100)" by (simp add: u)
  then have "between 0 (1 * t) (f_mul (f_div_const u 100) (Fin t))"
    using assms t100 by (intro f_mul_between) simp_all
  moreover have "between 0 1 (f_const (8 / 10))"
    using rnd64_08 by (simp add: f_const_def moderate_def)
  ultimately have "between 0 (1 * t * 1) (f_mul (f_mul (f_div_const u 100) (Fin t)) (f_const (8 / 10)))"
    using assms t100 by (intro f_mul_between [of "1 * t"]) simp_all
  then show ?thesis by simp
qed

text \<open>What a dashboard may rely on for every gauge of a loaded GPU.\<close>

definition gauges_ok :: "GPU \<Rightarrow> Sample \<Rightarrow> bool" where
  "gauges_ok g s \<longleftrightarrow>
     between 0 100 (Util s) \<and> between 39 96 (JunctionTemp s) \<and> between 50 300 (PackagePower s) \<and>
     GfxActivity s = Util s \<and> between 500 1700 (ClockGfx s) \<and> between 800 1200 (Voltage s) \<and>
     between 20 80 (FanSpeed s) \<and> between 100 8100 (PCIeBandwidth s) \<and> Health s = 1 \<and>
     TotalVRAM s = float_of_int64 (MemoryTotal g) \<and>
     (\<exists>t. TotalVRAM s = Fin t \<and> between 0 t (UsedVRAM s))"

lemma SampleLoaded_gauges_ok:
  assumes "util \<noteq> NaN" "rng_ok rng" "0 \<le> MemoryTotal g" "MemoryTotal g < 2 ^ 63"
  shows "gauges_ok g (fst (SampleLoaded g util rng))" and "rng_ok (snd (SampleLoaded g util rng))"
proof -
  have u: "between 0 100 (clamp_util util)" using assms(1) by (rule clamp_util_between)
  obtain t where t: "float_of_int64 (MemoryTotal g) = Fin t" "0 \<le> t" "t \<le> 2 ^ 63" "rep64 t"
    using assms(3,4) by (rule float_of_int64_between)
  have "between (40 + - 1) (95 + 1)
      (f_add (linear 40 (clamp_util util) (55 / 100)) (f_sub (f_mul (fst (rng_float64 rng)) (Fin 2)) (Fin 1)))"
    using u assms(2) by (intro f_add_between linear_between jitter_between gauge_maxima; simp)
  then have "between 39 96
      (f_add (linear 40 (clamp_util util) (55 / 100)) (f_sub (f_mul (fst (rng_float64 rng)) (Fin 2)) (Fin 1)))"
    by simp
  moreover have "between 50 300 (linear 50 (clamp_util util) (5 / 2))"
    "between 500 1700 (linear 500 (clamp_util util) 12)"
    "between 800 1200 (linear 800 (clamp_util util) 4)"
    "between 20 80 (linear 20 (clamp_util util) (6 / 10))"
    "between 100 8100 (linear 100 (clamp_util util) 80)"
    using u by (intro linear_between gauge_maxima; simp)+
  moreover have "between 0 t (f_mul (f_mul (f_div_const (clamp_util util) 100) (Fin t)) (f_const (8 / 10)))"
    using u t by (intro used_between)
  ultimately show "gauges_ok g (fst (SampleLoaded g util rng))"
    using u t(1) by (simp add: gauges_ok_def SampleLoaded_def Let_def case_prod_beta)
  show "rng_ok (snd (SampleLoaded g util rng))"
    using assms(2) by (simp add: SampleLoaded_def rng_float64_def Let_def)
qed

text \<open>A utilisation that is not a number gets past both clamps and reaches every derived gauge.\<close>

lemma SampleLoaded_NaN:
  "Util (fst (SampleLoaded g NaN rng)) = NaN" "JunctionTemp (fst (SampleLoaded g NaN rng)) = NaN"
  "PackagePower (fst (SampleLoaded g NaN rng)) = NaN" "ClockGfx (fst (SampleLoaded g NaN rng)) = NaN"
proof -
  have "f_add NaN x = NaN" "f_add (Fin b) NaN = NaN" "f_mul NaN x = NaN" for x b
    by (cases x; simp)+
  then show "Util (fst (SampleLoaded g NaN rng)) = NaN" "JunctionTemp (fst (SampleLoaded g NaN rng)) = NaN"
    "PackagePower (fst (SampleLoaded g NaN rng)) = NaN" "ClockGfx (fst (SampleLoaded g NaN rng)) = NaN"
    by (simp_all add: SampleLoaded_def rng_float64_def linear_def)
qed

section \<open>Properties\<close>

lemma demo_gpus: "\<exists>gs. BuildGPUs ''node-1'' ''MI300X'' 64 2 ''cpx'' 4 = Some gs \<and> length gs = 8"
proof -
  have "map_option length (BuildGPUs ''node-1'' ''MI300X'' 64 2 ''cpx'' 4) = Some 8" by code_simp
  then show ?thesis by auto
qed

text \<open>
  C22. The inventory of a node: \<open>BuildGPUs\<close> numbers the logical devices \<open>gpu-0\<close>, \<open>gpu-1\<close>, and so on,
  one per physical card and partition and without duplicates, and each holds an equal share of the
  card's memory, under the normalised partition mode.
\<close>

theorem gpu_inventory:
  assumes "BuildGPUs host product mem n mode0 count0 = Some gs"
    and "norm_partition mode0 count0 = (mode, count)" "0 \<le> n" "n * count < 2 ^ 63"
  shows "map ID gs = map (\<lambda>i. ''gpu-'' @ itoa i) (go_range (n * count)) \<and> distinct (map ID gs) \<and>
    (\<forall>g \<in> set gs. MemoryTotal g = go_div mem count \<and> PartitionMode g = mode)"
  using BuildGPUs_ids [OF assms] BuildGPUs_distinct_ids [OF assms] BuildGPUs_fields [OF assms(1) _ assms(2)]
  by blast

theorem gpu_inventory_witness:
  "\<exists>gs. BuildGPUs ''node-1'' ''MI300X'' 64 2 ''cpx'' 4 = Some gs \<and> distinct (map ID gs) \<and>
     (\<forall>g \<in> set gs. MemoryTotal g = 16)"
proof -
  obtain gs where gs: "BuildGPUs ''node-1'' ''MI300X'' 64 2 ''cpx'' 4 = Some gs" using demo_gpus by blast
  have np: "norm_partition ''cpx'' 4 = (''cpx'', 4)" "go_div 64 4 = 16" by code_simp+
  have "(0::int) \<le> 2" "(2::int) * 4 < 2 ^ 63" by simp_all
  from gpu_inventory [OF gs np(1) this] have "distinct (map ID gs)" "\<forall>g \<in> set gs. MemoryTotal g = go_div 64 4"
    by blast+
  with gs np(2) show ?thesis by (metis (no_types))
qed

text \<open>
  Every gauge of a loaded GPU stays within its documented band, computed in \<open>float64\<close> with
  rounding, for any utilisation that is a number, however far out of range: utilisation and graphics
  activity in 0 to 100, temperature in 39 to 96, power in 50 to 300, and so on; the used memory never
  exceeds the total.
\<close>

lemma loaded_gauges_in_band:
  assumes "util \<noteq> NaN" "rng_ok rng" "0 \<le> MemoryTotal g" "MemoryTotal g < 2 ^ 63"
  shows "gauges_ok g (fst (SampleLoaded g util rng))"
  by (rule SampleLoaded_gauges_ok(1) [OF assms])

lemma loaded_gauges_in_band_witness:
  "gauges_ok (gpu_at ''n'' ''MI300X'' 64 ''spx'' 1 0 0)
     (fst (SampleLoaded (gpu_at ''n'' ''MI300X'' 64 ''spx'' 1 0 0) PInf (\<lambda>_. 1 / 2)))"
  by (rule loaded_gauges_in_band) (simp_all add: gpu_at_def rng_ok_const_half)

end
