(* ===== verification/Metrics.thy ===== *)
theory Metrics
  imports Simulate
begin

text \<open>
  Package \<open>metrics\<close> (\<open>pkg/metrics/registry.go\<close>): the snapshot of one GPU and the collector that turns
  snapshots into Prometheus series. A metric is its descriptor, its label values in the order of
  \<open>labelNames\<close>, and its value. The Prometheus library (descriptor checks, registry, HTTP) is outside.
\<close>

definition labelNames :: "string list" where
  "labelNames =
     [''gpu_id'', ''serial_number'', ''card_series'', ''card_model'', ''hostname'',
      ''pod'', ''namespace'', ''container'', ''partition_mode'', ''partition_id'']"

record Snapshot =
  sn_GPUID :: string
  sn_SerialNumber :: string
  sn_CardSeries :: string
  sn_CardModel :: string
  sn_Hostname :: string
  sn_Pod :: string
  sn_Namespace :: string
  sn_Container :: string
  sn_PartitionMode :: string
  sn_PartitionID :: string
  sn_JunctionTemp :: f64
  sn_PackagePower :: f64
  sn_GfxActivity :: f64
  sn_UsedVRAM :: f64
  sn_TotalVRAM :: f64
  sn_ClockGfx :: f64
  sn_Voltage :: f64
  sn_FanSpeed :: f64
  sn_PCIeBandwidth :: f64
  sn_Health :: int

record Desc =
  d_name :: string
  d_help :: string
  d_labels :: "string list"

record Metric =
  mt_desc :: Desc
  mt_labels :: "string list"
  mt_value :: f64

definition desc :: "string \<Rightarrow> string \<Rightarrow> Desc" where
  "desc name help = \<lparr>d_name = name, d_help = help, d_labels = labelNames\<rparr>"

text \<open>The descriptors that \<open>New\<close> puts in the collector.\<close>

record Collector =
  junctionTemp :: Desc
  packagePower :: Desc
  gfxActivity :: Desc
  usedVRAM :: Desc
  totalVRAM :: Desc
  health :: Desc
  clockGfx :: Desc
  voltage :: Desc
  fanSpeed :: Desc
  pcieBandwidth :: Desc

definition NewCollector :: Collector where
  "NewCollector =
     \<lparr>junctionTemp = desc ''amd_gpu_junction_temperature'' ''GPU junction temperature in degrees Celsius.'',
      packagePower = desc ''amd_gpu_package_power'' ''GPU package power draw in Watts.'',
      gfxActivity = desc ''amd_gpu_gfx_activity'' ''GPU graphics engine activity, percent.'',
      usedVRAM = desc ''amd_gpu_used_vram'' ''GPU used video memory in bytes.'',
      totalVRAM = desc ''amd_gpu_total_vram'' ''GPU total video memory in bytes.'',
      health = desc ''amd_gpu_health'' ''GPU health state (1 = healthy, 0 = unhealthy).'',
      clockGfx = desc ''amd_gpu_clock_gfx'' ''GPU graphics clock frequency in MHz.'',
      voltage = desc ''amd_gpu_voltage'' ''GPU core voltage in millivolts.'',
      fanSpeed = desc ''amd_gpu_fan_speed'' ''GPU fan speed, percent of max.'',
      pcieBandwidth = desc ''amd_pcie_bandwidth'' ''GPU PCIe bandwidth in MB/s.''\<rparr>"

definition allDescs :: "Collector \<Rightarrow> Desc list" where
  "allDescs c =
     [junctionTemp c, packagePower c, gfxActivity c, usedVRAM c, totalVRAM c, health c,
      clockGfx c, voltage c, fanSpeed c, pcieBandwidth c]"

text \<open>What \<open>Describe\<close> sends to its channel.\<close>

definition Describe :: "Collector \<Rightarrow> Desc list" where
  "Describe c = allDescs c"

definition snapshot_labels :: "Snapshot \<Rightarrow> string list" where
  "snapshot_labels s =
     [sn_GPUID s, sn_SerialNumber s, sn_CardSeries s, sn_CardModel s, sn_Hostname s,
      sn_Pod s, sn_Namespace s, sn_Container s, sn_PartitionMode s, sn_PartitionID s]"

text \<open>The body of the loop of \<open>Collect\<close>.\<close>

definition collect_one :: "Collector \<Rightarrow> Snapshot \<Rightarrow> Metric list" where
  "collect_one c s =
     (let m = (\<lambda>d v. \<lparr>mt_desc = d, mt_labels = snapshot_labels s, mt_value = v\<rparr>) in
      [m (junctionTemp c) (sn_JunctionTemp s), m (packagePower c) (sn_PackagePower s),
       m (gfxActivity c) (sn_GfxActivity s), m (usedVRAM c) (sn_UsedVRAM s),
       m (totalVRAM c) (sn_TotalVRAM s), m (health c) (f64_of (of_int (sn_Health s))),
       m (clockGfx c) (sn_ClockGfx s), m (voltage c) (sn_Voltage s),
       m (fanSpeed c) (sn_FanSpeed s), m (pcieBandwidth c) (sn_PCIeBandwidth s)])"

definition Collect :: "Collector \<Rightarrow> Snapshot list \<Rightarrow> Metric list" where
  "Collect c snaps = concat (map (collect_one c) snaps)"

section \<open>Series\<close>

text \<open>
  A scrape is consistent when no two metrics share name and label values: the registry rejects the
  whole scrape otherwise.
\<close>

definition series :: "Metric \<Rightarrow> string \<times> string list" where
  "series m = (d_name (mt_desc m), mt_labels m)"

text \<open>
  What makes a scrape consistent, for any collector that emits one metric per descriptor and
  snapshot: the descriptors have different names, and the label values identify the snapshot.
\<close>

locale prom_collector =
  fixes descs :: "Desc list"
    and one :: "'s \<Rightarrow> Metric list"
    and labels_of :: "'s \<Rightarrow> string list"
    and ident :: "'s \<Rightarrow> string"
  assumes descs_names: "distinct (map d_name descs)"
    and one_descs: "map mt_desc (one s) = descs"
    and one_labels: "mt \<in> set (one s) \<Longrightarrow> mt_labels mt = labels_of s"
    and labels_ident: "labels_of s = labels_of t \<Longrightarrow> ident s = ident t"
begin

lemma one_series: "map series (one s) = map (\<lambda>d. (d_name d, labels_of s)) descs"
proof -
  have "map series (one s) = map (\<lambda>mt. (d_name (mt_desc mt), labels_of s)) (one s)"
    by (simp add: series_def one_labels)
  also have "\<dots> = map (\<lambda>d. (d_name d, labels_of s)) (map mt_desc (one s))" by simp
  finally show ?thesis by (simp only: one_descs)
qed

lemma scrape_distinct:
  assumes "distinct (map ident snaps)"
  shows "distinct (map series (concat (map one snaps)))"
  using assms
proof (induction snaps)
  case (Cons s snaps)
  have "distinct (map series (one s))"
    unfolding one_series using descs_names by (simp add: distinct_map inj_on_def)
  moreover have "series ` set (one s) \<inter> series ` set (concat (map one snaps)) = {}"
  proof (rule equals0I)
    fix y assume "y \<in> series ` set (one s) \<inter> series ` set (concat (map one snaps))"
    then obtain a t b where ab: "a \<in> set (one s)" "t \<in> set snaps" "b \<in> set (one t)" "series a = series b"
      by auto
    then have "labels_of s = labels_of t"
      using one_labels [OF ab(1)] one_labels [OF ab(3)] by (simp add: series_def)
    then have "ident s = ident t" by (rule labels_ident)
    with ab(2) Cons.prems show False by auto
  qed
  ultimately show ?case using Cons by simp
qed simp

lemma scrape_length: "length (concat (map one snaps)) = length descs * length snaps"
proof (induction snaps)
  case (Cons s snaps)
  have "length (one s) = length descs" using arg_cong [OF one_descs [of s], of length] by simp
  with Cons show ?case by simp
qed simp

lemma scrape_described: "mt \<in> set (concat (map one snaps)) \<Longrightarrow> mt_desc mt \<in> set descs"
proof -
  assume "mt \<in> set (concat (map one snaps))"
  then obtain s where "mt \<in> set (one s)" by auto
  then have "mt_desc mt \<in> set (map mt_desc (one s))" by simp
  then show ?thesis by (simp only: one_descs)
qed

end

interpretation rocm: prom_collector "allDescs NewCollector" "collect_one NewCollector" snapshot_labels sn_GPUID
  by unfold_locales
     (auto simp: allDescs_def NewCollector_def desc_def collect_one_def snapshot_labels_def)

lemma Collect_distinct:
  "distinct (map sn_GPUID snaps) \<Longrightarrow> distinct (map series (Collect NewCollector snaps))"
  unfolding Collect_def by (rule rocm.scrape_distinct)

lemma Collect_length: "length (Collect NewCollector snaps) = 10 * length snaps"
  using rocm.scrape_length [of snaps] by (simp add: Collect_def allDescs_def)

lemma Collect_described: "mt \<in> set (Collect NewCollector snaps) \<Longrightarrow> mt_desc mt \<in> set (Describe NewCollector)"
  unfolding Collect_def Describe_def by (rule rocm.scrape_described)

lemma Collect_labels_arity:
  "mt \<in> set (Collect NewCollector snaps) \<Longrightarrow> length (mt_labels mt) = length (d_labels (mt_desc mt))"
  by (auto simp: Collect_def collect_one_def Let_def snapshot_labels_def NewCollector_def desc_def labelNames_def)

end
