(* ===== verification/Exporter.thy ===== *)
theory Exporter
  imports Annotations Status_Updater Metrics
begin

text \<open>
  The metrics-exporter (\<open>internal/exporter\<close>): the cache of cluster state (\<open>cache.go\<close>) that a
  background loop refreshes, and the samplers (\<open>run.go\<close>) that turn the cached state into one
  snapshot per GPU on every scrape. The cache's lock makes a refresh and a scrape atomic steps.
\<close>

section \<open>The cache\<close>

record worldState =
  topo :: Topology
  podRanges :: "string \<rightharpoonup> Range"

definition initial_state :: worldState where
  "initial_state = \<lparr>topo = Empty, podRanges = Map.empty\<rparr>"

definition range_key :: "string \<Rightarrow> string \<Rightarrow> string" where
  "range_key ns name = ns @ ''/'' @ name"

text \<open>
  The range of a fetched pod: a malformed annotation falls back to the default range, and a
  malformed default to the zero range that the failed parse returns.
\<close>

definition pod_range :: "string \<Rightarrow> Pod \<Rightarrow> Range" where
  "pod_range defaultUtil pod =
     (case ParseUtilizationWithDefault (map_get (p_annotations pod) UtilizationAnnotation) defaultUtil of
        Inr r \<Rightarrow> r
      | Inl _ \<Rightarrow> (case ParseUtilizationWithDefault [] defaultUtil of Inr r \<Rightarrow> r | Inl _ \<Rightarrow> zero_range))"

text \<open>The loop of \<open>Refresh\<close> over the assignments of the exporter's node.\<close>

fun collect_ranges ::
  "(key \<Rightarrow> 'w \<Rightarrow> api_error + Pod) \<Rightarrow> string \<Rightarrow> 'w \<Rightarrow> Assignment list \<Rightarrow> (string \<rightharpoonup> Range) \<Rightarrow>
   (string \<rightharpoonup> Range)" where
  "collect_ranges get defaultUtil w [] m = m"
| "collect_ranges get defaultUtil w (a # as) m =
     (let key = range_key (PodNamespace a) (PodName a) in
      if m key \<noteq> None then collect_ranges get defaultUtil w as m
      else case get (PodNamespace a, PodName a) w of
        Inl _ \<Rightarrow> collect_ranges get defaultUtil w as m
      | Inr pod \<Rightarrow> collect_ranges get defaultUtil w as (m(key \<mapsto> pod_range defaultUtil pod)))"

definition Refresh ::
  "('w \<Rightarrow> 'e + Topology) \<Rightarrow> (key \<Rightarrow> 'w \<Rightarrow> api_error + Pod) \<Rightarrow> string \<Rightarrow> string \<Rightarrow> 'w \<Rightarrow>
   worldState \<Rightarrow> worldState" where
  "Refresh load get defaultUtil hostname w st =
     (case load w of
        Inl _ \<Rightarrow> st
      | Inr tp \<Rightarrow>
          \<lparr>topo = tp, podRanges = collect_ranges get defaultUtil w (nodes_of tp hostname) Map.empty\<rparr>)"

text \<open>The background loop: one refresh at the start and one per tick, each in the world of its time.\<close>

fun run_cache ::
  "('w \<Rightarrow> 'e + Topology) \<Rightarrow> (key \<Rightarrow> 'w \<Rightarrow> api_error + Pod) \<Rightarrow> string \<Rightarrow> string \<Rightarrow> 'w list \<Rightarrow>
   worldState \<Rightarrow> worldState" where
  "run_cache load get defaultUtil hostname [] st = st"
| "run_cache load get defaultUtil hostname (w # ws) st =
     run_cache load get defaultUtil hostname ws (Refresh load get defaultUtil hostname w st)"

section \<open>The samplers\<close>

definition snapshot_of ::
  "GPU \<Rightarrow> string \<Rightarrow> string \<Rightarrow> string \<Rightarrow> string \<Rightarrow> Sample \<Rightarrow> Snapshot" where
  "snapshot_of g hostname ns pod container s =
     \<lparr>sn_GPUID = ID g, sn_SerialNumber = SerialNumber g, sn_CardSeries = CardSeries g,
      sn_CardModel = CardModel g, sn_Hostname = hostname, sn_Pod = pod, sn_Namespace = ns,
      sn_Container = container, sn_PartitionMode = PartitionMode g, sn_PartitionID = PartitionID g,
      sn_JunctionTemp = JunctionTemp s, sn_PackagePower = PackagePower s,
      sn_GfxActivity = GfxActivity s, sn_UsedVRAM = UsedVRAM s, sn_TotalVRAM = TotalVRAM s,
      sn_ClockGfx = ClockGfx s, sn_Voltage = Voltage s, sn_FanSpeed = FanSpeed s,
      sn_PCIeBandwidth = PCIeBandwidth s, sn_Health = Health s\<rparr>"

definition snapshotFromIdle :: "GPU \<Rightarrow> string \<Rightarrow> Snapshot" where
  "snapshotFromIdle g hostname = snapshot_of g hostname [] [] [] (SampleIdle g)"

definition snapshotFromLoaded ::
  "GPU \<Rightarrow> string \<Rightarrow> string \<Rightarrow> string \<Rightarrow> string \<Rightarrow> Sample \<Rightarrow> Snapshot" where
  "snapshotFromLoaded g hostname ns pod container s = snapshot_of g hostname ns pod container s"

definition idleSampler :: "GPU list \<Rightarrow> string \<Rightarrow> Snapshot list" where
  "idleSampler gpus hostname = map (\<lambda>g. snapshotFromIdle g hostname) gpus"

text \<open>A missing range reads as the zero range.\<close>

definition range_at :: "worldState \<Rightarrow> string \<Rightarrow> Range" where
  "range_at st key = (case podRanges st key of None \<Rightarrow> zero_range | Some r \<Rightarrow> r)"

text \<open>The loop of \<open>topologySampler\<close>; the generator is threaded through the loaded GPUs.\<close>

fun topologySampler :: "worldState \<Rightarrow> GPU list \<Rightarrow> string \<Rightarrow> rng \<Rightarrow> Snapshot list" where
  "topologySampler st [] hostname rng = []"
| "topologySampler st (g # gs) hostname rng =
     (case FindAssignment (topo st) hostname (ID g) of
        None \<Rightarrow> snapshotFromIdle g hostname # topologySampler st gs hostname rng
      | Some a \<Rightarrow>
          let (util, rng1) = Range_Sample (range_at st (range_key (PodNamespace a) (PodName a))) rng;
              (sample, rng2) = SampleLoaded g util rng1
          in snapshotFromLoaded g hostname (PodNamespace a) (PodName a) (Container a) sample #
             topologySampler st gs hostname rng2)"

section \<open>The ranges the cache can hold\<close>

definition ranges_classified :: "worldState \<Rightarrow> bool" where
  "ranges_classified st \<longleftrightarrow> (\<forall>k r. podRanges st k = Some r \<longrightarrow> range_ok r \<or> range_nan r)"

lemma zero_range_ok: "range_ok zero_range"
  by (simp add: range_ok_def zero_range_def)

lemma pod_range_classified: "range_ok (pod_range d pod) \<or> range_nan (pod_range d pod)"
  using parse_range_classified zero_range_ok
  by (auto simp: pod_range_def split: sum.splits)

lemma collect_ranges_origin:
  "collect_ranges get d w as m k = Some r \<Longrightarrow>
   m k = Some r \<or> (\<exists>a \<in> set as. \<exists>pod. get (PodNamespace a, PodName a) w = Inr pod \<and>
     k = range_key (PodNamespace a) (PodName a) \<and> r = pod_range d pod)"
proof (induction as arbitrary: m)
  case (Cons a as)
  show ?case
    using Cons.prems Cons.IH by (fastforce simp: Let_def split: if_splits sum.splits)
qed simp

lemma Refresh_classified:
  "ranges_classified st \<Longrightarrow> ranges_classified (Refresh load get d host w st)"
  using pod_range_classified
  by (fastforce simp: Refresh_def ranges_classified_def dest: collect_ranges_origin split: sum.splits)

lemma run_cache_classified:
  "ranges_classified st \<Longrightarrow> ranges_classified (run_cache load get d host ws st)"
  by (induction ws arbitrary: st) (simp_all add: Refresh_classified)

lemma initial_classified [simp]: "ranges_classified initial_state"
  by (simp add: ranges_classified_def initial_state_def)

text \<open>The range of every fetched pod is found under its own key, when namespaces hold no slash.\<close>

lemma range_key_inj:
  assumes "range_key ns n = range_key ns' n'" "CHR ''/'' \<notin> set ns" "CHR ''/'' \<notin> set ns'"
  shows "ns = ns' \<and> n = n'"
proof -
  have "cut_at (CHR ''/'') (range_key ns n) = Some (ns, n)"
    using assms(2) by (simp add: range_key_def cut_at_append)
  moreover have "cut_at (CHR ''/'') (range_key ns' n') = Some (ns', n')"
    using assms(3) by (simp add: range_key_def cut_at_append)
  ultimately have "Some (ns, n) = Some (ns', n')" by (simp only: assms(1))
  then show ?thesis by simp
qed

lemma collect_ranges_keep: "m k = Some r \<Longrightarrow> collect_ranges get d w as m k = Some r"
proof (induction as arbitrary: m)
  case (Cons a as)
  have "(m(range_key (PodNamespace a) (PodName a) \<mapsto> x)) k = Some r"
    if "m (range_key (PodNamespace a) (PodName a)) = None" for x
    using that Cons.prems by auto
  with Cons show ?case by (auto simp: Let_def simp del: fun_upd_apply split: sum.splits)
qed simp

lemma collect_ranges_fetch:
  assumes "a \<in> set as" "get (PodNamespace a, PodName a) w = Inr pod"
    and "\<forall>b \<in> set as. CHR ''/'' \<notin> set (PodNamespace b)"
    and "m (range_key (PodNamespace a) (PodName a)) = None"
  shows "collect_ranges get d w as m (range_key (PodNamespace a) (PodName a)) = Some (pod_range d pod)"
  using assms
proof (induction as arbitrary: m)
  case (Cons b as)
  let ?k = "range_key (PodNamespace a) (PodName a)" and ?kb = "range_key (PodNamespace b) (PodName b)"
  have slash: "CHR ''/'' \<notin> set (PodNamespace a)" "CHR ''/'' \<notin> set (PodNamespace b)"
    using Cons.prems by auto
  show ?case
  proof (cases "?kb = ?k")
    case True
    then have "PodNamespace b = PodNamespace a \<and> PodName b = PodName a"
      using slash by (intro range_key_inj)
    with Cons.prems show ?thesis by (simp add: Let_def collect_ranges_keep)
  next
    case False
    with Cons.prems have "a \<in> set as" by auto
    with Cons False show ?thesis by (auto simp: Let_def split: sum.splits)
  qed
qed simp

section \<open>One snapshot per GPU\<close>

lemma topologySampler_ids:
  "map sn_GPUID (topologySampler st gs host rng) = map ID gs"
  by (induction gs arbitrary: rng)
    (simp_all add: snapshotFromIdle_def snapshotFromLoaded_def snapshot_of_def split: option.splits prod.splits)

lemma idleSampler_ids: "map sn_GPUID (idleSampler gs host) = map ID gs"
  by (simp add: idleSampler_def snapshotFromIdle_def snapshot_of_def comp_def)

text \<open>The pod labels of a snapshot are those of the assignment the topology has for its GPU.\<close>

definition attributed :: "worldState \<Rightarrow> string \<Rightarrow> GPU \<Rightarrow> Snapshot \<Rightarrow> bool" where
  "attributed st host g s \<longleftrightarrow>
     (case FindAssignment (topo st) host (ID g) of
        None \<Rightarrow> s = snapshotFromIdle g host
      | Some a \<Rightarrow> sn_Pod s = PodName a \<and> sn_Namespace s = PodNamespace a \<and> sn_Container s = Container a)"

lemma topologySampler_attributed:
  "list_all2 (attributed st host) gs (topologySampler st gs host rng)"
  by (induction gs arbitrary: rng)
    (simp_all add: attributed_def snapshotFromLoaded_def snapshot_of_def split: option.splits prod.splits)

section \<open>Gauge bounds of a scrape\<close>

definition snapshot_bounded :: "GPU \<Rightarrow> Snapshot \<Rightarrow> bool" where
  "snapshot_bounded g s \<longleftrightarrow>
     between 35 96 (sn_JunctionTemp s) \<and> between 30 300 (sn_PackagePower s) \<and>
     between 0 100 (sn_GfxActivity s) \<and> between 500 1700 (sn_ClockGfx s) \<and>
     between 800 1200 (sn_Voltage s) \<and> between 20 80 (sn_FanSpeed s) \<and>
     between 100 8100 (sn_PCIeBandwidth s) \<and> sn_Health s = 1 \<and>
     (\<exists>t. sn_TotalVRAM s = Fin t \<and> between 0 t (sn_UsedVRAM s))"

lemma idle_bounded:
  assumes "0 \<le> MemoryTotal g" "MemoryTotal g < 2 ^ 63"
  shows "snapshot_bounded g (snapshotFromIdle g host)"
proof -
  obtain t where "float_of_int64 (MemoryTotal g) = Fin t" "0 \<le> t"
    using assms by (rule float_of_int64_between)
  then show ?thesis
    by (simp add: snapshot_bounded_def snapshotFromIdle_def snapshot_of_def SampleIdle_def)
qed

lemma loaded_bounded:
  assumes "gauges_ok g s"
  shows "snapshot_bounded g (snapshotFromLoaded g host ns pod c s)"
proof -
  have "between 35 96 (JunctionTemp s)" "between 30 300 (PackagePower s)"
    using assms by (auto simp: gauges_ok_def intro: between_weaken)
  with assms show ?thesis
    by (simp add: snapshot_bounded_def snapshotFromLoaded_def snapshot_of_def gauges_ok_def) metis
qed

lemma topologySampler_bounded:
  assumes "\<forall>k r. podRanges st k = Some r \<longrightarrow> range_ok r"
    and "\<forall>g \<in> set gs. 0 \<le> MemoryTotal g \<and> MemoryTotal g < 2 ^ 63" and "rng_ok rng"
  shows "list_all2 snapshot_bounded gs (topologySampler st gs host rng)"
  using assms(2,3)
proof (induction gs arbitrary: rng)
  case (Cons g gs)
  show ?case
  proof (cases "FindAssignment (topo st) host (ID g)")
    case None
    with Cons show ?thesis by (simp add: idle_bounded)
  next
    case (Some a)
    let ?r = "range_at st (range_key (PodNamespace a) (PodName a))"
    have "range_ok ?r"
      using assms(1) zero_range_ok by (auto simp: range_at_def split: option.splits)
    then obtain u rng1 where u: "Range_Sample ?r rng = (Fin u, rng1)" "rng_ok rng1"
      using Cons.prems(2) Sample_proper by blast
    obtain s rng2 where s: "SampleLoaded g (Fin u) rng1 = (s, rng2)" by (meson surj_pair)
    have "gauges_ok g s" "rng_ok rng2"
      using SampleLoaded_gauges_ok [of "Fin u" rng1 g] u(2) Cons.prems(1) s by simp_all
    with Some u s Cons show ?thesis by (simp add: loaded_bounded)
  qed
qed simp

section \<open>Properties\<close>

text \<open>
  Cache invariant: after any number of refreshes, in any worlds and with any failures between them,
  every cached utilisation range is a proper range or one with a NaN bound.
\<close>

lemma cache_ranges_classified:
  "list_all (\<lambda>k. case podRanges (run_cache load get d host ws initial_state) k of
      None \<Rightarrow> True | Some r \<Rightarrow> range_ok r \<or> range_nan r) ks"
proof -
  have "ranges_classified (run_cache load get d host ws initial_state)"
    by (rule run_cache_classified) simp
  then show ?thesis by (auto simp: ranges_classified_def list_all_iff split: option.splits)
qed

text \<open>
  After a refresh that loaded the topology, the range cached for an assigned pod that could be
  fetched is the one its annotation declares, or the default one when the annotation is malformed.
\<close>

lemma refresh_caches_annotation:
  assumes "load w = Inr tp" "a \<in> set (nodes_of tp host)" "get (PodNamespace a, PodName a) w = Inr pod"
    and "\<forall>b \<in> set (nodes_of tp host). CHR ''/'' \<notin> set (PodNamespace b)"
  shows "range_at (Refresh load get d host w st) (range_key (PodNamespace a) (PodName a)) = pod_range d pod"
  using assms collect_ranges_fetch [of a "nodes_of tp host" get w pod Map.empty d]
  by (simp add: Refresh_def range_at_def)

lemma refresh_caches_annotation_witness:
  "range_at (Refresh (\<lambda>_. Inr (build_topology [annotated_pod]) :: string + Topology) srv_get ''20-30'' ''node-1''
     demo_pods initial_state) ''default/train'' = pod_range ''20-30'' demo_pod"
proof -
  let ?a = "\<lparr>GPUID = ''gpu-0'', PodNamespace = ''default'', PodName = ''train'', Container = ''main''\<rparr>"
  have "nodes_of (build_topology [annotated_pod]) ''node-1'' =
      [?a, ?a\<lparr>GPUID := ''gpu-1''\<rparr>]"
  proof -
    have "annotated_ids annotated_pod = [''gpu-0'', ''gpu-1'']"
      by (rule annotated_ids_join) (auto simp: annotated_pod_def plain_id_def visible_def)
    then show ?thesis
      by (simp add: nodes_of_build pod_assignments_def assignment_for_def annotated_pod_def set_annotation_def
          demo_pod_def firstGPUContainer_def hasGPURequest_def amdGPUResource_def)
  qed
  moreover have "srv_get (''default'', ''train'') demo_pods = Inr demo_pod"
    by (simp add: srv_get_def demo_pods_def)
  ultimately have "range_at (Refresh (\<lambda>_. Inr (build_topology [annotated_pod]) :: string + Topology) srv_get
      ''20-30'' ''node-1'' demo_pods initial_state) (range_key (PodNamespace ?a) (PodName ?a)) =
      pod_range ''20-30'' demo_pod"
    by (intro refresh_caches_annotation [where tp = "build_topology [annotated_pod]"]) auto
  then show ?thesis by (simp add: range_key_def)
qed


text \<open>
  Gauge safety of a scrape: over the cached state of any refresh history whose ranges hold no NaN,
  every gauge of every GPU is a number within its band, and used memory never exceeds the total.
\<close>

lemma scrape_in_band:
  assumes "st = run_cache load get d host' ws initial_state"
    and "\<forall>k r. podRanges st k = Some r \<longrightarrow> \<not> range_nan r"
    and "\<forall>g \<in> set gs. 0 \<le> MemoryTotal g \<and> MemoryTotal g < 2 ^ 63" "rng_ok rng"
  shows "list_all2 snapshot_bounded gs (topologySampler st gs host rng)"
proof (rule topologySampler_bounded [OF _ assms(3,4)])
  have "ranges_classified st" unfolding assms(1) by (rule run_cache_classified) simp
  with assms(2) show "\<forall>k r. podRanges st k = Some r \<longrightarrow> range_ok r"
    by (auto simp: ranges_classified_def)
qed

lemma scrape_in_band_witness:
  "list_all2 snapshot_bounded [gpu_at ''n'' ''MI300X'' 64 ''spx'' 1 0 0]
     (topologySampler initial_state [gpu_at ''n'' ''MI300X'' 64 ''spx'' 1 0 0] ''n'' (\<lambda>_. 1 / 2))"
  by (rule scrape_in_band [where ws = "[]"])
     (simp_all add: initial_state_def gpu_at_def rng_ok_const_half)

text \<open>
  C36. A scrape of the inventory is accepted by the registry: it has ten metrics per GPU and no two of
  them share name and label values, whatever the cached state is.
\<close>

theorem scrape_series_unique:
  assumes "BuildGPUs hostname product mem n mode0 count0 = Some gs"
    and "norm_partition mode0 count0 = (mode, count)" "0 \<le> n" "n * count < 2 ^ 63"
  shows "distinct (map series (Collect NewCollector (topologySampler st gs host rng))) \<and>
    length (Collect NewCollector (topologySampler st gs host rng)) = 10 * length gs"
proof -
  have ids: "map sn_GPUID (topologySampler st gs host rng) = map ID gs" by (rule topologySampler_ids)
  then have "length (topologySampler st gs host rng) = length gs" by (metis length_map)
  moreover have "distinct (map sn_GPUID (topologySampler st gs host rng))"
    unfolding ids by (rule BuildGPUs_distinct_ids [OF assms])
  ultimately show ?thesis by (simp add: Collect_distinct Collect_length)
qed

theorem scrape_series_unique_witness:
  "\<exists>gs. BuildGPUs ''node-1'' ''MI300X'' 64 2 ''cpx'' 4 = Some gs \<and>
     distinct (map series (Collect NewCollector (topologySampler initial_state gs ''node-1'' (\<lambda>_. 1 / 2))))"
proof -
  obtain gs where gs: "BuildGPUs ''node-1'' ''MI300X'' 64 2 ''cpx'' 4 = Some gs" using demo_gpus by blast
  have np: "norm_partition ''cpx'' 4 = (''cpx'', 4)" by code_simp
  have "(0::int) \<le> 2" "(2::int) * 4 < 2 ^ 63" by simp_all
  from scrape_series_unique [OF gs np this] gs show ?thesis by blast
qed

end
