(* ===== verification/Dcgm_Extras.thy ===== *)
theory Dcgm_Extras
  imports Annotations Pods Metrics
begin

text \<open>
  The NVIDIA sidecar \<open>fake-dcgm-extras\<close>: the cache of the node's GPU pods (\<open>internal/exporter/cache.go\<close>),
  the sampler that gives pod \<open>i\<close> to GPU slot \<open>i\<close> (\<open>internal/exporter/sample.go\<close>), the fallback sampler
  (\<open>run.go\<close>), and the collector of the DCGM gauges (\<open>pkg/dcgm/registry.go\<close>).
\<close>

definition dcgm_utilizationAnnotation :: string where
  "dcgm_utilizationAnnotation = ''run.ai/simulated-gpu-utilization''"

definition gpuRequestName :: string where "gpuRequestName = ''nvidia.com/gpu''"

section \<open>The cache\<close>

record nodeAssignment =
  na_PodName :: string
  na_Namespace :: string
  na_Container :: string
  na_Util :: string

text \<open>The loop of \<open>Refresh\<close> over the pods bound to the node.\<close>

fun gpu_assignments :: "Pod list \<Rightarrow> nodeAssignment list" where
  "gpu_assignments [] = []"
| "gpu_assignments (p # pods) =
     (let container = firstGPUContainer gpuRequestName p in
      if container = [] then gpu_assignments pods
      else \<lparr>na_PodName = p_name p, na_Namespace = p_namespace p, na_Container = container,
            na_Util = map_get (p_annotations p) dcgm_utilizationAnnotation\<rparr> # gpu_assignments pods)"

text \<open>\<open>list_pods\<close> lists the pods whose \<open>spec.nodeName\<close> is the given one.\<close>

definition dcgm_Refresh ::
  "(string \<Rightarrow> 'w \<Rightarrow> api_error + Pod list) \<Rightarrow> string \<Rightarrow> 'w \<Rightarrow> nodeAssignment list \<Rightarrow> nodeAssignment list" where
  "dcgm_Refresh list_pods hostname w assignments =
     (case list_pods hostname w of Inl _ \<Rightarrow> assignments | Inr pods \<Rightarrow> gpu_assignments pods)"

fun dcgm_run_cache ::
  "(string \<Rightarrow> 'w \<Rightarrow> api_error + Pod list) \<Rightarrow> string \<Rightarrow> 'w list \<Rightarrow> nodeAssignment list \<Rightarrow> nodeAssignment list" where
  "dcgm_run_cache list_pods hostname [] st = st"
| "dcgm_run_cache list_pods hostname (w # ws) st =
     dcgm_run_cache list_pods hostname ws (dcgm_Refresh list_pods hostname w st)"

section \<open>The samplers\<close>

record gpuIdentity =
  Index :: int
  UUID :: string
  gi_Device :: string
  ModelName :: string
  MigProfile :: string

text \<open>\<open>None\<close> is the panic of \<open>make\<close>; an identity takes 72 bytes.\<close>

definition buildIdentities :: "string \<Rightarrow> string \<Rightarrow> string \<Rightarrow> int \<Rightarrow> gpuIdentity list option" where
  "buildIdentities hostname productName migProfile n =
     (if \<not> make_ok 72 n then None
      else Some (map (\<lambda>i. \<lparr>Index = i, UUID = ''GPU-sim-'' @ hostname @ ''-'' @ pad2 i,
                          gi_Device = ''nvidia'' @ itoa i, ModelName = productName, MigProfile = migProfile\<rparr>)
                  (go_range n)))"

record DcgmSnapshot =
  dg_GPU :: string
  dg_UUID :: string
  dg_Device :: string
  dg_ModelName :: string
  dg_MigProfile :: string
  dg_Hostname :: string
  dg_Pod :: string
  dg_Namespace :: string
  dg_Container :: string
  GPUTemp :: f64
  PowerUsage :: f64
  SMClock :: f64
  MemClock :: f64
  PCIeTXThroughput :: f64
  PCIeRXThroughput :: f64
  dg_FanSpeed :: f64
  ECCSBETotal :: f64
  ECCDBETotal :: f64
  TensorPipeActive :: f64

text \<open>The constants of \<open>sample.go\<close>; Go keeps untyped constants exact.\<close>

definition idleTempC :: rat where [simp]: "idleTempC = 30"
definition tempPerUtil :: rat where [simp]: "tempPerUtil = 55 / 100"
definition tempOffset :: rat where [simp]: "tempOffset = 40"
definition idlePowerW :: rat where [simp]: "idlePowerW = 50"
definition powerPerUtil :: rat where [simp]: "powerPerUtil = 5 / 2"
definition idleSMClockMHz :: rat where [simp]: "idleSMClockMHz = 600"
definition smClockPerUtil :: rat where [simp]: "smClockPerUtil = 13"
definition memClockMHz :: rat where [simp]: "memClockMHz = 5500"
definition idlePCIeThroughput :: rat where [simp]: "idlePCIeThroughput = 100"
definition pciePerUtil :: rat where [simp]: "pciePerUtil = 80"
definition idleFanSpeed :: rat where [simp]: "idleFanSpeed = 20"
definition fanPerUtil :: rat where [simp]: "fanPerUtil = 6 / 10"

text \<open>The snapshot with its identity fields set and the other fields at their zero values.\<close>

definition identity_snapshot :: "gpuIdentity \<Rightarrow> string \<Rightarrow> DcgmSnapshot" where
  "identity_snapshot g hostname =
     \<lparr>dg_GPU = itoa (Index g), dg_UUID = UUID g, dg_Device = gi_Device g, dg_ModelName = ModelName g,
      dg_MigProfile = MigProfile g, dg_Hostname = hostname, dg_Pod = [], dg_Namespace = [],
      dg_Container = [], GPUTemp = Fin 0, PowerUsage = Fin 0, SMClock = Fin 0, MemClock = Fin memClockMHz,
      PCIeTXThroughput = Fin 0, PCIeRXThroughput = Fin 0, dg_FanSpeed = Fin 0,
      ECCSBETotal = Fin 0, ECCDBETotal = Fin 0, TensorPipeActive = Fin 0\<rparr>"

definition fillIdle :: "DcgmSnapshot \<Rightarrow> DcgmSnapshot" where
  "fillIdle s = s\<lparr>GPUTemp := Fin idleTempC, PowerUsage := Fin idlePowerW, SMClock := Fin idleSMClockMHz,
     PCIeTXThroughput := Fin idlePCIeThroughput, PCIeRXThroughput := Fin idlePCIeThroughput, dg_FanSpeed := Fin idleFanSpeed,
     TensorPipeActive := Fin 0\<rparr>"

definition fillLoaded :: "DcgmSnapshot \<Rightarrow> f64 \<Rightarrow> rng \<Rightarrow> DcgmSnapshot \<times> rng" where
  "fillLoaded s util rng0 =
     (let (r, rng1) = rng_float64 rng0;
          jitter = f_sub (f_mul r (Fin 2)) (Fin 1)
      in (s\<lparr>GPUTemp := f_add (linear tempOffset util tempPerUtil) jitter,
            PowerUsage := linear idlePowerW util powerPerUtil,
            SMClock := linear idleSMClockMHz util smClockPerUtil,
            PCIeTXThroughput := linear idlePCIeThroughput util pciePerUtil,
            PCIeRXThroughput := linear idlePCIeThroughput util pciePerUtil,
            dg_FanSpeed := linear idleFanSpeed util fanPerUtil,
            TensorPipeActive := f_mul (f_div_const util 100) (f_const (7 / 10))\<rparr>, rng1))"

text \<open>The bounds \<open>sampleUtil\<close> draws between: the parsed ones when they pass, 5 and 15 otherwise.\<close>

definition util_bounds :: "string \<Rightarrow> f64 \<times> f64" where
  "util_bounds raw =
     (if raw = [] then (Fin 5, Fin 15)
      else case split_n2 (CHR ''-'') raw of
        [a, b] \<Rightarrow>
          (case parse_float (trim_space a) of
             Inl _ \<Rightarrow> (Fin 5, Fin 15)
           | Inr l \<Rightarrow>
               (case parse_float (trim_space b) of
                  Inl _ \<Rightarrow> (Fin 5, Fin 15)
                | Inr h \<Rightarrow>
                    if f_le (Fin 0) l \<and> f_le h (Fin 100) \<and> f_le l h then (l, h) else (Fin 5, Fin 15)))
      | _ \<Rightarrow> (Fin 5, Fin 15))"

definition sampleUtil :: "string \<Rightarrow> rng \<Rightarrow> f64 \<times> rng" where
  "sampleUtil raw g =
     (let (low, high) = util_bounds raw in
      if f_eq low high then (low, g)
      else let (f, g') = rng_float64 g in (f_add low (f_mul f (f_sub high low)), g'))"

text \<open>The loop of \<open>buildSampler\<close> from slot \<open>i\<close> on.\<close>

fun sample_slots ::
  "nodeAssignment list \<Rightarrow> string \<Rightarrow> nat \<Rightarrow> gpuIdentity list \<Rightarrow> rng \<Rightarrow> DcgmSnapshot list" where
  "sample_slots assignments hostname i [] rng = []"
| "sample_slots assignments hostname i (g # gs) rng =
     (let snap = identity_snapshot g hostname in
      if i < length assignments then
        let a = assignments ! i;
            (util, rng1) = sampleUtil (na_Util a) rng;
            (snap', rng2) = fillLoaded (snap\<lparr>dg_Pod := na_PodName a, dg_Namespace := na_Namespace a,
                                             dg_Container := na_Container a\<rparr>) util rng1
        in snap' # sample_slots assignments hostname (Suc i) gs rng2
      else fillIdle snap # sample_slots assignments hostname (Suc i) gs rng)"

definition buildSampler :: "nodeAssignment list \<Rightarrow> gpuIdentity list \<Rightarrow> string \<Rightarrow> rng \<Rightarrow> DcgmSnapshot list" where
  "buildSampler assignments gpus hostname rng = sample_slots assignments hostname 0 gpus rng"

definition idleOnly :: "gpuIdentity list \<Rightarrow> string \<Rightarrow> DcgmSnapshot list" where
  "idleOnly gpus hostname = map (\<lambda>g. fillIdle (identity_snapshot g hostname)) gpus"

section \<open>The collector\<close>

definition dcgm_labelNames :: "string list" where
  "dcgm_labelNames =
     [''gpu'', ''UUID'', ''device'', ''modelName'', ''Hostname'', ''migProfile'',
      ''pod'', ''namespace'', ''container'']"

definition dcgm_desc :: "string \<Rightarrow> string \<Rightarrow> Desc" where
  "dcgm_desc name help = \<lparr>d_name = name, d_help = help, d_labels = dcgm_labelNames\<rparr>"

record DcgmCollector =
  gpuTemp :: Desc
  powerUsage :: Desc
  smClock :: Desc
  memClock :: Desc
  pcieTX :: Desc
  pcieRX :: Desc
  dc_fanSpeed :: Desc
  eccSBETotal :: Desc
  eccDBETotal :: Desc
  tensorPipeActive :: Desc

definition NewDcgmCollector :: DcgmCollector where
  "NewDcgmCollector =
     \<lparr>gpuTemp = dcgm_desc ''DCGM_FI_DEV_GPU_TEMP'' ''GPU temperature in degrees Celsius.'',
      powerUsage = dcgm_desc ''DCGM_FI_DEV_POWER_USAGE'' ''Power draw in Watts.'',
      smClock = dcgm_desc ''DCGM_FI_DEV_SM_CLOCK'' ''SM (graphics) clock in MHz.'',
      memClock = dcgm_desc ''DCGM_FI_DEV_MEM_CLOCK'' ''Memory clock in MHz.'',
      pcieTX = dcgm_desc ''DCGM_FI_DEV_PCIE_TX_THROUGHPUT'' ''PCIe transmit throughput in KB/s.'',
      pcieRX = dcgm_desc ''DCGM_FI_DEV_PCIE_RX_THROUGHPUT'' ''PCIe receive throughput in KB/s.'',
      dc_fanSpeed = dcgm_desc ''DCGM_FI_DEV_FAN_SPEED'' ''Fan speed as percent of max.'',
      eccSBETotal = dcgm_desc ''DCGM_FI_DEV_ECC_SBE_VOL_TOTAL'' ''ECC single-bit volatile errors total (cumulative).'',
      eccDBETotal = dcgm_desc ''DCGM_FI_DEV_ECC_DBE_VOL_TOTAL'' ''ECC double-bit volatile errors total (cumulative).'',
      tensorPipeActive = dcgm_desc ''DCGM_FI_PROF_PIPE_TENSOR_ACTIVE''
        ''Fraction of cycles the tensor (HMMA) pipe was active, [0, 1].''\<rparr>"

definition dcgm_allDescs :: "DcgmCollector \<Rightarrow> Desc list" where
  "dcgm_allDescs c =
     [gpuTemp c, powerUsage c, smClock c, memClock c, pcieTX c, pcieRX c, dc_fanSpeed c,
      eccSBETotal c, eccDBETotal c, tensorPipeActive c]"

definition dcgm_Describe :: "DcgmCollector \<Rightarrow> Desc list" where
  "dcgm_Describe c = dcgm_allDescs c"

definition dcgm_labels :: "DcgmSnapshot \<Rightarrow> string list" where
  "dcgm_labels s =
     [dg_GPU s, dg_UUID s, dg_Device s, dg_ModelName s, dg_Hostname s, dg_MigProfile s,
      dg_Pod s, dg_Namespace s, dg_Container s]"

definition dcgm_collect_one :: "DcgmCollector \<Rightarrow> DcgmSnapshot \<Rightarrow> Metric list" where
  "dcgm_collect_one c s =
     (let m = (\<lambda>d v. \<lparr>mt_desc = d, mt_labels = dcgm_labels s, mt_value = v\<rparr>) in
      [m (gpuTemp c) (GPUTemp s), m (powerUsage c) (PowerUsage s), m (smClock c) (SMClock s),
       m (memClock c) (MemClock s), m (pcieTX c) (PCIeTXThroughput s), m (pcieRX c) (PCIeRXThroughput s),
       m (dc_fanSpeed c) (dg_FanSpeed s), m (eccSBETotal c) (ECCSBETotal s),
       m (eccDBETotal c) (ECCDBETotal s), m (tensorPipeActive c) (TensorPipeActive s)])"

definition dcgm_Collect :: "DcgmCollector \<Rightarrow> DcgmSnapshot list \<Rightarrow> Metric list" where
  "dcgm_Collect c snaps = concat (map (dcgm_collect_one c) snaps)"

interpretation dcgm: prom_collector "dcgm_allDescs NewDcgmCollector" "dcgm_collect_one NewDcgmCollector"
    dcgm_labels dg_GPU
  by unfold_locales
     (auto simp: dcgm_allDescs_def NewDcgmCollector_def dcgm_desc_def dcgm_collect_one_def dcgm_labels_def)

section \<open>The utilisation of a slot\<close>

definition util_range :: "string \<Rightarrow> Range" where
  "util_range raw = \<lparr>Low = fst (util_bounds raw), High = snd (util_bounds raw)\<rparr>"

lemma rep64_5_15 [simp]: "rep64 5" "rep64 15"
  using rep64_of_int [of 5] rep64_of_int [of 15] by simp_all

text \<open>Unlike the AMD parser this one lets no NaN through: its comparisons are the positive ones.\<close>

lemma f_le_pass:
  assumes "f_le (Fin 0) l" "f_le h (Fin 100)" "f_le l h" "f64_ok l" "f64_ok h"
  shows "range_ok \<lparr>Low = l, High = h\<rparr>"
  using assms by (cases l; cases h) (auto simp: range_ok_def f64_ok_def f_le_def f_eq_def)

lemma util_range_ok: "range_ok (util_range raw)"
proof -
  have d: "range_ok \<lparr>Low = Fin 5, High = Fin 15\<rparr>" by (simp add: range_ok_def)
  show ?thesis
    using d by (auto simp: util_range_def util_bounds_def intro: f_le_pass dest: parse_float_ok
        split: list.splits sum.splits)
qed

lemma f_eq_sym: "f_eq a b = f_eq b a"
  by (auto simp: f_eq_def)

lemma sampleUtil_Sample: "sampleUtil raw g = Range_Sample (util_range raw) g"
  by (simp add: sampleUtil_def Range_Sample_def util_range_def f_eq_sym case_prod_beta)

section \<open>Gauges\<close>

lemma dcgm_gauge_maxima:
  "rnd64 (600 + rnd64 (100 * rnd64 13)) = 1900"
  by code_simp

definition dcgm_bounded :: "DcgmSnapshot \<Rightarrow> bool" where
  "dcgm_bounded s \<longleftrightarrow>
     between 30 96 (GPUTemp s) \<and> between 50 300 (PowerUsage s) \<and> between 600 1900 (SMClock s) \<and>
     MemClock s = Fin 5500 \<and> between 100 8100 (PCIeTXThroughput s) \<and>
     PCIeRXThroughput s = PCIeTXThroughput s \<and> between 20 80 (dg_FanSpeed s) \<and>
     ECCSBETotal s = Fin 0 \<and> ECCDBETotal s = Fin 0 \<and> between 0 1 (TensorPipeActive s)"

lemma idle_dcgm_bounded: "dcgm_bounded (fillIdle (identity_snapshot g host))"
  by (simp add: dcgm_bounded_def fillIdle_def identity_snapshot_def)

lemma tensor_between:
  assumes "between 0 100 u" shows "between 0 1 (f_mul (f_div_const u 100) (f_const (7 / 10)))"
proof -
  obtain x where u: "u = Fin x" "0 \<le> x" "x \<le> 100" using assms by (rule betweenE)
  have "moderate (x / 100)" using u by (intro moderateI [of 0 _ 1]) simp_all
  moreover have "0 \<le> rnd64 (x / 100)" "rnd64 (x / 100) \<le> 1"
    using u by (auto intro: b64.rnd_ge b64.rnd_le)
  ultimately have "between 0 1 (f_div_const u 100)" by (simp add: u)
  moreover have "0 \<le> rnd64 (7 / 10)" "rnd64 (7 / 10) \<le> 1" by (rule b64.rnd_ge; simp) (rule b64.rnd_le; simp)
  then have "between 0 1 (f_const (7 / 10))" by (simp add: f_const_def moderate_def)
  ultimately show ?thesis using f_mul_between [of 1 _ 1] by simp
qed

lemma loaded_dcgm_bounded:
  assumes "between 0 100 u" "rng_ok rng" "MemClock s = Fin 5500" "ECCSBETotal s = Fin 0" "ECCDBETotal s = Fin 0"
  shows "dcgm_bounded (fst (fillLoaded s u rng))" "rng_ok (snd (fillLoaded s u rng))"
proof -
  have "between (40 + - 1) (95 + 1)
      (f_add (linear 40 u (55 / 100)) (f_sub (f_mul (fst (rng_float64 rng)) (Fin 2)) (Fin 1)))"
    using assms(1,2) by (intro f_add_between linear_between jitter_between gauge_maxima; simp)
  then have "between 30 96
      (f_add (linear 40 u (55 / 100)) (f_sub (f_mul (fst (rng_float64 rng)) (Fin 2)) (Fin 1)))"
    by (auto intro: between_weaken)
  moreover have "between 50 300 (linear 50 u (5 / 2))" "between 600 1900 (linear 600 u 13)"
    "between 20 80 (linear 20 u (6 / 10))" "between 100 8100 (linear 100 u 80)"
    using assms(1) by (intro linear_between gauge_maxima dcgm_gauge_maxima; simp)+
  ultimately show "dcgm_bounded (fst (fillLoaded s u rng))"
    using assms(3-5) tensor_between [OF assms(1)]
    by (simp add: dcgm_bounded_def fillLoaded_def Let_def case_prod_beta)
  show "rng_ok (snd (fillLoaded s u rng))"
    using assms(2) by (simp add: fillLoaded_def rng_float64_def Let_def)
qed

lemma sample_slots_bounded:
  "rng_ok rng \<Longrightarrow> list_all dcgm_bounded (sample_slots as host i gs rng)"
proof (induction gs arbitrary: i rng)
  case (Cons g gs)
  show ?case
  proof (cases "i < length as")
    case False
    with Cons show ?thesis by (simp add: idle_dcgm_bounded)
  next
    case True
    obtain u rng1 where u: "sampleUtil (na_Util (as ! i)) rng = (Fin u, rng1)" "rng_ok rng1" "0 \<le> u" "u \<le> 100"
      using util_range_ok [of "na_Util (as ! i)"] Cons.prems
      unfolding sampleUtil_Sample by (rule Sample_proper) blast
    let ?s = "(identity_snapshot g host)\<lparr>dg_Pod := na_PodName (as ! i), dg_Namespace := na_Namespace (as ! i),
       dg_Container := na_Container (as ! i)\<rparr>"
    obtain s' rng2 where s: "fillLoaded ?s (Fin u) rng1 = (s', rng2)" by fastforce
    have "dcgm_bounded s'" "rng_ok rng2"
      using loaded_dcgm_bounded [of "Fin u" rng1 ?s] u s by (simp_all add: identity_snapshot_def)
    with True u(1) s Cons.IH show ?thesis by simp
  qed
qed simp

section \<open>Slots\<close>

text \<open>What slot \<open>i\<close> of the scrape says about pods.\<close>

definition slot_labels :: "DcgmSnapshot \<Rightarrow> string \<times> string \<times> string \<times> string" where
  "slot_labels s = (dg_GPU s, dg_Pod s, dg_Namespace s, dg_Container s)"

lemma fill_labels [simp]:
  "slot_labels (fillIdle s) = slot_labels s" "slot_labels (fst (fillLoaded s u rng)) = slot_labels s"
  by (simp_all add: slot_labels_def fillIdle_def fillLoaded_def Let_def case_prod_beta)

lemma sample_slots_labels:
  "map slot_labels (sample_slots as host i gs rng) =
     map (\<lambda>(j, g). if j < length as
         then (itoa (Index g), na_PodName (as ! j), na_Namespace (as ! j), na_Container (as ! j))
         else (itoa (Index g), [], [], []))
       (zip [i..<i + length gs] gs)"
proof (induction gs arbitrary: i rng)
  case (Cons g gs)
  have z: "zip [i..<i + length (g # gs)] (g # gs) = (i, g) # zip [Suc i..<Suc i + length gs] gs"
    by (subst upt_conv_Cons) simp_all
  have id: "slot_labels (identity_snapshot g host) = (itoa (Index g), [], [], [])"
    "slot_labels ((identity_snapshot g host)\<lparr>dg_Pod := p, dg_Namespace := n, dg_Container := c\<rparr>) =
       (itoa (Index g), p, n, c)" for p n c
    by (simp_all add: slot_labels_def identity_snapshot_def)
  show ?case
    unfolding z
    by (simp add: Cons id case_prod_beta Let_def del: upt.simps)
qed simp

lemma sample_slots_gpus: "map dg_GPU (sample_slots as host i gs rng) = map (\<lambda>g. itoa (Index g)) gs"
proof (induction gs arbitrary: i rng)
  case (Cons g gs)
  have "dg_GPU (fst (fillLoaded s u r)) = dg_GPU s" "dg_GPU (fillIdle s) = dg_GPU s" for s u r
    by (simp_all add: fillLoaded_def fillIdle_def Let_def case_prod_beta)
  with Cons show ?case by (simp add: Let_def case_prod_beta identity_snapshot_def)
qed simp

lemma sample_slots_length [simp]: "length (sample_slots as host i gs rng) = length gs"
  using arg_cong [OF sample_slots_labels [of as host i gs rng], of length] by simp

lemma gpu_assignments_spec:
  "gpu_assignments pods =
     map (\<lambda>p. \<lparr>na_PodName = p_name p, na_Namespace = p_namespace p,
               na_Container = firstGPUContainer gpuRequestName p,
               na_Util = map_get (p_annotations p) dcgm_utilizationAnnotation\<rparr>)
       (filter (\<lambda>p. firstGPUContainer gpuRequestName p \<noteq> []) pods)"
  by (induction pods) (simp_all add: Let_def)

lemma buildIdentities_distinct:
  assumes "buildIdentities host product mig n = Some gs"
  shows "distinct (map (\<lambda>g. itoa (Index g)) gs)" "length gs = nat n"
  using assms by (auto simp: buildIdentities_def distinct_map inj_on_def split: if_splits)

section \<open>Properties\<close>

text \<open>
  Whatever the annotations of the pods are, NaN and garbage included, every gauge of every GPU slot
  that the sidecar reports is a number within its band.
\<close>

lemma dcgm_scrape_in_band:
  assumes "rng_ok rng"
  shows "list_all dcgm_bounded (buildSampler assignments gs host rng)"
  unfolding buildSampler_def by (rule sample_slots_bounded [OF assms])

lemma dcgm_scrape_in_band_witness:
  "list_all dcgm_bounded (buildSampler
     [\<lparr>na_PodName = ''p'', na_Namespace = ''n'', na_Container = ''c'', na_Util = ''nan-50''\<rparr>]
     [\<lparr>Index = 0, UUID = ''u'', gi_Device = ''nvidia0'', ModelName = ''T4'', MigProfile = []\<rparr>] ''node'' (\<lambda>_. 1 / 2))"
  by (rule dcgm_scrape_in_band [OF rng_ok_const_half])



text \<open>
  C38. The pods of a node fill its GPU slots in listing order, one slot per pod whatever number of GPUs
  it asked for; the remaining slots are idle and pods beyond the last slot are not reported.
\<close>

theorem dcgm_slots_in_order:
  "map slot_labels (buildSampler (dcgm_Refresh list_pods host w st) gs host rng) =
     map (\<lambda>(j, g).
         let as = (case list_pods host w of Inl _ \<Rightarrow> st | Inr pods \<Rightarrow>
             map (\<lambda>p. \<lparr>na_PodName = p_name p, na_Namespace = p_namespace p,
                       na_Container = firstGPUContainer gpuRequestName p,
                       na_Util = map_get (p_annotations p) dcgm_utilizationAnnotation\<rparr>)
               (filter (\<lambda>p. firstGPUContainer gpuRequestName p \<noteq> []) pods))
         in if j < length as
            then (itoa (Index g), na_PodName (as ! j), na_Namespace (as ! j), na_Container (as ! j))
            else (itoa (Index g), [], [], []))
       (zip [0..<length gs] gs)"
  using sample_slots_labels [of "dcgm_Refresh list_pods host w st" host 0 gs rng]
  by (simp only: buildSampler_def dcgm_Refresh_def gpu_assignments_spec Let_def add_0)

text \<open>
  A DCGM scrape is accepted by the registry: ten metrics per slot, no two with the same name and
  labels.
\<close>

lemma dcgm_series_unique:
  assumes "buildIdentities host product mig n = Some gs"
  shows "distinct (map series (dcgm_Collect NewDcgmCollector (buildSampler assignments gs host rng))) \<and>
    length (dcgm_Collect NewDcgmCollector (buildSampler assignments gs host rng)) = 10 * nat n"
proof -
  let ?snaps = "buildSampler assignments gs host rng"
  have "map dg_GPU ?snaps = map (\<lambda>g. itoa (Index g)) gs"
    unfolding buildSampler_def by (rule sample_slots_gpus)
  with buildIdentities_distinct(1) [OF assms] have "distinct (map dg_GPU ?snaps)" by simp
  then have "distinct (map series (dcgm_Collect NewDcgmCollector ?snaps))"
    unfolding dcgm_Collect_def by (rule dcgm.scrape_distinct)
  moreover have "length (dcgm_Collect NewDcgmCollector ?snaps) = 10 * nat n"
    using dcgm.scrape_length [of ?snaps] buildIdentities_distinct(2) [OF assms]
    by (simp add: dcgm_Collect_def dcgm_allDescs_def buildSampler_def)
  ultimately show ?thesis ..
qed

lemma dcgm_series_unique_witness:
  "\<exists>gs. buildIdentities ''node'' ''Tesla T4'' [] 2 = Some gs \<and>
     distinct (map series (dcgm_Collect NewDcgmCollector (buildSampler [] gs ''node'' (\<lambda>_. 1 / 2))))"
proof -
  have "(case buildIdentities ''node'' ''Tesla T4'' [] 2 of None \<Rightarrow> False | Some _ \<Rightarrow> True)"
    by code_simp
  then obtain gs where "buildIdentities ''node'' ''Tesla T4'' [] 2 = Some gs" by (auto split: option.splits)
  with dcgm_series_unique [OF this] show ?thesis by blast
qed

end
