(* ===== verification/Processes.thy ===== *)
theory Processes
  imports Go_Flag Workloads Device_Plugin Exporter Dcgm_Extras
begin

text \<open>
  The processes of the operators up to their main loops: \<open>cmd/fake-rocm-gpu-operator/main.go\<close> and the \<open>Run\<close>
  functions of its subcommands, which parse their flags, read the environment and build the components of
  the other theories. The first result of \<open>Run\<close> is whether the process starts and with what. A ticker with
  an interval that is not positive panics. HTTP servers, signals and the manager are left out.
\<close>

section \<open>Environment and outcome\<close>

record process_env =
  pe_NODE_NAME :: string
  pe_hostname :: "string option" \<comment> \<open>\<open>os.Hostname\<close>\<close>
  pe_client :: bool \<comment> \<open>whether the in-cluster client can be built\<close>
  pe_healthy :: string \<comment> \<open>the health constant of the kubelet API\<close>
  pe_duration :: "string \<Rightarrow> int option" \<comment> \<open>\<open>time.ParseDuration\<close>, in nanoseconds\<close>

datatype start_error =
    FlagFailure flag_error
  | NegativeGPUs int
  | HostnameUnknown
  | NoClient
  | NodeNameRequired
  | BadNodeSelector string

datatype 'a launch = HelpShown | Refused start_error | Panicked | Started 'a

definition with_flags :: "process_env \<Rightarrow> flags \<Rightarrow> string list \<Rightarrow> (flags \<Rightarrow> 'a launch) \<Rightarrow> 'a launch" where
  "with_flags env formal args k =
     (case parse_flags (pe_duration env) formal args of
        Inl e \<Rightarrow> if e = ErrHelp then HelpShown else Refused (FlagFailure e)
      | Inr vals \<Rightarrow> k vals)"

definition flag_string :: "flags \<Rightarrow> string \<Rightarrow> string" where
  "flag_string vals name = (case map_of vals name of Some (FlagString s) \<Rightarrow> s | _ \<Rightarrow> [])"

definition flag_int :: "flags \<Rightarrow> string \<Rightarrow> int" where
  "flag_int vals name = (case map_of vals name of Some (FlagInt n) \<Rightarrow> n | _ \<Rightarrow> 0)"

definition flag_duration :: "flags \<Rightarrow> string \<Rightarrow> int" where
  "flag_duration vals name = (case map_of vals name of Some (FlagDuration n) \<Rightarrow> n | _ \<Rightarrow> 0)"

definition flag_bool :: "flags \<Rightarrow> string \<Rightarrow> bool" where
  "flag_bool vals name = (case map_of vals name of Some (FlagBool b) \<Rightarrow> b | _ \<Rightarrow> False)"

lemmas flag_getters = flag_string_def flag_int_def flag_duration_def flag_bool_def

definition five_seconds :: int where "five_seconds = 5000000000"

definition resolve_hostname :: "process_env \<Rightarrow> string option" where
  "resolve_hostname env = (if pe_NODE_NAME env = [] then pe_hostname env else Some (pe_NODE_NAME env))"

section \<open>device-plugin\<close>

record AnnotatorOptions =
  an_ResourceName :: string
  an_SocketPath :: string
  an_ReconcileInterval :: int

text \<open>The defaults that \<open>PodResourcesAnnotator.Run\<close> fills in.\<close>

definition annotator_defaults :: "AnnotatorOptions \<Rightarrow> AnnotatorOptions" where
  "annotator_defaults a =
     \<lparr>an_ResourceName = (if an_ResourceName a = [] then DefaultResourceName else an_ResourceName a),
      an_SocketPath = (if an_SocketPath a = [] then DefaultPodResourcesSocket else an_SocketPath a),
      an_ReconcileInterval = (if an_ReconcileInterval a \<le> 0 then five_seconds else an_ReconcileInterval a)\<rparr>"

definition deviceplugin_flags :: flags where
  "deviceplugin_flags =
     [(''gpus-per-node'', FlagInt 2), (''resource-name'', FlagString DefaultResourceName),
      (''kubelet-socket-dir'', FlagString DefaultSocketDir),
      (''pod-resources-socket'', FlagString DefaultPodResourcesSocket),
      (''annotator-interval'', FlagDuration five_seconds)]"

text \<open>The annotator, when a client is available, and the server; \<open>None\<close> for the server is a panic.\<close>

definition deviceplugin_Run :: "process_env \<Rightarrow> string list \<Rightarrow> (AnnotatorOptions option \<times> Server) launch" where
  "deviceplugin_Run env args =
     with_flags env deviceplugin_flags args (\<lambda>vals.
       let gpus = flag_int vals ''gpus-per-node''; resource = flag_string vals ''resource-name'' in
       if gpus < 0 then Refused (NegativeGPUs gpus)
       else
         let annotator = (if pe_client env then Some
               \<lparr>an_ResourceName = resource, an_SocketPath = flag_string vals ''pod-resources-socket'',
                an_ReconcileInterval = flag_duration vals ''annotator-interval''\<rparr> else None)
         in case New (pe_healthy env)
               \<lparr>o_ResourceName = resource, o_SocketDir = flag_string vals ''kubelet-socket-dir'', o_GPUCount = gpus\<rparr> of
              None \<Rightarrow> Panicked
            | Some server \<Rightarrow> Started (annotator, server))"

section \<open>metrics-exporter\<close>

record exporter_start =
  xs_listen :: string
  xs_hostname :: string
  xs_gpus :: "GPU list"
  xs_topology_namespace :: string
  xs_default_utilization :: string
  xs_refresh :: "int option" \<comment> \<open>none when the idle sampler is used\<close>

definition exporter_flags :: flags where
  "exporter_flags =
     [(''listen'', FlagString '':5000''), (''gpus-per-node'', FlagInt 2), (''product-name'', FlagString ''MI300X''),
      (''memory-bytes'', FlagInt 206158430208), (''topology-namespace'', FlagString ''gpu-operator''),
      (''refresh-interval'', FlagDuration five_seconds), (''partition-mode'', FlagString PartitionSPX),
      (''partition-count'', FlagInt 1), (''default-utilization'', FlagString DefaultUtilizationRange)]"

definition exporter_Run :: "process_env \<Rightarrow> string list \<Rightarrow> exporter_start launch" where
  "exporter_Run env args =
     with_flags env exporter_flags args (\<lambda>vals.
       let gpus = flag_int vals ''gpus-per-node'' in
       if gpus < 0 then Refused (NegativeGPUs gpus)
       else case resolve_hostname env of
         None \<Rightarrow> Refused HostnameUnknown
       | Some hostname \<Rightarrow>
           (case BuildGPUs hostname (flag_string vals ''product-name'') (flag_int vals ''memory-bytes'') gpus
                   (flag_string vals ''partition-mode'') (flag_int vals ''partition-count'') of
              None \<Rightarrow> Panicked
            | Some gpuList \<Rightarrow>
                let refresh = flag_duration vals ''refresh-interval'' in
                if pe_client env \<and> refresh \<le> 0 then Panicked
                else Started
                  \<lparr>xs_listen = flag_string vals ''listen'', xs_hostname = hostname, xs_gpus = gpuList,
                   xs_topology_namespace = flag_string vals ''topology-namespace'',
                   xs_default_utilization = flag_string vals ''default-utilization'',
                   xs_refresh = (if pe_client env then Some refresh else None)\<rparr>))"

section \<open>status-updater\<close>

definition statusupdater_flags :: flags where
  "statusupdater_flags =
     [(''topology-namespace'', FlagString ''gpu-operator''), (''reconcile-interval'', FlagDuration five_seconds)]"

text \<open>The namespace and the interval of the passes.\<close>

definition statusupdater_Run :: "process_env \<Rightarrow> string list \<Rightarrow> (string \<times> int) launch" where
  "statusupdater_Run env args =
     with_flags env statusupdater_flags args (\<lambda>vals.
       if \<not> pe_client env then Refused NoClient
       else
         let interval = flag_duration vals ''reconcile-interval'' in
         if interval \<le> 0 then Panicked
         else Started (flag_string vals ''topology-namespace'', interval))"

section \<open>node-labeller\<close>

definition LabelGPUPresent :: string where [simp]: "LabelGPUPresent = ''feature.node.kubernetes.io/amd-gpu''"
definition LabelProduct :: string where [simp]: "LabelProduct = ''amd.com/gpu.product-name''"
definition LabelCUCount :: string where [simp]: "LabelCUCount = ''amd.com/gpu.cu-count''"
definition LabelSIMDCount :: string where [simp]: "LabelSIMDCount = ''amd.com/gpu.simd-count''"
definition LabelDeviceID :: string where [simp]: "LabelDeviceID = ''amd.com/gpu.device-id''"
definition LabelFamily :: string where [simp]: "LabelFamily = ''amd.com/gpu.family''"
definition LabelVRAM :: string where [simp]: "LabelVRAM = ''amd.com/gpu.vram''"

definition nodelabeller_flags :: flags where
  "nodelabeller_flags =
     [(''product-name'', FlagString ''MI300X''), (''cu-count'', FlagInt 304), (''simd-count'', FlagInt 1216),
      (''device-id'', FlagString ''0x74a1''), (''family'', FlagString ''MI300''), (''vram'', FlagString ''192GB'')]"

text \<open>The node and the labels of the merge patch.\<close>

definition nodelabeller_Run :: "process_env \<Rightarrow> string list \<Rightarrow> (string \<times> labels) launch" where
  "nodelabeller_Run env args =
     with_flags env nodelabeller_flags args (\<lambda>vals.
       if pe_NODE_NAME env = [] then Refused NodeNameRequired
       else if \<not> pe_client env then Refused NoClient
       else Started (pe_NODE_NAME env,
         [(LabelGPUPresent, ''true''),
          (LabelProduct, flag_string vals ''product-name''),
          (LabelCUCount, itoa (flag_int vals ''cu-count'')),
          (LabelSIMDCount, itoa (flag_int vals ''simd-count'')),
          (LabelDeviceID, flag_string vals ''device-id''),
          (LabelFamily, flag_string vals ''family''),
          (LabelVRAM, flag_string vals ''vram'')]))"

section \<open>controller\<close>

text \<open>The pairs of a selector; a later one overrides an earlier one with the same key.\<close>

fun parse_pairs :: "string list \<Rightarrow> labels \<Rightarrow> start_error + labels" where
  "parse_pairs [] out = Inr out"
| "parse_pairs (pair # rest) out =
     (case split_n2 (CHR ''='') (trim_space pair) of
        [k, v] \<Rightarrow> if k = [] then Inl (BadNodeSelector pair)
                  else parse_pairs rest (AList.update (trim_space k) (trim_space v) out)
      | _ \<Rightarrow> Inl (BadNodeSelector pair))"

definition parseNodeSelector :: "string \<Rightarrow> start_error + labels" where
  "parseNodeSelector s0 =
     (let s = trim_space s0 in if s = [] then Inr [] else parse_pairs (split_on (CHR '','') s) [])"

definition controller_flags :: flags where
  "controller_flags =
     [(''namespace'', FlagString ''gpu-operator''),
      (''image'', FlagString ''ghcr.io/alessandro-festa/fake-rocm-gpu-operator:0.1.0''),
      (''image-pull-policy'', FlagString ''IfNotPresent''), (''gpus-per-node'', FlagInt 2),
      (''product-name'', FlagString ''MI300X''), (''gpu-memory-bytes'', FlagInt 206158430208),
      (''resource-name'', FlagString ''amd.com/gpu''),
      (''default-node-selector'', FlagString ''sims.io/gpu-vendor=amd''),
      (''default-utilization'', FlagString ''5-15''), (''metrics-bind-address'', FlagString '':8080''),
      (''health-probe-bind-address'', FlagString '':8081'')]"

definition controller_config :: "flags \<Rightarrow> labels \<Rightarrow> Config" where
  "controller_config vals selector =
     \<lparr>Image = flag_string vals ''image'', ImagePullPolicy = flag_string vals ''image-pull-policy'',
      GPUsPerNode = i32 (flag_int vals ''gpus-per-node''), ProductName = flag_string vals ''product-name'',
      GPUMemoryBytes = flag_int vals ''gpu-memory-bytes'', ResourceName = flag_string vals ''resource-name'',
      DefaultNodeSelector = selector, DefaultUtilization = flag_string vals ''default-utilization'',
      Namespace = flag_string vals ''namespace''\<rparr>"

definition controller_Run :: "process_env \<Rightarrow> string list \<Rightarrow> Config launch" where
  "controller_Run env args =
     with_flags env controller_flags args (\<lambda>vals.
       case parseNodeSelector (flag_string vals ''default-node-selector'') of
         Inl e \<Rightarrow> Refused e
       | Inr selector \<Rightarrow> Started (controller_config vals selector))"

section \<open>The binaries\<close>

datatype process =
    UsageError
  | UsageShown
  | UnknownSubcommand string
  | MetricsExporterProc "exporter_start launch"
  | DevicePluginProc "(AnnotatorOptions option \<times> Server) launch"
  | StatusUpdaterProc "(string \<times> int) launch"
  | NodeLabellerProc "(string \<times> labels) launch"
  | ControllerProc "Config launch"

definition run_main :: "process_env \<Rightarrow> string list \<Rightarrow> process" where
  "run_main env args =
     (case args of
        [] \<Rightarrow> UsageError
      | sub # subArgs \<Rightarrow>
          if sub \<in> {''-h'', ''--help'', ''help''} then UsageShown
          else if sub = ''metrics-exporter'' then MetricsExporterProc (exporter_Run env subArgs)
          else if sub = ''device-plugin'' then DevicePluginProc (deviceplugin_Run env subArgs)
          else if sub = ''status-updater'' then StatusUpdaterProc (statusupdater_Run env subArgs)
          else if sub = ''node-labeller'' then NodeLabellerProc (nodelabeller_Run env subArgs)
          else if sub = ''controller'' then ControllerProc (controller_Run env subArgs)
          else UnknownSubcommand sub)"

record dcgm_start =
  ds_listen :: string
  ds_hostname :: string
  ds_gpus :: "gpuIdentity list"
  ds_refresh :: "int option"

definition dcgm_flags :: flags where
  "dcgm_flags =
     [(''listen'', FlagString '':9401''), (''gpus-per-node'', FlagInt 2), (''product-name'', FlagString ''Tesla T4''),
      (''mig-profile'', FlagString []), (''refresh-interval'', FlagDuration five_seconds)]"

definition dcgm_Run :: "process_env \<Rightarrow> string list \<Rightarrow> dcgm_start launch" where
  "dcgm_Run env args =
     with_flags env dcgm_flags args (\<lambda>vals.
       let gpus = flag_int vals ''gpus-per-node'' in
       if gpus < 0 then Refused (NegativeGPUs gpus)
       else case resolve_hostname env of
         None \<Rightarrow> Refused HostnameUnknown
       | Some hostname \<Rightarrow>
           (case buildIdentities hostname (flag_string vals ''product-name'') (flag_string vals ''mig-profile'') gpus of
              None \<Rightarrow> Panicked
            | Some gpuList \<Rightarrow>
                let refresh = flag_duration vals ''refresh-interval'' in
                if pe_client env \<and> refresh \<le> 0 then Panicked
                else Started
                  \<lparr>ds_listen = flag_string vals ''listen'', ds_hostname = hostname, ds_gpus = gpuList,
                   ds_refresh = (if pe_client env then Some refresh else None)\<rparr>))"

section \<open>The children of the controller start as declared\<close>

text \<open>A process started with rendered flags.\<close>

lemma with_flags_rendered:
  "set_all (pe_duration env) formal nvs = Some vals \<Longrightarrow>
     with_flags env formal (map (\<lambda>(name, v). flag_arg name v) nvs) k = k vals"
  by (simp add: with_flags_def parse_rendered)

lemma in_i32_i64: "in_i32 n \<Longrightarrow> in_i64 n"
  by (simp add: in_i32_def in_i64_def)

lemma run_main_simps [simp]:
  "run_main env (''metrics-exporter'' # args) = MetricsExporterProc (exporter_Run env args)"
  "run_main env (''device-plugin'' # args) = DevicePluginProc (deviceplugin_Run env args)"
  "run_main env (''status-updater'' # args) = StatusUpdaterProc (statusupdater_Run env args)"
  "run_main env (''node-labeller'' # args) = NodeLabellerProc (nodelabeller_Run env args)"
  "run_main env (''controller'' # args) = ControllerProc (controller_Run env args)"
  by (simp_all add: run_main_def)

definition rendered :: "(string \<times> string) list \<Rightarrow> string list" where
  "rendered nvs = map (\<lambda>(name, v). flag_arg name v) nvs"

lemmas parse_steps = plain_name_def parse_int0_itoa flag_getters

lemma deviceplugin_Run_rendered:
  assumes "in_i64 n"
  shows "deviceplugin_Run env (rendered
      [(''gpus-per-node'', itoa n), (''resource-name'', rn), (''kubelet-socket-dir'', sd), (''pod-resources-socket'', ps)]) =
    (if n < 0 then Refused (NegativeGPUs n)
     else case New (pe_healthy env) \<lparr>o_ResourceName = rn, o_SocketDir = sd, o_GPUCount = n\<rparr> of
        None \<Rightarrow> Panicked
      | Some server \<Rightarrow> Started
          (if pe_client env then Some
             \<lparr>an_ResourceName = rn, an_SocketPath = ps, an_ReconcileInterval = five_seconds\<rparr> else None, server))"
proof -
  have p: "set_all (pe_duration env) deviceplugin_flags
      [(''gpus-per-node'', itoa n), (''resource-name'', rn), (''kubelet-socket-dir'', sd), (''pod-resources-socket'', ps)] =
    Some [(''gpus-per-node'', FlagInt n), (''resource-name'', FlagString rn), (''kubelet-socket-dir'', FlagString sd),
      (''pod-resources-socket'', FlagString ps), (''annotator-interval'', FlagDuration five_seconds)]"
    using assms by (simp add: deviceplugin_flags_def parse_steps)
  show ?thesis
    unfolding deviceplugin_Run_def rendered_def with_flags_rendered [OF p]
    by (simp add: flag_getters Let_def split: option.split)
qed

lemma exporter_Run_rendered:
  assumes "in_i64 n" "in_i64 m" "in_i64 c"
  shows "exporter_Run env (rendered
      [(''listen'', li), (''gpus-per-node'', itoa n), (''product-name'', pn), (''memory-bytes'', itoa m),
       (''topology-namespace'', tn), (''partition-mode'', pm), (''partition-count'', itoa c),
       (''default-utilization'', du)]) =
    (if n < 0 then Refused (NegativeGPUs n)
     else case resolve_hostname env of
        None \<Rightarrow> Refused HostnameUnknown
      | Some hostname \<Rightarrow>
          (case BuildGPUs hostname pn m n pm c of
             None \<Rightarrow> Panicked
           | Some gs \<Rightarrow> Started
               \<lparr>xs_listen = li, xs_hostname = hostname, xs_gpus = gs, xs_topology_namespace = tn,
                xs_default_utilization = du, xs_refresh = (if pe_client env then Some five_seconds else None)\<rparr>))"
proof -
  have p: "set_all (pe_duration env) exporter_flags
      [(''listen'', li), (''gpus-per-node'', itoa n), (''product-name'', pn), (''memory-bytes'', itoa m),
       (''topology-namespace'', tn), (''partition-mode'', pm), (''partition-count'', itoa c),
       (''default-utilization'', du)] =
    Some [(''listen'', FlagString li), (''gpus-per-node'', FlagInt n), (''product-name'', FlagString pn),
      (''memory-bytes'', FlagInt m), (''topology-namespace'', FlagString tn),
      (''refresh-interval'', FlagDuration five_seconds), (''partition-mode'', FlagString pm),
      (''partition-count'', FlagInt c), (''default-utilization'', FlagString du)]"
    using assms by (simp add: exporter_flags_def parse_steps)
  show ?thesis
    unfolding exporter_Run_def rendered_def with_flags_rendered [OF p]
    by (simp add: flag_getters Let_def five_seconds_def split: option.split)
qed

lemma statusupdater_Run_rendered:
  assumes "pe_duration env iv = Some n"
  shows "statusupdater_Run env (rendered [(''topology-namespace'', tn), (''reconcile-interval'', iv)]) =
    (if \<not> pe_client env then Refused NoClient else if n \<le> 0 then Panicked else Started (tn, n))"
proof -
  have p: "set_all (pe_duration env) statusupdater_flags [(''topology-namespace'', tn), (''reconcile-interval'', iv)] =
    Some [(''topology-namespace'', FlagString tn), (''reconcile-interval'', FlagDuration n)]"
    using assms by (simp add: statusupdater_flags_def parse_steps)
  show ?thesis
    unfolding statusupdater_Run_def rendered_def with_flags_rendered [OF p] by (simp add: flag_getters Let_def)
qed

lemma nodelabeller_Run_rendered:
  "nodelabeller_Run env (rendered [(''product-name'', pn)]) =
    (if pe_NODE_NAME env = [] then Refused NodeNameRequired
     else if \<not> pe_client env then Refused NoClient
     else Started (pe_NODE_NAME env,
       [(''feature.node.kubernetes.io/amd-gpu'', ''true''), (''amd.com/gpu.product-name'', pn),
        (''amd.com/gpu.cu-count'', itoa 304), (''amd.com/gpu.simd-count'', itoa 1216),
        (''amd.com/gpu.device-id'', ''0x74a1''), (''amd.com/gpu.family'', ''MI300''), (''amd.com/gpu.vram'', ''192GB'')]))"
proof -
  have p: "set_all (pe_duration env) nodelabeller_flags [(''product-name'', pn)] =
    Some [(''product-name'', FlagString pn), (''cu-count'', FlagInt 304), (''simd-count'', FlagInt 1216),
      (''device-id'', FlagString ''0x74a1''), (''family'', FlagString ''MI300''), (''vram'', FlagString ''192GB'')]"
    by (simp add: nodelabeller_flags_def parse_steps)
  show ?thesis
    unfolding nodelabeller_Run_def rendered_def with_flags_rendered [OF p] by (simp add: flag_getters)
qed

text \<open>The arguments the builders render.\<close>

lemma container_args_eq:
  "container_args (buildDevicePluginDS cfg cr sel pp) = ''device-plugin'' # rendered
     [(''gpus-per-node'', itoa (effectiveGPUs cfg cr)), (''resource-name'', ResourceName cfg),
      (''kubelet-socket-dir'', DefaultSocketDir), (''pod-resources-socket'', DefaultPodResourcesSocket)]"
  "normalizePartition (ComputePartition (Spec cr)) = (mode, count) \<Longrightarrow>
   container_args (buildMetricsExporterDS cfg cr sel) = ''metrics-exporter'' # rendered
     [(''listen'', '':5000''), (''gpus-per-node'', itoa (GPUsPerNode cfg)), (''product-name'', ProductName cfg),
      (''memory-bytes'', itoa (GPUMemoryBytes cfg)), (''topology-namespace'', Namespace cfg),
      (''partition-mode'', mode), (''partition-count'', itoa count), (''default-utilization'', DefaultUtilization cfg)]"
  "container_args (buildStatusUpdaterDeployment cfg cr sel) = ''status-updater'' # rendered
     [(''topology-namespace'', Namespace cfg), (''reconcile-interval'', ''5s'')]"
  "container_args (buildNodeLabellerDS cfg cr sel) = ''node-labeller'' # rendered [(''product-name'', ProductName cfg)]"
  by (simp_all add: container_args_def builder_defs new_workload_def Let_def flag_arg_def rendered_def
      DefaultSocketDir_def DefaultPodResourcesSocket_def)

text \<open>The partition count is at least one, and \<open>norm_partition\<close> leaves the controller's pair alone.\<close>

lemma norm_normalizePartition:
  "normalizePartition p = (mode, count) \<Longrightarrow> norm_partition mode count = (mode, count)"
  by (auto simp: normalizePartition_def norm_partition_def PartitionCPX_def PartitionSPX_def split: if_splits)

lemma partitionMultiplier_eq: "normalizePartition p = (mode, count) \<Longrightarrow> partitionMultiplier p = count"
  by (simp add: partitionMultiplier_def)

lemma plugin_exporter_ids:
  assumes "normalizePartition (ComputePartition (Spec cr)) = (mode, count)"
    and "New healthy \<lparr>o_ResourceName = rn, o_SocketDir = sd, o_GPUCount = effectiveGPUs cfg cr\<rparr> = Some srv"
    and "BuildGPUs host (ProductName cfg) (GPUMemoryBytes cfg) (GPUsPerNode cfg) mode count = Some gs"
    and "0 \<le> GPUsPerNode cfg" "GPUsPerNode cfg * count < 2 ^ 31"
  shows "map dev_ID (devices srv) = map ID gs"
proof -
  have c: "1 \<le> count" using assms(1) by (rule normalizePartition_ge)
  have nn: "0 \<le> GPUsPerNode cfg * count" using assms(4) c by simp
  have eff: "effectiveGPUs cfg cr = GPUsPerNode cfg * count"
    using nn assms(5) by (simp add: effectiveGPUs_def partitionMultiplier_eq [OF assms(1)] in_i32_def)
  have "map ID gs = map (\<lambda>i. ''gpu-'' @ itoa i) (go_range (GPUsPerNode cfg * count))"
    using assms(5) by (intro BuildGPUs_ids [OF assms(3) norm_normalizePartition [OF assms(1)] assms(4)]) simp
  moreover have "buildDevices healthy (GPUsPerNode cfg * count) = Some (devices srv)"
    using New_devices [OF assms(2)] nn by (simp add: eff max_def)
  ultimately show ?thesis by (simp add: buildDevices_ids)
qed

lemma plugin_starts:
  assumes "run_main env (container_args (buildDevicePluginDS cfg cr sel pp)) = DevicePluginProc (Started (ann, srv))"
  shows "New (pe_healthy env)
    \<lparr>o_ResourceName = ResourceName cfg, o_SocketDir = DefaultSocketDir, o_GPUCount = effectiveGPUs cfg cr\<rparr> = Some srv"
proof -
  have "in_i64 (effectiveGPUs cfg cr)" by (simp add: effectiveGPUs_def i32_range in_i32_i64)
  then show ?thesis
    using assms by (auto simp: container_args_eq deviceplugin_Run_rendered split: if_splits option.splits)
qed

lemma exporter_starts:
  assumes "run_main env (container_args (buildMetricsExporterDS cfg cr sel)) = MetricsExporterProc (Started x)"
    and "normalizePartition (ComputePartition (Spec cr)) = (mode, count)"
    and "in_i64 (GPUsPerNode cfg)" "in_i64 (GPUMemoryBytes cfg)" "in_i64 count"
  shows "0 \<le> GPUsPerNode cfg"
    and "BuildGPUs (xs_hostname x) (ProductName cfg) (GPUMemoryBytes cfg) (GPUsPerNode cfg) mode count = Some (xs_gpus x)"
  using assms(1)
  by (auto simp: container_args_eq(2) [OF assms(2)] exporter_Run_rendered [OF assms(3,4,5)]
      split: if_splits option.splits)

lemma count_in_i64:
  "normalizePartition p = (mode, count) \<Longrightarrow> in_i32 (Count p) \<Longrightarrow> in_i64 count"
  by (auto simp: normalizePartition_def in_i32_def in_i64_def split: if_splits)

text \<open>
  C8. The containers of one DeviceConfig agree on the devices. When the device-plugin container and the
  metrics-exporter container both start, each on the command line its DaemonSet declares and in its own
  environment, the device identifiers the plugin advertises are those of the GPUs the exporter reports, in
  the same order. The counts have the widths of their Go types and their product fits in 32 bits.
\<close>

theorem started_containers_agree:
  assumes "run_main env1 (container_args (buildDevicePluginDS cfg cr sel1 pp)) = DevicePluginProc (Started (ann, srv))"
    and "run_main env2 (container_args (buildMetricsExporterDS cfg cr sel2)) = MetricsExporterProc (Started x)"
    and "in_i32 (GPUsPerNode cfg)" "in_i64 (GPUMemoryBytes cfg)" "in_i32 (Count (ComputePartition (Spec cr)))"
    and "GPUsPerNode cfg * partitionMultiplier (ComputePartition (Spec cr)) < 2 ^ 31"
  shows "map dev_ID (devices srv) = map ID (xs_gpus x)"
proof -
  obtain mode count where n: "normalizePartition (ComputePartition (Spec cr)) = (mode, count)" by fastforce
  note x = exporter_starts [OF assms(2) n in_i32_i64 [OF assms(3)] assms(4) count_in_i64 [OF n assms(5)]]
  show ?thesis
    using assms(6) by (intro plugin_exporter_ids [OF n plugin_starts [OF assms(1)] x(2,1)])
      (simp add: partitionMultiplier_eq [OF n])
qed

text \<open>A controller's configuration with one card per node, and a DeviceConfig that splits it in eight.\<close>

definition eight_part_config :: Config where
  "eight_part_config =
     \<lparr>Image = ''img'', ImagePullPolicy = ''Always'', GPUsPerNode = 1, ProductName = ''MI300X'', GPUMemoryBytes = 64,
      ResourceName = ''amd.com/gpu'', DefaultNodeSelector = [], DefaultUtilization = ''5-15'', Namespace = ''gpu-operator''\<rparr>"

definition eight_part_resource :: DeviceConfig where
  "eight_part_resource =
     \<lparr>dc_Name = ''default'',
      Spec = \<lparr>Driver = \<lparr>drv_Enable = None\<rparr>, DevicePlugin = \<lparr>dp_Enable = None, dp_ImagePullPolicy = []\<rparr>,
              MetricsExporter = \<lparr>me_Enable = None\<rparr>, NodeSelector = [], CommonConfig = \<lparr>InitContainerImage = []\<rparr>,
              ComputePartition = \<lparr>Mode = ''cpx'', Count = 8\<rparr>\<rparr>,
      Status = empty_status\<rparr>"

definition node_env :: process_env where
  "node_env =
     \<lparr>pe_NODE_NAME = ''node-1'', pe_hostname = None, pe_client = True, pe_healthy = ''Healthy'',
      pe_duration = (\<lambda>s. if s = ''5s'' then Some five_seconds else None)\<rparr>"

lemma eight_part_facts:
  "effectiveGPUs eight_part_config eight_part_resource = 8"
  "normalizePartition (ComputePartition (Spec eight_part_resource)) = (''cpx'', 8)"
  "case New ''Healthy'' \<lparr>o_ResourceName = ''amd.com/gpu'', o_SocketDir = DefaultSocketDir, o_GPUCount = 8\<rparr> of
     None \<Rightarrow> False | Some _ \<Rightarrow> True"
  "case BuildGPUs ''node-1'' ''MI300X'' 64 1 ''cpx'' 8 of None \<Rightarrow> False | Some _ \<Rightarrow> True"
  by code_simp+

lemma eight_part_fields [simp]:
  "ResourceName eight_part_config = ''amd.com/gpu''" "ProductName eight_part_config = ''MI300X''"
  "GPUsPerNode eight_part_config = 1" "GPUMemoryBytes eight_part_config = 64"
  "Namespace eight_part_config = ''gpu-operator''" "DefaultUtilization eight_part_config = ''5-15''"
  "Count (ComputePartition (Spec eight_part_resource)) = 8"
  by (simp_all add: eight_part_config_def eight_part_resource_def)

lemma node_env_fields [simp]:
  "pe_client node_env" "pe_healthy node_env = ''Healthy''" "pe_NODE_NAME node_env = ''node-1''"
  "resolve_hostname node_env = Some ''node-1''" "pe_duration node_env ''5s'' = Some five_seconds"
  by (simp_all add: node_env_def resolve_hostname_def)

lemma eight_part_starts:
  obtains ann srv x where
    "run_main node_env (container_args (buildDevicePluginDS eight_part_config eight_part_resource [] [])) =
       DevicePluginProc (Started (ann, srv))"
    "run_main node_env (container_args (buildMetricsExporterDS eight_part_config eight_part_resource [])) =
       MetricsExporterProc (Started x)"
proof -
  from eight_part_facts(3) obtain srv where
    "New ''Healthy'' \<lparr>o_ResourceName = ''amd.com/gpu'', o_SocketDir = DefaultSocketDir, o_GPUCount = 8\<rparr> = Some srv"
    by (auto split: option.splits)
  moreover from eight_part_facts(4) obtain gs where "BuildGPUs ''node-1'' ''MI300X'' 64 1 ''cpx'' 8 = Some gs"
    by (auto split: option.splits)
  ultimately show thesis
    using that
    by (simp add: container_args_eq(1) container_args_eq(2) [OF eight_part_facts(2)] eight_part_facts(1)
        deviceplugin_Run_rendered exporter_Run_rendered in_i64_def)
qed

theorem started_containers_agree_witness:
  "\<exists>ann srv x.
     run_main node_env (container_args (buildDevicePluginDS eight_part_config eight_part_resource [] [])) =
       DevicePluginProc (Started (ann, srv)) \<and>
     run_main node_env (container_args (buildMetricsExporterDS eight_part_config eight_part_resource [])) =
       MetricsExporterProc (Started x) \<and> map dev_ID (devices srv) = map ID (xs_gpus x)"
proof -
  obtain ann srv x where s:
    "run_main node_env (container_args (buildDevicePluginDS eight_part_config eight_part_resource [] [])) =
       DevicePluginProc (Started (ann, srv))"
    "run_main node_env (container_args (buildMetricsExporterDS eight_part_config eight_part_resource [])) =
       MetricsExporterProc (Started x)"
    by (rule eight_part_starts)
  have "map dev_ID (devices srv) = map ID (xs_gpus x)"
    by (rule started_containers_agree [OF s])
      (simp_all add: in_i32_def in_i64_def partitionMultiplier_eq [OF eight_part_facts(2)])
  then show ?thesis using s by blast
qed

text \<open>
  C25. The other children start as the DeviceConfig's controller declares. On their declared command lines,
  with the client available and the node name set, the status-updater watches every five seconds
  and publishes in the controller's namespace, the namespace the exporter reads its topology from, and the
  node-labeller patches its own node with the controller's product name and otherwise fixed labels.
\<close>

theorem children_start_as_declared:
  assumes "pe_client env" "pe_NODE_NAME env = node" "node \<noteq> []" "pe_duration env ''5s'' = Some five_seconds"
    and "run_main env (container_args (buildMetricsExporterDS cfg cr sel)) = MetricsExporterProc (Started x)"
    and "in_i32 (GPUsPerNode cfg)" "in_i64 (GPUMemoryBytes cfg)" "in_i32 (Count (ComputePartition (Spec cr)))"
  shows "run_main env (container_args (buildStatusUpdaterDeployment cfg cr sel)) =
      StatusUpdaterProc (Started (xs_topology_namespace x, five_seconds)) \<and>
    xs_hostname x = node \<and> xs_default_utilization x = DefaultUtilization cfg \<and>
    run_main env (container_args (buildNodeLabellerDS cfg cr sel)) =
      NodeLabellerProc (Started (node,
        [(''feature.node.kubernetes.io/amd-gpu'', ''true''), (''amd.com/gpu.product-name'', ProductName cfg),
         (''amd.com/gpu.cu-count'', itoa 304), (''amd.com/gpu.simd-count'', itoa 1216),
         (''amd.com/gpu.device-id'', ''0x74a1''), (''amd.com/gpu.family'', ''MI300''),
         (''amd.com/gpu.vram'', ''192GB'')]))"
proof -
  obtain mode count where n: "normalizePartition (ComputePartition (Spec cr)) = (mode, count)" by fastforce
  have "xs_topology_namespace x = Namespace cfg \<and> xs_hostname x = node \<and>
      xs_default_utilization x = DefaultUtilization cfg"
    using assms(2,3,5)
    by (auto simp: container_args_eq(2) [OF n] resolve_hostname_def
        exporter_Run_rendered [OF in_i32_i64 [OF assms(6)] assms(7) count_in_i64 [OF n assms(8)]]
        split: if_splits option.splits)
  then show ?thesis
    using assms(1-4)
    by (simp add: container_args_eq statusupdater_Run_rendered nodelabeller_Run_rendered five_seconds_def)
qed

theorem children_start_as_declared_witness:
  "run_main node_env (container_args (buildStatusUpdaterDeployment eight_part_config eight_part_resource [])) =
     StatusUpdaterProc (Started (''gpu-operator'', five_seconds))"
proof -
  obtain x where x: "run_main node_env (container_args (buildMetricsExporterDS eight_part_config eight_part_resource [])) =
       MetricsExporterProc (Started x)" by (rule eight_part_starts)
  from children_start_as_declared [OF _ _ _ _ x, of "''node-1''"]
  have "run_main node_env (container_args (buildStatusUpdaterDeployment eight_part_config eight_part_resource [])) =
     StatusUpdaterProc (Started (xs_topology_namespace x, five_seconds))"
    by (simp add: in_i32_def in_i64_def)
  moreover have "xs_topology_namespace x = ''gpu-operator''"
    using x by (auto simp: container_args_eq(2) [OF eight_part_facts(2)] exporter_Run_rendered in_i64_def
        split: option.splits)
  ultimately show ?thesis by simp
qed

section \<open>Node selectors\<close>

definition render_selector :: "labels \<Rightarrow> string" where
  "render_selector kvs = join '','' (map (\<lambda>(k, v). k @ ''='' @ v) kvs)"

definition plain_label :: "string \<times> string \<Rightarrow> bool" where
  "plain_label kv \<longleftrightarrow> fst kv \<noteq> [] \<and> CHR ''='' \<notin> set (fst kv) \<and>
     (\<forall>c \<in> set (fst kv) \<union> set (snd kv). visible c \<and> c \<noteq> CHR '','')"

lemma visible_punctuation: "visible (CHR ''='')" "visible (CHR '','')"
  by (simp_all add: visible_def)

lemma parse_pairs_rendered:
  assumes "\<forall>kv \<in> set kvs. plain_label kv" "distinct (map fst (out @ kvs))"
  shows "parse_pairs (map (\<lambda>(k, v). k @ ''='' @ v) kvs) out = Inr (out @ kvs)"
  using assms
proof (induction kvs arbitrary: out)
  case (Cons kv kvs)
  obtain k v where kv: "kv = (k, v)" by (cases kv)
  have p: "k \<noteq> []" "CHR ''='' \<notin> set k" "\<forall>c \<in> set k. visible c" "\<forall>c \<in> set v. visible c"
    using Cons.prems(1) kv by (auto simp: plain_label_def)
  then have t: "trim_space (k @ CHR ''='' # v) = k @ CHR ''='' # v" "trim_space k = k" "trim_space v = v"
    using visible_punctuation by (auto intro!: trim_space_visible)
  have "AList.update k v out = out @ [(k, v)]"
    using Cons.prems(2) kv by (intro update_fresh) auto
  moreover have "parse_pairs (map (\<lambda>(k, v). k @ ''='' @ v) kvs) (out @ [(k, v)]) = Inr ((out @ [(k, v)]) @ kvs)"
    using Cons.prems kv by (intro Cons.IH) simp_all
  moreover have "split_n2 (CHR ''='') (k @ CHR ''='' # v) = [k, v]"
    using p(2) by (rule split_n2_append)
  ultimately show ?case using p(1) t by (simp add: kv)
qed simp

lemma set_join: "set (join sep ps) \<subseteq> set sep \<union> \<Union> (set ` set ps)"
  by (induction sep ps rule: join.induct) auto

lemma render_selector_visible:
  assumes "\<forall>kv \<in> set kvs. plain_label kv"
  shows "\<forall>c \<in> set (render_selector kvs). visible c"
proof
  fix c assume "c \<in> set (render_selector kvs)"
  then have "c \<in> set '','' \<union> \<Union> (set ` set (map (\<lambda>(k, v). k @ ''='' @ v) kvs))"
    unfolding render_selector_def by (rule subsetD [OF set_join])
  then consider "c = CHR '',''" | "c = CHR ''=''" | kv where "kv \<in> set kvs" "c \<in> set (fst kv) \<union> set (snd kv)"
    by (auto split: if_splits)
  then show "visible c"
    by cases (use assms visible_punctuation plain_label_def in blast)+
qed

text \<open>
  A node selector written in the controller's flag format comes back as it was: the rendering of any list of
  labels with distinct keys, visible characters and no separator in them parses to the same labels in the
  same order.
\<close>

lemma selector_round_trip:
  assumes "\<forall>kv \<in> set kvs. plain_label kv" "distinct (map fst kvs)"
  shows "parseNodeSelector (render_selector kvs) = Inr kvs"
proof (cases "kvs = []")
  case False
  let ?ps = "map (\<lambda>(k, v). k @ ''='' @ v) kvs"
  have "trim_space (render_selector kvs) = render_selector kvs"
    using render_selector_visible [OF assms(1)] by (rule trim_space_visible)
  moreover have "CHR '','' \<notin> set (case kv of (k, v) \<Rightarrow> k @ ''='' @ v)" if "kv \<in> set kvs" for kv
  proof -
    have "CHR '','' \<notin> set (fst kv)" "CHR '','' \<notin> set (snd kv)"
      using assms(1) that unfolding plain_label_def by blast+
    then show ?thesis by (simp add: case_prod_beta)
  qed
  then have "\<forall>p \<in> set ?ps. CHR '','' \<notin> set p" by (metis (no_types, lifting) image_iff list.set_map)
  then have "split_on (CHR '','') (render_selector kvs) = ?ps"
    using False unfolding render_selector_def by (intro split_on_join) auto
  moreover have "render_selector kvs \<noteq> []"
    using False by (cases kvs rule: remdups_adj.cases) (auto simp: render_selector_def)
  ultimately show ?thesis
    using parse_pairs_rendered [OF assms(1), of "[]"] assms(2) by (simp add: parseNodeSelector_def)
qed (simp add: parseNodeSelector_def render_selector_def)

lemma selector_round_trip_witness:
  "parseNodeSelector (render_selector [(''sims.io/gpu-vendor'', ''amd''), (''zone'', ''a'')]) =
     Inr [(''sims.io/gpu-vendor'', ''amd''), (''zone'', ''a'')]"
  by (rule selector_round_trip) (simp_all add: plain_label_def visible_def)

end
