(* ===== verification/Rocm_Smi.thy ===== *)
theory Rocm_Smi
  imports Simulate Go_Flag
begin

text \<open>
  The stand-in for \<open>rocm-smi\<close> (\<open>cmd/rocm-smi-mock/main.go\<close>): its card list, the table and the JSON document
  as structured values (the tabwriter and the JSON encoder render them), and the command line. The lemmas
  compare its cards with the GPUs of the exporter.
\<close>

definition driverVersion :: string where "driverVersion = ''5.7.1''"
definition cardVendor :: string where "cardVendor = ''Advanced Micro Devices, Inc.''"

record cardInfo =
  ci_Index :: int
  ci_UUID :: string
  ci_Serial :: string
  ci_Product :: string
  TempC :: rat
  PowerW :: rat
  PowerMaxW :: rat
  SCLKMHz :: int
  MCLKMHz :: int
  FanPercent :: int
  VRAMUsedPct :: int
  GPUUsedPct :: int
  VRAMTotalB :: int
  ci_PartitionMode :: string
  ci_PartitionID :: string

text \<open>The body of the inner loop.\<close>

definition card_at :: "string \<Rightarrow> int \<Rightarrow> string \<Rightarrow> int \<Rightarrow> int \<Rightarrow> int \<Rightarrow> cardInfo" where
  "card_at product perPart mode count phys part =
     \<lparr>ci_Index = i64 (i64 (phys * count) + part),
      ci_UUID = ''GPU-sim-'' @ pad2 phys @ ''-p'' @ itoa part,
      ci_Serial = ''SIM-'' @ pad2 phys @ ''-p'' @ itoa part,
      ci_Product = product, TempC = 35, PowerW = 30, PowerMaxW = 750, SCLKMHz = 500, MCLKMHz = 1600,
      FanPercent = 0, VRAMUsedPct = 0, GPUUsedPct = 0, VRAMTotalB = perPart,
      ci_PartitionMode = mode, ci_PartitionID = itoa part\<rparr>"

definition smi_partition :: "string \<Rightarrow> int \<Rightarrow> string \<times> int" where
  "smi_partition mode count =
     (let (mode, count) = (if mode \<noteq> ''cpx'' then (''spx'', 1) else (mode, count))
      in (mode, if count < 1 then 1 else count))"

text \<open>\<open>None\<close> is the panic of \<open>make\<close> (a \<open>cardInfo\<close> takes 160 bytes).\<close>

definition buildCards :: "int \<Rightarrow> string \<Rightarrow> int \<Rightarrow> string \<Rightarrow> int \<Rightarrow> cardInfo list option" where
  "buildCards physical product memBytes partMode partCount =
     (let (mode, count) = smi_partition partMode partCount; perPart = go_div memBytes count
      in if \<not> make_ok 160 (i64 (physical * count)) then None
         else Some (concat (map (\<lambda>phys. map (card_at product perPart mode count phys) (go_range count))
                (go_range physical))))"

section \<open>Output\<close>

text \<open>The \<open>%.1f\<close> verb, for non-negative multiples of a tenth.\<close>

definition fixed1 :: "rat \<Rightarrow> string" where
  "fixed1 r = (let t = \<lfloor>10 * r\<rfloor> in itoa (t div 10) @ ''.'' @ itoa (t mod 10))"

definition table_row :: "cardInfo \<Rightarrow> string list" where
  "table_row c =
     [itoa (ci_Index c), fixed1 (TempC c), fixed1 (PowerW c) @ ''W'', itoa (SCLKMHz c) @ ''Mhz'',
      itoa (MCLKMHz c) @ ''Mhz'', itoa (FanPercent c) @ ''%'', ''auto'', fixed1 (PowerMaxW c) @ ''W'',
      itoa (VRAMUsedPct c) @ ''%'', itoa (GPUUsedPct c) @ ''%'']"

definition printTable :: "cardInfo list \<Rightarrow> string list list" where
  "printTable cards =
     [[''======================== ROCm System Management Interface ========================''],
      [''==================================== Concise Info ====================================''],
      [''GPU'', ''Temp(C)'', ''AvgPwr'', ''SCLK'', ''MCLK'', ''Fan'', ''Perf'', ''PwrCap'', ''VRAM%'', ''GPU%'']] @
     map table_row cards @
     [[replicate 80 (CHR ''='')],
      [''============================== End of ROCm SMI Log ==============================='']]"

definition card_object :: "cardInfo \<Rightarrow> (string \<times> string) list" where
  "card_object c =
     [(''GUID'', ci_UUID c), (''Card Series'', ci_Product c), (''Card Model'', ci_Product c),
      (''Card SKU'', ci_Product c), (''Card Vendor'', cardVendor), (''GPU ID'', ''0x74a1''),
      (''Subsystem ID'', ''0x0c34''), (''Serial Number'', ci_Serial c),
      (''Temperature (Sensor edge) (C)'', fixed1 (TempC c)),
      (''Temperature (Sensor junction) (C)'', fixed1 (TempC c)),
      (''Temperature (Sensor memory) (C)'', fixed1 (TempC c)),
      (''Average Graphics Package Power (W)'', fixed1 (PowerW c)),
      (''Max Graphics Package Power (W)'', fixed1 (PowerMaxW c)), (''Performance Level'', ''auto''),
      (''GPU use (%)'', itoa (GPUUsedPct c)), (''GFX Activity'', itoa (GPUUsedPct c)),
      (''GPU Memory Allocated (VRAM%)'', itoa (VRAMUsedPct c)),
      (''GPU Memory Read/Write Activity (%)'', ''0''), (''GPU memory vendor'', ''HBM3''),
      (''PCIe Replay Count'', ''0''), (''Voltage (mV)'', ''800''),
      (''PCI Bus'', ''0000:00:'' @ pad2 (ci_Index c) @ ''.0''),
      (''VRAM Total Memory (B)'', itoa (VRAMTotalB c)),
      (''sims.io Partition Mode'', ci_PartitionMode c), (''sims.io Partition ID'', ci_PartitionID c)]"

text \<open>The document: a later card with the same key would replace an earlier one.\<close>

definition printJSON :: "cardInfo list \<Rightarrow> (string \<times> (string \<times> string) list) list" where
  "printJSON cards =
     fold (\<lambda>c doc. AList.update (''card'' @ itoa (ci_Index c)) (card_object c) doc) cards
       [(''system'', [(''Driver version'', driverVersion)])]"

section \<open>Command line\<close>

definition envStr :: "(string \<Rightarrow> string) \<Rightarrow> string \<Rightarrow> string \<Rightarrow> string" where
  "envStr getenv key dflt = (if getenv key \<noteq> [] then getenv key else dflt)"

definition envInt :: "(string \<Rightarrow> string) \<Rightarrow> string \<Rightarrow> int \<Rightarrow> int" where
  "envInt getenv key dflt =
     (if getenv key \<noteq> [] then (case atoi (getenv key) of Inr i \<Rightarrow> i | Inl _ \<Rightarrow> dflt) else dflt)"

text \<open>\<open>ParseInt(v, 10, 64)\<close> accepts what \<open>Atoi\<close> does on a 64-bit platform.\<close>

definition envInt64 :: "(string \<Rightarrow> string) \<Rightarrow> string \<Rightarrow> int \<Rightarrow> int" where
  "envInt64 getenv key dflt =
     (if getenv key \<noteq> [] then (case atoi (getenv key) of Inr i \<Rightarrow> i | Inl _ \<Rightarrow> dflt) else dflt)"

definition smi_flags :: "(string \<Rightarrow> string) \<Rightarrow> flags" where
  "smi_flags getenv =
     [(''json'', FlagBool False),
      (''gpus-per-node'', FlagInt (envInt getenv ''ROCM_SMI_MOCK_GPUS_PER_NODE'' 2)),
      (''product-name'', FlagString (envStr getenv ''ROCM_SMI_MOCK_PRODUCT_NAME'' ''MI300X'')),
      (''memory-bytes'', FlagInt (envInt64 getenv ''ROCM_SMI_MOCK_MEMORY_BYTES'' 206158430208)),
      (''partition-mode'', FlagString (envStr getenv ''ROCM_SMI_MOCK_PARTITION_MODE'' ''spx'')),
      (''partition-count'', FlagInt (envInt getenv ''ROCM_SMI_MOCK_PARTITION_COUNT'' 1))]"

datatype smi_output =
    Document "(string \<times> (string \<times> string) list) list"
  | Table "string list list"
  | ExitStatus int
  | SmiPanic

fun int_of_flag :: "flag_value option \<Rightarrow> int" where
  "int_of_flag (Some (FlagInt n)) = n"
| "int_of_flag _ = 0"

fun string_of_flag :: "flag_value option \<Rightarrow> string" where
  "string_of_flag (Some (FlagString s)) = s"
| "string_of_flag _ = []"

text \<open>The flag set exits on an error: with status 0 for help, 2 otherwise.\<close>

definition smi_main :: "(string \<Rightarrow> string) \<Rightarrow> string list \<Rightarrow> smi_output" where
  "smi_main getenv args =
     (case parse_flags (\<lambda>_. None) (smi_flags getenv) args of
        Inl e \<Rightarrow> ExitStatus (if e = ErrHelp then 0 else 2)
      | Inr vals \<Rightarrow>
          let int = (\<lambda>k. int_of_flag (map_of vals k)); str = (\<lambda>k. string_of_flag (map_of vals k)) in
          (case buildCards (int ''gpus-per-node'') (str ''product-name'') (int ''memory-bytes'')
                 (str ''partition-mode'') (int ''partition-count'') of
             None \<Rightarrow> SmiPanic
           | Some cards \<Rightarrow>
               if map_of vals ''json'' = Some (FlagBool True) then Document (printJSON cards)
               else Table (printTable cards)))"

section \<open>Cards and GPUs\<close>

lemma smi_partition_eq: "smi_partition mode count = norm_partition mode count"
  by (simp add: smi_partition_def norm_partition_def PartitionCPX_def PartitionSPX_def)

definition card_view :: "cardInfo \<Rightarrow> string \<times> string \<times> int \<times> string \<times> string" where
  "card_view c = (''gpu-'' @ itoa (ci_Index c), ci_Product c, VRAMTotalB c, ci_PartitionMode c, ci_PartitionID c)"

definition gpu_view :: "GPU \<Rightarrow> string \<times> string \<times> int \<times> string \<times> string" where
  "gpu_view g = (ID g, CardSeries g, MemoryTotal g, PartitionMode g, PartitionID g)"

lemma view_at: "card_view (card_at product perPart mode count phys part) =
    gpu_view (gpu_at host product perPart mode count phys part)"
  by (simp add: card_view_def gpu_view_def card_at_def gpu_at_def)

lemma make_ok_mono: "make_ok a n \<Longrightarrow> b \<le> a \<Longrightarrow> 0 \<le> b \<Longrightarrow> make_ok b n"
  by (auto simp: make_ok_def dest: mult_left_mono [of b a n])

lemma cards_gpus:
  assumes "buildCards n product mem mode count = Some cards"
  shows "\<exists>gs. BuildGPUs host product mem n mode count = Some gs \<and> map card_view cards = map gpu_view gs"
  using assms make_ok_mono [of 160 _ 104]
  by (auto simp: buildCards_def BuildGPUs_def smi_partition_eq map_concat view_at [of _ _ _ _ _ _ host] comp_def
      split: prod.splits if_splits)

lemma fold_update_fresh:
  "distinct (map key xs) \<Longrightarrow> \<forall>x \<in> set xs. key x \<notin> fst ` set m \<Longrightarrow>
     fold (\<lambda>x m. AList.update (key x) (f x) m) xs m = m @ map (\<lambda>x. (key x, f x)) xs"
proof (induction xs arbitrary: m)
  case (Cons x xs)
  then have "AList.update (key x) (f x) m = m @ [(key x, f x)]" by (simp add: update_fresh)
  moreover have "fold (\<lambda>x m. AList.update (key x) (f x) m) xs (m @ [(key x, f x)]) =
      (m @ [(key x, f x)]) @ map (\<lambda>x. (key x, f x)) xs"
    using Cons.prems by (intro Cons.IH) (auto, metis imageI)
  ultimately show ?case by simp
qed simp

text \<open>
  C28. The stand-in for rocm-smi describes the GPUs of the exporter: given the same counts, product, memory and
  partition arguments, whenever it lists cards, the exporter has its GPUs, and they are in the same order with the same
  numbers, product, memory share and partition labels; its JSON document has exactly one object per card,
  after the system object.
\<close>
theorem smi_matches_exporter:
  assumes "buildCards n product mem mode count = Some cards" "0 \<le> n"
    and "n * snd (norm_partition mode count) < 2 ^ 63"
  shows "\<exists>gs. BuildGPUs host product mem n mode count = Some gs \<and> map card_view cards = map gpu_view gs \<and>
    printJSON cards =
      (''system'', [(''Driver version'', driverVersion)]) #
      map (\<lambda>c. (''card'' @ itoa (ci_Index c), card_object c)) cards"
proof -
  obtain gs where gs: "BuildGPUs host product mem n mode count = Some gs" "map card_view cards = map gpu_view gs"
    using cards_gpus [OF assms(1)] by blast
  have "map (\<lambda>c. ''gpu-'' @ itoa (ci_Index c)) cards = map fst (map card_view cards)"
    by (simp add: card_view_def comp_def)
  also have "\<dots> = map ID gs" unfolding gs(2) by (simp add: gpu_view_def comp_def)
  also have "\<dots> = map (\<lambda>i. ''gpu-'' @ itoa i) (go_range (n * snd (norm_partition mode count)))"
    by (rule BuildGPUs_ids [OF gs(1) _ assms(2,3), of "fst (norm_partition mode count)"]) simp
  finally have "map ((@) ''gpu-'') (map (\<lambda>c. itoa (ci_Index c)) cards) =
      map ((@) ''gpu-'') (map itoa (go_range (n * snd (norm_partition mode count))))"
    by (simp add: comp_def)
  then have "map (\<lambda>c. itoa (ci_Index c)) cards = map itoa (go_range (n * snd (norm_partition mode count)))"
    by (rule map_injective) (simp add: inj_def)
  then have "distinct (map (\<lambda>c. itoa (ci_Index c)) cards)"
    by (simp add: distinct_map inj_on_def)
  then have "distinct (map (\<lambda>c. ''card'' @ itoa (ci_Index c)) cards)"
    by (simp add: distinct_map inj_on_def)
  then have "printJSON cards = (''system'', [(''Driver version'', driverVersion)]) #
      map (\<lambda>c. (''card'' @ itoa (ci_Index c), card_object c)) cards"
    unfolding printJSON_def by (subst fold_update_fresh) simp_all
  with gs show ?thesis by blast
qed

theorem smi_matches_exporter_witness:
  "map fst (printJSON (the (buildCards 2 ''MI300X'' 64 ''spx'' 1))) = [''system'', ''card0'', ''card1'']"
proof -
  have b: "(case buildCards 2 ''MI300X'' 64 ''spx'' 1 of None \<Rightarrow> False | Some cs \<Rightarrow> map ci_Index cs = [0, 1])"
    by code_simp
  then obtain cs where cs: "buildCards 2 ''MI300X'' 64 ''spx'' 1 = Some cs" "map ci_Index cs = [0, 1]"
    by (auto split: option.splits)
  have i: "itoa 0 = ''0''" "itoa 1 = ''1''" by code_simp+
  have "map (\<lambda>c. ''card'' @ itoa (ci_Index c)) cs = map (\<lambda>i. ''card'' @ itoa i) (map ci_Index cs)" by simp
  then show ?thesis
    using smi_matches_exporter [OF cs(1), of undefined] cs i
    by (auto simp: norm_partition_def PartitionCPX_def comp_def)
qed

end
