(* ===== verification/Interleaving.thy ===== *)
theory Interleaving
  imports Exporter
begin

text \<open>
  The operator's components running side by side: the annotator of every node (\<open>pkg/deviceplugin\<close>), the
  status-updater and the exporter of every node, against the API server and the kubelets. A state holds the
  servers, what each kubelet has assigned, and the local variables of the components between their calls;
  a step is one call of a component, or one of the environment: users, the scheduler, the kubelets and
  outages. An annotator pass and a status-updater pass are several steps, so that passes interleave with each
  other and with the environment. Two components of the state only record history: every assignment a
  kubelet ever made and every binding of a pod to a node.
\<close>

section \<open>States and steps\<close>

record sys =
  s_pods :: "(key, Pod) server"
  s_cms :: "(key, ConfigMap) server"
  s_kubelet :: "string \<Rightarrow> PodResources list"
  s_todo :: "string \<Rightarrow> (key \<times> string) list" \<comment> \<open>what an annotator still has to write in its pass\<close>
  s_built :: "Topology option" \<comment> \<open>built by the status-updater, not saved yet\<close>
  s_cache :: "string \<Rightarrow> worldState"
  s_granted :: "(string \<times> key \<times> string) set"
  s_bound :: "(key \<times> string) set"

text \<open>What the steps depend on: the YAML codec, the flags of the components.\<close>

record setting =
  st_marshal :: "Topology \<Rightarrow> string + string"
  st_unmarshal :: "string \<Rightarrow> string + Topology"
  st_namespace :: string
  st_resource :: string
  st_default :: string

definition pr_key :: "PodResources \<Rightarrow> key" where
  "pr_key pr = (pr_Namespace pr, pr_Name pr)"

text \<open>The writes of an annotator pass over a listing.\<close>

definition worklist :: "string \<Rightarrow> PodResources list \<Rightarrow> (key \<times> string) list" where
  "worklist resource prs =
     map (\<lambda>pr. (pr_key pr, join '','' (collectDevicesForResource pr resource)))
       (filter (\<lambda>pr. collectDevicesForResource pr resource \<noteq> []) prs)"

definition put_pod :: "key \<Rightarrow> Pod option \<Rightarrow> sys \<Rightarrow> sys" where
  "put_pod k p s = s\<lparr>s_pods := (s_pods s)\<lparr>objects := (objects (s_pods s))(k := p)\<rparr>\<rparr>"

definition system_load :: "setting \<Rightarrow> sys \<Rightarrow> string topology_error + Topology" where
  "system_load c s = Load srv_get (st_unmarshal c) (st_namespace c) (s_cms s)"

inductive sys_step :: "setting \<Rightarrow> sys \<Rightarrow> sys \<Rightarrow> bool" for c :: setting where
  pod_created:
    "objects (s_pods s) (pod_key p) = None \<Longrightarrow> p_node p = [] \<Longrightarrow> p_annotations p AssignedGPUsAnnotation = None \<Longrightarrow>
     sys_step c s (put_pod (pod_key p) (Some p) s)"
| pod_changed:
    "objects (s_pods s) k = Some p \<Longrightarrow> pod_key q = k \<Longrightarrow> p_node q = p_node p \<Longrightarrow>
     p_annotations q AssignedGPUsAnnotation = p_annotations p AssignedGPUsAnnotation \<Longrightarrow>
     sys_step c s (put_pod k (Some q) s)"
| pod_bound:
    "objects (s_pods s) k = Some p \<Longrightarrow> p_node p = [] \<Longrightarrow> n \<noteq> [] \<Longrightarrow>
     sys_step c s (put_pod k (Some (p\<lparr>p_node := n\<rparr>)) (s\<lparr>s_bound := insert (k, n) (s_bound s)\<rparr>))"
| pod_deleted: "sys_step c s (put_pod k None s)"
| outage:
    "sys_step c s (s\<lparr>s_pods := (s_pods s)\<lparr>unreachable := u\<rparr>, s_cms := (s_cms s)\<lparr>unreachable := v\<rparr>\<rparr>)"
| devices_granted:
    "n \<noteq> [] \<Longrightarrow>
     (\<And>pr d. pr \<in> set prs \<Longrightarrow> d \<in> set (collectDevicesForResource pr (st_resource c)) \<Longrightarrow>
        plain_id d \<and> (\<exists>p. objects (s_pods s) (pr_key pr) = Some p \<and> p_node p = n)) \<Longrightarrow>
     sys_step c s (s\<lparr>s_kubelet := (s_kubelet s)(n := prs),
       s_granted := s_granted s \<union>
         {(n, pr_key pr, d) | pr d. pr \<in> set prs \<and> d \<in> set (collectDevicesForResource pr (st_resource c))}\<rparr>)"
| pass_listed:
    "sys_step c s (s\<lparr>s_todo := (s_todo s)(n := worklist (st_resource c) (s_kubelet s n))\<rparr>)"
| pod_annotated:
    "s_todo s n = (k, v) # rest \<Longrightarrow>
     sys_step c s (s\<lparr>s_pods := snd (annotatePod srv_get srv_patch k v (s_pods s)), s_todo := (s_todo s)(n := rest)\<rparr>)"
| topology_built:
    "set pods = ran (objects (s_pods s)) \<Longrightarrow>
     sys_step c s (s\<lparr>s_built := Some (build_topology pods)\<rparr>)"
| topology_saved:
    "s_built s = Some t \<Longrightarrow>
     sys_step c s (s\<lparr>s_cms := snd (Save srv_get srv_create srv_update (st_marshal c) (st_namespace c) (Some t) (s_cms s)),
       s_built := None\<rparr>)"
| cache_refreshed:
    "sys_step c s (s\<lparr>s_cache := (s_cache s)(n :=
       Refresh (system_load c) (\<lambda>k s. srv_get k (s_pods s)) (st_default c) n s (s_cache s n))\<rparr>)"

inductive_cases sys_stepE: "sys_step c s s'"

definition initial_sys :: sys where
  "initial_sys =
     \<lparr>s_pods = \<lparr>objects = Map.empty, unreachable = (\<lambda>_. False)\<rparr>,
      s_cms = \<lparr>objects = Map.empty, unreachable = (\<lambda>_. False)\<rparr>,
      s_kubelet = (\<lambda>_. []), s_todo = (\<lambda>_. []), s_built = None, s_cache = (\<lambda>_. initial_state),
      s_granted = {}, s_bound = {}\<rparr>"

definition reachable :: "setting \<Rightarrow> sys \<Rightarrow> bool" where
  "reachable c s \<longleftrightarrow> (sys_step c)\<^sup>*\<^sup>* initial_sys s"

section \<open>The small steps are the passes of the code\<close>

text \<open>An annotator that lists and then writes without interruption performs \<open>annotator_reconcile\<close>.\<close>

lemma annotate_worklist:
  "s_todo s n = worklist r prs \<Longrightarrow>
   \<exists>s'. (sys_step c)\<^sup>*\<^sup>* s s' \<and> s_pods s' = snd (annotate_all srv_get srv_patch r prs (s_pods s)) \<and> s_todo s' n = []"
proof (induction prs arbitrary: s)
  case Nil
  then show ?case by (auto simp: worklist_def)
next
  case (Cons pr prs)
  show ?case
  proof (cases "collectDevicesForResource pr r = []")
    case True
    then show ?thesis using Cons by (simp add: worklist_def)
  next
    case False
    let ?v = "join '','' (collectDevicesForResource pr r)"
    let ?s1 = "s\<lparr>s_pods := snd (annotatePod srv_get srv_patch (pr_key pr) ?v (s_pods s)),
                 s_todo := (s_todo s)(n := worklist r prs)\<rparr>"
    have "sys_step c s ?s1"
      using Cons.prems False by (intro sys_step.pod_annotated) (simp add: worklist_def)
    moreover obtain s' where "(sys_step c)\<^sup>*\<^sup>* ?s1 s'"
      "s_pods s' = snd (annotate_all srv_get srv_patch r prs (s_pods ?s1))" "s_todo s' n = []"
      using Cons.IH [of ?s1] by auto
    ultimately show ?thesis
      using False by (intro exI [of _ s']) (auto simp: Let_def pr_key_def split: prod.split
          intro: converse_rtranclp_into_rtranclp)
  qed
qed

lemma annotator_pass_steps:
  "\<exists>s'. (sys_step c)\<^sup>*\<^sup>* s s' \<and>
     s_pods s' = snd (annotator_reconcile (\<lambda>_. Inr (s_kubelet s n)) srv_get srv_patch (st_resource c) (s_pods s))"
proof -
  let ?s1 = "s\<lparr>s_todo := (s_todo s)(n := worklist (st_resource c) (s_kubelet s n))\<rparr>"
  have "sys_step c s ?s1" by (rule sys_step.pass_listed)
  moreover obtain s' where "(sys_step c)\<^sup>*\<^sup>* ?s1 s'"
    "s_pods s' = snd (annotate_all srv_get srv_patch (st_resource c) (s_kubelet s n) (s_pods ?s1))"
    using annotate_worklist [of ?s1 n "st_resource c" "s_kubelet s n" c] by auto
  ultimately show ?thesis
    by (intro exI [of _ s']) (auto simp: annotator_reconcile_def intro: converse_rtranclp_into_rtranclp)
qed

section \<open>Provenance\<close>

text \<open>\<open>G\<close> are the grants and \<open>B\<close> the bindings of the past.\<close>

definition entry_ok :: "(string \<times> key \<times> string) set \<Rightarrow> (key \<times> string) set \<Rightarrow> string \<Rightarrow> Assignment \<Rightarrow> bool" where
  "entry_ok G B host a \<longleftrightarrow>
     ((PodNamespace a, PodName a), host) \<in> B \<and> (\<exists>n. (n, (PodNamespace a, PodName a), GPUID a) \<in> G)"

definition topology_ok :: "(string \<times> key \<times> string) set \<Rightarrow> (key \<times> string) set \<Rightarrow> Topology \<Rightarrow> bool" where
  "topology_ok G B t \<longleftrightarrow> (\<forall>host. \<forall>a \<in> set (nodes_of t host). entry_ok G B host a)"

definition pod_ok :: "(string \<times> key \<times> string) set \<Rightarrow> (key \<times> string) set \<Rightarrow> key \<Rightarrow> Pod \<Rightarrow> bool" where
  "pod_ok G B k p \<longleftrightarrow> pod_key p = k \<and> (p_node p \<noteq> [] \<longrightarrow> (k, p_node p) \<in> B) \<and>
     (\<forall>g \<in> set (annotated_ids p). \<exists>n. (n, k, g) \<in> G)"

definition write_ok :: "(string \<times> key \<times> string) set \<Rightarrow> key \<times> string \<Rightarrow> bool" where
  "write_ok G kv \<longleftrightarrow> (\<exists>gs. snd kv = join '','' gs \<and> gs \<noteq> [] \<and> (\<forall>g \<in> set gs. plain_id g \<and> (\<exists>n. (n, fst kv, g) \<in> G)))"

definition listing_ok :: "string \<Rightarrow> (string \<times> key \<times> string) set \<Rightarrow> PodResources \<Rightarrow> bool" where
  "listing_ok r G pr \<longleftrightarrow>
     (\<forall>d \<in> set (collectDevicesForResource pr r). plain_id d \<and> (\<exists>n. (n, pr_key pr, d) \<in> G))"

definition stored_ok :: "setting \<Rightarrow> (string \<times> key \<times> string) set \<Rightarrow> (key \<times> string) set \<Rightarrow> ConfigMap \<Rightarrow> bool" where
  "stored_ok c G B cm \<longleftrightarrow> stored_body cm = [] \<or>
     (\<exists>t. st_unmarshal c (stored_body cm) = Inr t \<and> topology_ok G B t)"

definition sys_ok :: "setting \<Rightarrow> sys \<Rightarrow> bool" where
  "sys_ok c s \<longleftrightarrow>
     (let G = s_granted s; B = s_bound s in
      (\<forall>(n, k, g) \<in> G. (k, n) \<in> B) \<and>
      (\<forall>k p. objects (s_pods s) k = Some p \<longrightarrow> pod_ok G B k p) \<and>
      (\<forall>n. \<forall>pr \<in> set (s_kubelet s n). listing_ok (st_resource c) G pr) \<and>
      (\<forall>n. \<forall>kv \<in> set (s_todo s n). write_ok G kv) \<and>
      (\<forall>t. s_built s = Some t \<longrightarrow> topology_ok G B t) \<and>
      (\<forall>cm. objects (s_cms s) (st_namespace c, ConfigMapName) = Some cm \<longrightarrow> stored_ok c G B cm) \<and>
      (\<forall>n. topology_ok G B (topo (s_cache s n))))"

lemmas ok_defs = entry_ok_def topology_ok_def pod_ok_def write_ok_def listing_ok_def stored_ok_def

lemma ok_mono:
  assumes "G \<subseteq> G'" "B \<subseteq> B'"
  shows "topology_ok G B t \<Longrightarrow> topology_ok G' B' t"
    and "pod_ok G B k p \<Longrightarrow> pod_ok G' B' k p"
    and "write_ok G kv \<Longrightarrow> write_ok G' kv"
    and "listing_ok r G pr \<Longrightarrow> listing_ok r G' pr"
    and "stored_ok c G B cm \<Longrightarrow> stored_ok c G' B' cm"
  using assms unfolding ok_defs by (meson subsetD)+

text \<open>The codec reads back what it writes.\<close>

definition codec_ok :: "setting \<Rightarrow> bool" where
  "codec_ok c \<longleftrightarrow> (\<forall>t body. st_marshal c t = Inr body \<longrightarrow> body \<noteq> [] \<and> st_unmarshal c body = Inr t)"

lemma topology_ok_Empty [simp]: "topology_ok G B Empty"
  by (simp add: topology_ok_def)

lemma topology_ok_ensure [simp]: "topology_ok G B (ensure_nodes t) = topology_ok G B t"
  by (simp add: topology_ok_def)

lemma built_ok:
  assumes "\<And>p. p \<in> set pods \<Longrightarrow> pod_ok G B (pod_key p) p"
  shows "topology_ok G B (build_topology pods)"
  unfolding topology_ok_def nodes_of_build
proof (intro allI ballI)
  fix host a
  assume "a \<in> set (concat (map pod_assignments (filter (\<lambda>p. p_node p = host) pods)))"
  then obtain p where p: "p \<in> set pods" "p_node p = host" "a \<in> set (pod_assignments p)" by auto
  then have "PodNamespace a = p_namespace p" "PodName a = p_name p" "host \<noteq> []" "GPUID a \<in> set (annotated_ids p)"
    using pod_assignments_fields [of a p] by (auto simp: pod_assignments_def assignment_for_def split: if_splits)
  then show "entry_ok G B host a"
    using assms [OF p(1)] p(2) by (auto simp: entry_ok_def pod_ok_def pod_key_def)
qed

lemma loaded_ok:
  assumes "system_load c s = Inr t"
    and "\<And>cm. objects (s_cms s) (st_namespace c, ConfigMapName) = Some cm \<Longrightarrow> stored_ok c G B cm"
  shows "topology_ok G B t"
  using assms
  by (auto simp: system_load_def Load_def srv_get_def stored_ok_def stored_body_def map_get_def srv_error_def
      split: if_splits option.splits sum.splits)

text \<open>What a save may store, whatever its outcome.\<close>

lemma stored_body_written [simp]:
  "stored_body (cm\<lparr>cm_data := Some (d(DataKey \<mapsto> b))\<rparr>) = b" "stored_body (new_configmap ns b) = b"
  by (simp_all add: stored_body_def new_configmap_def map_get_def)

lemma Save_effect:
  assumes "objects (snd (Save srv_get srv_create srv_update marshal ns (Some t) w)) (ns, ConfigMapName) = Some cm"
  shows "objects w (ns, ConfigMapName) = Some cm \<or> marshal (ensure_nodes t) = Inr (stored_body cm)"
  using assms
  by (auto simp: Save_def srv_defs Let_def apfst_def map_prod_def
      split: if_splits option.splits sum.splits prod.splits)

text \<open>What an annotation call may change, whatever its outcome.\<close>

lemma annotatePod_effect:
  assumes "objects (snd (annotatePod srv_get srv_patch k v w)) k1 = Some p"
  shows "objects w k1 = Some p \<or>
    (k1 = k \<and> (\<exists>q. objects w k = Some q \<and> p = set_annotation AssignedGPUsAnnotation v q))"
  using assms
  by (auto simp: annotatePod_def srv_get_def srv_patch_def apfst_def map_prod_def
      split: if_splits option.splits sum.splits prod.splits)

lemma annotated_ok:
  assumes "pod_ok G B k q" "write_ok G (k, v)"
  shows "pod_ok G B k (set_annotation AssignedGPUsAnnotation v q)"
proof -
  obtain gs where gs: "v = join '','' gs" "gs \<noteq> []" "\<forall>g \<in> set gs. plain_id g \<and> (\<exists>n. (n, k, g) \<in> G)"
    using assms(2) by (auto simp: write_ok_def)
  have "annotated_ids (set_annotation AssignedGPUsAnnotation v q) = gs"
    using gs by (intro annotated_ids_join) simp_all
  then show ?thesis
    using assms(1) gs(3) by (simp add: pod_ok_def set_annotation_def pod_key_def)
qed

lemma worklist_ok:
  assumes "\<forall>pr \<in> set prs. listing_ok r G pr" "kv \<in> set (worklist r prs)"
  shows "write_ok G kv"
  using assms unfolding worklist_def write_ok_def listing_ok_def by fastforce

lemma annotated_ids_same:
  "p_annotations q AssignedGPUsAnnotation = p_annotations p AssignedGPUsAnnotation \<Longrightarrow>
     annotated_ids q = annotated_ids p"
  by (simp add: annotated_ids_def map_get_def)

lemma annotated_ids_absent: "p_annotations p AssignedGPUsAnnotation = None \<Longrightarrow> annotated_ids p = []"
  by (simp add: annotated_ids_empty map_get_def)

text \<open>Every step keeps the invariant.\<close>

lemma put_pod_fields [simp]:
  "objects (s_pods (put_pod k p s)) = (objects (s_pods s))(k := p)" "s_cms (put_pod k p s) = s_cms s"
  "s_kubelet (put_pod k p s) = s_kubelet s" "s_todo (put_pod k p s) = s_todo s" "s_built (put_pod k p s) = s_built s"
  "s_cache (put_pod k p s) = s_cache s" "s_granted (put_pod k p s) = s_granted s" "s_bound (put_pod k p s) = s_bound s"
  by (simp_all add: put_pod_def)

lemma sys_okI:
  assumes "\<And>n k g. (n, k, g) \<in> s_granted s \<Longrightarrow> (k, n) \<in> s_bound s"
    and "\<And>k p. objects (s_pods s) k = Some p \<Longrightarrow> pod_ok (s_granted s) (s_bound s) k p"
    and "\<And>n pr. pr \<in> set (s_kubelet s n) \<Longrightarrow> listing_ok (st_resource c) (s_granted s) pr"
    and "\<And>n kv. kv \<in> set (s_todo s n) \<Longrightarrow> write_ok (s_granted s) kv"
    and "\<And>t. s_built s = Some t \<Longrightarrow> topology_ok (s_granted s) (s_bound s) t"
    and "\<And>cm. objects (s_cms s) (st_namespace c, ConfigMapName) = Some cm \<Longrightarrow> stored_ok c (s_granted s) (s_bound s) cm"
    and "\<And>n. topology_ok (s_granted s) (s_bound s) (topo (s_cache s n))"
  shows "sys_ok c s"
  using assms unfolding sys_ok_def Let_def by blast

lemma sys_okD:
  assumes "sys_ok c s"
  shows "(n, k, g) \<in> s_granted s \<Longrightarrow> (k, n) \<in> s_bound s"
    and "objects (s_pods s) k = Some p \<Longrightarrow> pod_ok (s_granted s) (s_bound s) k p"
    and "pr \<in> set (s_kubelet s n) \<Longrightarrow> listing_ok (st_resource c) (s_granted s) pr"
    and "kv \<in> set (s_todo s n) \<Longrightarrow> write_ok (s_granted s) kv"
    and "s_built s = Some t \<Longrightarrow> topology_ok (s_granted s) (s_bound s) t"
    and "objects (s_cms s) (st_namespace c, ConfigMapName) = Some cm \<Longrightarrow> stored_ok c (s_granted s) (s_bound s) cm"
    and "topology_ok (s_granted s) (s_bound s) (topo (s_cache s n))"
  using assms unfolding sys_ok_def Let_def by blast+

lemma put_pod_ok:
  assumes "sys_ok c s" "\<And>q. p = Some q \<Longrightarrow> pod_ok (s_granted s) (s_bound s) k q"
  shows "sys_ok c (put_pod k p s)"
proof (rule sys_okI, unfold put_pod_fields)
  fix k1 q assume "((objects (s_pods s))(k := p)) k1 = Some q"
  then show "pod_ok (s_granted s) (s_bound s) k1 q"
    using assms(2) sys_okD(2) [OF assms(1)] by (cases "k1 = k") simp_all
qed (erule sys_okD [OF assms(1)] | rule sys_okD [OF assms(1)])+

text \<open>More history never invalidates the invariant.\<close>

lemma more_history_ok:
  assumes "sys_ok c s" "s_granted s \<subseteq> G" "s_bound s \<subseteq> B" "\<And>n k g. (n, k, g) \<in> G \<Longrightarrow> (k, n) \<in> B"
  shows "sys_ok c (s\<lparr>s_granted := G, s_bound := B\<rparr>)"
  by (rule sys_okI; simp; blast intro: assms(4) ok_mono [OF assms(2,3)] sys_okD [OF assms(1)])

text \<open>Every step keeps the invariant.\<close>

lemma sys_step_ok:
  assumes "sys_step c s s'" "codec_ok c" "sys_ok c s"
  shows "sys_ok c s'"
  using assms(1)
proof cases
  case (pod_created p)
  have "pod_ok (s_granted s) (s_bound s) (pod_key p) p"
    by (simp add: pod_ok_def pod_created(3) annotated_ids_absent [OF pod_created(4)])
  then show ?thesis unfolding pod_created(1) by (intro put_pod_ok [OF assms(3)]) blast
next
  case (pod_changed k p q)
  have "pod_ok (s_granted s) (s_bound s) k q"
    using sys_okD(2) [OF assms(3) pod_changed(2)]
    by (simp add: pod_ok_def pod_changed(3,4) annotated_ids_same [OF pod_changed(5)])
  then show ?thesis unfolding pod_changed(1) by (intro put_pod_ok [OF assms(3)]) blast
next
  case (pod_bound k p n)
  let ?B = "insert (k, n) (s_bound s)"
  have "sys_ok c (s\<lparr>s_granted := s_granted s, s_bound := ?B\<rparr>)"
    using sys_okD(1) [OF assms(3)] by (intro more_history_ok [OF assms(3)]) auto
  moreover have "pod_ok (s_granted s) ?B k (p\<lparr>p_node := n\<rparr>)"
    using sys_okD(2) [OF assms(3) pod_bound(2)] by (simp add: pod_ok_def pod_key_def annotated_ids_def)
  ultimately have "sys_ok c (put_pod k (Some (p\<lparr>p_node := n\<rparr>)) (s\<lparr>s_granted := s_granted s, s_bound := ?B\<rparr>))"
    by (intro put_pod_ok) auto
  then show ?thesis unfolding pod_bound(1) by simp
next
  case (pod_deleted k)
  then show ?thesis using put_pod_ok [OF assms(3), of None k] by blast
next
  case (outage u v)
  show ?thesis unfolding outage(1) by (rule sys_okI; simp; blast intro: sys_okD [OF assms(3)])
next
  case (devices_granted n prs)
  let ?G = "s_granted s \<union>
    {(n, pr_key pr, d) | pr d. pr \<in> set prs \<and> d \<in> set (collectDevicesForResource pr (st_resource c))}"
  have bound: "(k, m) \<in> s_bound s" if "(m, k, g) \<in> ?G" for m k g
    using that sys_okD(1) [OF assms(3)]
  proof (elim UnE)
    assume "(m, k, g) \<in> {(n, pr_key pr, d) | pr d. pr \<in> set prs \<and> d \<in> set (collectDevicesForResource pr (st_resource c))}"
    then obtain pr where "m = n" "k = pr_key pr" "pr \<in> set prs" "g \<in> set (collectDevicesForResource pr (st_resource c))"
      by blast
    then obtain p where "objects (s_pods s) k = Some p" "p_node p = m" "m \<noteq> []"
      using devices_granted(2,3) by blast
    then show ?thesis using sys_okD(2) [OF assms(3), of k p] by (auto simp: pod_ok_def)
  qed blast
  have "sys_ok c (s\<lparr>s_granted := ?G, s_bound := s_bound s\<rparr>)"
    using bound by (intro more_history_ok [OF assms(3)]) auto
  moreover have "listing_ok (st_resource c) ?G pr" if "pr \<in> set prs" for pr
    using that devices_granted(3) by (auto simp: listing_ok_def)
  ultimately show ?thesis
    unfolding devices_granted(1) sys_ok_def Let_def by simp
next
  case (pass_listed n)
  have "write_ok (s_granted s) kv" if "kv \<in> set (worklist (st_resource c) (s_kubelet s n))" for kv
    using that sys_okD(3) [OF assms(3)] by (intro worklist_ok [OF _ that]) blast
  then show ?thesis using assms(3) unfolding pass_listed(1) sys_ok_def Let_def by simp
next
  case (pod_annotated n k v rest)
  have "write_ok (s_granted s) (k, v)" using sys_okD(4) [OF assms(3), of "(k, v)" n] pod_annotated(2) by simp
  then have "pod_ok (s_granted s) (s_bound s) k1 p"
    if "objects (snd (annotatePod srv_get srv_patch k v (s_pods s))) k1 = Some p" for k1 p
    using annotatePod_effect [OF that] sys_okD(2) [OF assms(3)] annotated_ok by blast
  moreover have "write_ok (s_granted s) kv" if "kv \<in> set rest" for kv
    using sys_okD(4) [OF assms(3), of kv n] pod_annotated(2) that by simp
  ultimately show ?thesis using assms(3) unfolding pod_annotated(1) sys_ok_def Let_def by simp
next
  case (topology_built pods)
  have "pod_ok (s_granted s) (s_bound s) (pod_key p) p" if "p \<in> set pods" for p
  proof -
    from that topology_built(2) obtain k where "objects (s_pods s) k = Some p" by (auto simp: ran_def)
    then show ?thesis using sys_okD(2) [OF assms(3)] by (metis pod_ok_def)
  qed
  then have "topology_ok (s_granted s) (s_bound s) (build_topology pods)" by (rule built_ok)
  then show ?thesis using assms(3) unfolding topology_built(1) sys_ok_def Let_def by simp
next
  case (topology_saved t)
  have t: "topology_ok (s_granted s) (s_bound s) (ensure_nodes t)"
    using sys_okD(5) [OF assms(3) topology_saved(2)] by simp
  have "stored_ok c (s_granted s) (s_bound s) cm"
    if "objects (snd (Save srv_get srv_create srv_update (st_marshal c) (st_namespace c) (Some t) (s_cms s)))
          (st_namespace c, ConfigMapName) = Some cm" for cm
    using Save_effect [OF that] sys_okD(6) [OF assms(3)] t assms(2) by (auto simp: stored_ok_def codec_ok_def)
  then show ?thesis using assms(3) unfolding topology_saved(1) sys_ok_def Let_def by simp
next
  case (cache_refreshed n)
  have "topology_ok (s_granted s) (s_bound s) t" if "system_load c s = Inr t" for t
    using that sys_okD(6) [OF assms(3)] by (rule loaded_ok)
  then have "topology_ok (s_granted s) (s_bound s)
      (topo (Refresh (system_load c) (\<lambda>k s. srv_get k (s_pods s)) (st_default c) n s (s_cache s n)))"
    using sys_okD(7) [OF assms(3)] by (auto simp: Refresh_def split: sum.split)
  then show ?thesis using assms(3) unfolding cache_refreshed(1) sys_ok_def Let_def by simp
qed

lemma initial_ok: "sys_ok c initial_sys"
  by (rule sys_okI) (simp_all add: initial_sys_def initial_state_def)

lemma reachable_ok:
  assumes "reachable c s" "codec_ok c"
  shows "sys_ok c s"
  using assms(1) unfolding reachable_def
  by (induction rule: rtranclp_induct) (use assms(2) in \<open>auto intro: initial_ok sys_step_ok\<close>)

text \<open>A GPU reported with a pod has an entry for that pod in the exporter's topology.\<close>

lemma scraped_entry:
  assumes "i < length gs" "sn_Pod (topologySampler st gs host rng ! i) \<noteq> []"
  obtains a where "a \<in> set (nodes_of (topo st) host)" "GPUID a = ID (gs ! i)"
    "sn_Pod (topologySampler st gs host rng ! i) = PodName a"
    "sn_Namespace (topologySampler st gs host rng ! i) = PodNamespace a"
proof (cases "FindAssignment (topo st) host (ID (gs ! i))")
  case None
  have "attributed st host (gs ! i) (topologySampler st gs host rng ! i)"
    by (rule list_all2_nthD [OF topologySampler_attributed assms(1)])
  then have "sn_Pod (topologySampler st gs host rng ! i) = []"
    using None by (simp add: attributed_def snapshotFromIdle_def snapshot_of_def)
  then show thesis using assms(2) by simp
next
  case (Some a)
  have "attributed st host (gs ! i) (topologySampler st gs host rng ! i)"
    by (rule list_all2_nthD [OF topologySampler_attributed assms(1)])
  then show thesis
    using Some FindAssignment_Some [OF Some] by (intro that [of a]) (simp_all add: attributed_def)
qed

text \<open>
  C3. No label comes out of thin air, whatever the interleaving. In every reachable state of the operator, with
  any number of concurrent annotator passes, topology rebuilds and refreshes, any failures, and pods created,
  moved, changed and deleted meanwhile, a GPU that an exporter reports with a pod was at some time granted to
  a pod of this name by a kubelet, and a pod of this name was bound to the exporter's node. When no pod name
  was ever bound to two nodes, the kubelet of that very node granted it.
\<close>

theorem labels_have_provenance:
  assumes "reachable c s" "codec_ok c" "i < length gs"
    and "sn_Pod (topologySampler (s_cache s host) gs host rng ! i) \<noteq> []"
  shows "let snap = topologySampler (s_cache s host) gs host rng ! i; k = (sn_Namespace snap, sn_Pod snap) in
     (k, host) \<in> s_bound s \<and> (\<exists>n. (n, k, ID (gs ! i)) \<in> s_granted s \<and> (k, n) \<in> s_bound s) \<and>
     ((\<forall>n. (k, n) \<in> s_bound s \<longrightarrow> n = host) \<longrightarrow> (host, k, ID (gs ! i)) \<in> s_granted s)"
proof -
  note ok = reachable_ok [OF assms(1,2)]
  obtain a where a: "a \<in> set (nodes_of (topo (s_cache s host)) host)" "GPUID a = ID (gs ! i)"
    "sn_Pod (topologySampler (s_cache s host) gs host rng ! i) = PodName a"
    "sn_Namespace (topologySampler (s_cache s host) gs host rng ! i) = PodNamespace a"
    by (rule scraped_entry [OF assms(3,4)])
  have "entry_ok (s_granted s) (s_bound s) host a"
    using sys_okD(7) [OF ok] a(1) by (simp add: topology_ok_def)
  then obtain n where "((PodNamespace a, PodName a), host) \<in> s_bound s" "(n, (PodNamespace a, PodName a), GPUID a) \<in> s_granted s"
    unfolding entry_ok_def by blast
  then show ?thesis using sys_okD(1) [OF ok] unfolding Let_def a(2-4) by metis
qed

section \<open>A run\<close>

text \<open>One pod on one node: created, bound, granted two GPUs, annotated, published and cached.\<close>

definition one_pod_setting :: setting where
  "one_pod_setting =
     \<lparr>st_marshal = (\<lambda>t. if t = build_topology [annotated_pod] then Inr demo_body else Inl ''unsupported''),
      st_unmarshal = (\<lambda>b. if b = demo_body then Inr (build_topology [annotated_pod]) else Inl ''unsupported''),
      st_namespace = ''sims'', st_resource = ''amd.com/gpu'', st_default = ''5-15''\<rparr>"

lemma one_pod_codec: "codec_ok one_pod_setting"
  by (simp add: codec_ok_def one_pod_setting_def demo_body_def)

lemma reachable_step: "reachable c s \<Longrightarrow> sys_step c s s' \<Longrightarrow> reachable c s'"
  unfolding reachable_def by simp

lemma demo_devices: "collectDevicesForResource demo_resources ''amd.com/gpu'' = [''gpu-0'', ''gpu-1'']"
  by code_simp

lemma demo_key: "pr_key demo_resources = (''default'', ''train'')" "pod_key demo_pod = (''default'', ''train'')"
  by (simp_all add: pr_key_def demo_resources_def pod_key_def demo_pod_def)

lemma plain_demo: "plain_id ''gpu-0'' \<and> plain_id ''gpu-1''"
  by (simp add: plain_id_def visible_def)

lemma granted_state:
  obtains s where "reachable one_pod_setting s" "s_pods s = \<lparr>objects = [(''default'', ''train'') \<mapsto> demo_pod], unreachable = (\<lambda>_. False)\<rparr>"
    "s_cms s = \<lparr>objects = Map.empty, unreachable = (\<lambda>_. False)\<rparr>" "s_kubelet s ''node-1'' = [demo_resources]"
    "fst ` s_granted s = {''node-1''}"
proof -
  let ?p = "demo_pod\<lparr>p_node := []\<rparr>"
  let ?s1 = "put_pod (''default'', ''train'') (Some ?p) initial_sys"
  have k: "pod_key ?p = (''default'', ''train'')" by (simp add: pod_key_def demo_pod_def)
  have "sys_step one_pod_setting initial_sys (put_pod (pod_key ?p) (Some ?p) initial_sys)"
    by (rule sys_step.pod_created) (simp_all add: initial_sys_def demo_pod_def)
  then have r1: "reachable one_pod_setting ?s1" unfolding k by (simp add: reachable_def)
  let ?s2 = "put_pod (''default'', ''train'') (Some (?p\<lparr>p_node := ''node-1''\<rparr>))
    (?s1\<lparr>s_bound := insert ((''default'', ''train''), ''node-1'') (s_bound ?s1)\<rparr>)"
  have "sys_step one_pod_setting ?s1 ?s2"
    by (rule sys_step.pod_bound) simp_all
  then have r2: "reachable one_pod_setting ?s2" by (rule reachable_step [OF r1])
  have d: "?p\<lparr>p_node := ''node-1''\<rparr> = demo_pod" by (simp add: demo_pod_def)
  let ?s3 = "?s2\<lparr>s_kubelet := (s_kubelet ?s2)(''node-1'' := [demo_resources]),
    s_granted := s_granted ?s2 \<union> {(''node-1'', pr_key pr, x) | pr x. pr \<in> set [demo_resources] \<and>
      x \<in> set (collectDevicesForResource pr (st_resource one_pod_setting))}\<rparr>"
  have "sys_step one_pod_setting ?s2 ?s3"
    using plain_demo
    by (intro sys_step.devices_granted) (auto simp: one_pod_setting_def demo_devices demo_key d, simp_all add: demo_pod_def)
  then have "reachable one_pod_setting ?s3" by (rule reachable_step [OF r2])
  moreover have "fst ` s_granted ?s3 = {''node-1''}"
    using demo_devices by (force simp: one_pod_setting_def initial_sys_def)
  ultimately show thesis
    by (intro that [of ?s3]) (simp_all add: d, simp_all add: put_pod_def initial_sys_def)
qed

lemma annotated_state:
  obtains s where "reachable one_pod_setting s"
    "s_pods s = \<lparr>objects = [(''default'', ''train'') \<mapsto> annotated_pod], unreachable = (\<lambda>_. False)\<rparr>"
    "s_cms s = \<lparr>objects = Map.empty, unreachable = (\<lambda>_. False)\<rparr>"
proof -
  obtain s where s: "reachable one_pod_setting s"
    "s_pods s = \<lparr>objects = [(''default'', ''train'') \<mapsto> demo_pod], unreachable = (\<lambda>_. False)\<rparr>"
    "s_cms s = \<lparr>objects = Map.empty, unreachable = (\<lambda>_. False)\<rparr>" "s_kubelet s ''node-1'' = [demo_resources]"
    by (rule granted_state)
  let ?s1 = "s\<lparr>s_todo := (s_todo s)(''node-1'' := worklist ''amd.com/gpu'' (s_kubelet s ''node-1''))\<rparr>"
  have "sys_step one_pod_setting s ?s1"
    using sys_step.pass_listed [of one_pod_setting s "''node-1''"] by (simp add: one_pod_setting_def)
  then have r1: "reachable one_pod_setting ?s1" by (rule reachable_step [OF s(1)])
  let ?s2 = "?s1\<lparr>s_pods := snd (annotatePod srv_get srv_patch (''default'', ''train'') ''gpu-0,gpu-1'' (s_pods ?s1)),
    s_todo := (s_todo ?s1)(''node-1'' := [])\<rparr>"
  have "sys_step one_pod_setting ?s1 ?s2"
    by (rule sys_step.pod_annotated) (simp add: worklist_def s(4) demo_devices demo_key)
  then have "reachable one_pod_setting ?s2" by (rule reachable_step [OF r1])
  moreover have "map_get (p_annotations demo_pod) AssignedGPUsAnnotation = []"
    by (simp add: demo_pod_def map_get_def)
  ultimately show thesis
    by (intro that [of ?s2]) (simp_all add: s annotatePod_def srv_get_def srv_patch_def annotated_pod_def)
qed

lemma cached_state:
  obtains s where "reachable one_pod_setting s" "topo (s_cache s ''node-1'') = build_topology [annotated_pod]"
proof -
  obtain s where s: "reachable one_pod_setting s"
    "s_pods s = \<lparr>objects = [(''default'', ''train'') \<mapsto> annotated_pod], unreachable = (\<lambda>_. False)\<rparr>"
    "s_cms s = \<lparr>objects = Map.empty, unreachable = (\<lambda>_. False)\<rparr>"
    by (rule annotated_state)
  let ?t = "build_topology [annotated_pod]"
  let ?s1 = "s\<lparr>s_built := Some ?t\<rparr>"
  have "sys_step one_pod_setting s ?s1"
    by (rule sys_step.topology_built) (simp add: s)
  then have r1: "reachable one_pod_setting ?s1" by (rule reachable_step [OF s(1)])
  let ?cms = "snd (Save srv_get srv_create srv_update (st_marshal one_pod_setting) (st_namespace one_pod_setting) (Some ?t) (s_cms ?s1))"
  let ?s2 = "?s1\<lparr>s_cms := ?cms, s_built := None\<rparr>"
  have "sys_step one_pod_setting ?s1 ?s2"
    by (rule sys_step.topology_saved) simp
  then have r2: "reachable one_pod_setting ?s2" by (rule reachable_step [OF r1])
  have nodes: "ensure_nodes ?t = ?t" by (simp add: build_topology_def ensure_nodes_def)
  have load: "system_load one_pod_setting ?s2 = Inr ?t"
    by (simp add: system_load_def Load_def Save_def s srv_defs one_pod_setting_def nodes new_configmap_def demo_body_def)
  let ?s3 = "?s2\<lparr>s_cache := (s_cache ?s2)(''node-1'' := Refresh (system_load one_pod_setting)
    (\<lambda>k s. srv_get k (s_pods s)) (st_default one_pod_setting) ''node-1'' ?s2 (s_cache ?s2 ''node-1''))\<rparr>"
  have "reachable one_pod_setting ?s3" by (rule reachable_step [OF r2 sys_step.cache_refreshed])
  then show thesis by (rule that) (use load in \<open>simp add: Refresh_def\<close>)
qed

lemma annotated_pod_entries:
  "nodes_of (build_topology [annotated_pod]) ''node-1'' =
     [assignment_for annotated_pod (firstGPUContainer amdGPUResource annotated_pod) ''gpu-0'',
      assignment_for annotated_pod (firstGPUContainer amdGPUResource annotated_pod) ''gpu-1'']"
proof -
  have "p_node annotated_pod = ''node-1''" by (simp add: annotated_pod_def set_annotation_def demo_pod_def)
  moreover have "annotated_ids annotated_pod = [''gpu-0'', ''gpu-1'']"
    using plain_demo by (intro annotated_ids_join) (simp_all add: annotated_pod_def)
  ultimately show ?thesis by (simp add: nodes_of_build pod_assignments_def)
qed

theorem labels_have_provenance_witness:
  "\<exists>s. reachable one_pod_setting s \<and>
     sn_Pod (topologySampler (s_cache s ''node-1'') [gpu_at ''node-1'' ''MI300X'' 64 ''spx'' 1 0 0] ''node-1'' (\<lambda>_. 1 / 2) ! 0)
       = ''train'' \<and>
     ((''default'', ''train''), ''node-1'') \<in> s_bound s \<and>
     (\<exists>n. (n, (''default'', ''train''), ''gpu-0'') \<in> s_granted s)"
proof -
  obtain s where s: "reachable one_pod_setting s" "topo (s_cache s ''node-1'') = build_topology [annotated_pod]"
    by (rule cached_state)
  let ?g = "gpu_at ''node-1'' ''MI300X'' 64 ''spx'' 1 0 0"
  let ?snap = "topologySampler (s_cache s ''node-1'') [?g] ''node-1'' (\<lambda>_. 1 / 2) ! 0"
  have g: "ID ?g = ''gpu-0''" by code_simp
  have "attributed (s_cache s ''node-1'') ''node-1'' ?g ?snap"
    using list_all2_nthD [OF topologySampler_attributed, of 0 "[?g]"] by simp
  then have lab: "sn_Pod ?snap = ''train''" "sn_Namespace ?snap = ''default''"
    by (simp_all add: attributed_def s(2) g FindAssignment_def annotated_pod_entries assignment_for_def)
       (simp_all add: annotated_pod_def set_annotation_def demo_pod_def)
  then show ?thesis
    using labels_have_provenance [OF s(1) one_pod_codec, of 0 "[?g]" "''node-1''" "\<lambda>_. 1 / 2"] s(1) g
    by (auto simp: Let_def)
qed

text \<open>
  Why the pod names must not move between nodes: the annotator's patch names the pod by namespace and name
  only. A pass that listed a pod on one node can write its devices onto a pod of the same name that was created
  on another node meanwhile, whose kubelet granted nothing.
\<close>

lemma stale_write:
  "\<exists>s q. reachable one_pod_setting s \<and> objects (s_pods s) (''default'', ''train'') = Some q \<and>
     p_node q = ''node-2'' \<and> map_get (p_annotations q) AssignedGPUsAnnotation = ''gpu-0,gpu-1'' \<and>
     fst ` s_granted s = {''node-1''}"
proof -
  let ?k = "(''default'', ''train'')" and ?p = "demo_pod\<lparr>p_node := []\<rparr>"
  obtain s where s: "reachable one_pod_setting s"
    "s_pods s = \<lparr>objects = [?k \<mapsto> demo_pod], unreachable = (\<lambda>_. False)\<rparr>"
    "s_kubelet s ''node-1'' = [demo_resources]" "fst ` s_granted s = {''node-1''}"
    by (rule granted_state)
  let ?s1 = "s\<lparr>s_todo := (s_todo s)(''node-1'' := worklist ''amd.com/gpu'' (s_kubelet s ''node-1''))\<rparr>"
  have "sys_step one_pod_setting s ?s1"
    using sys_step.pass_listed [of one_pod_setting s "''node-1''"] by (simp add: one_pod_setting_def)
  then have r1: "reachable one_pod_setting ?s1" by (rule reachable_step [OF s(1)])
  let ?s2 = "put_pod ?k None ?s1"
  have r2: "reachable one_pod_setting ?s2" by (rule reachable_step [OF r1 sys_step.pod_deleted])
  let ?s3 = "put_pod ?k (Some ?p) ?s2"
  have k: "pod_key ?p = ?k" by (simp add: pod_key_def demo_pod_def)
  have "sys_step one_pod_setting ?s2 (put_pod (pod_key ?p) (Some ?p) ?s2)"
    by (rule sys_step.pod_created) (simp_all add: k, simp_all add: demo_pod_def)
  then have r3: "reachable one_pod_setting ?s3" unfolding k by (rule reachable_step [OF r2])
  let ?q = "?p\<lparr>p_node := ''node-2''\<rparr>"
  let ?s4 = "put_pod ?k (Some ?q) (?s3\<lparr>s_bound := insert (?k, ''node-2'') (s_bound ?s3)\<rparr>)"
  have "sys_step one_pod_setting ?s3 ?s4" by (rule sys_step.pod_bound) simp_all
  then have r4: "reachable one_pod_setting ?s4" by (rule reachable_step [OF r3])
  let ?s5 = "?s4\<lparr>s_pods := snd (annotatePod srv_get srv_patch ?k ''gpu-0,gpu-1'' (s_pods ?s4)),
    s_todo := (s_todo ?s4)(''node-1'' := [])\<rparr>"
  have "sys_step one_pod_setting ?s4 ?s5"
    by (rule sys_step.pod_annotated) (simp add: worklist_def s(3) demo_devices demo_key)
  then have r5: "reachable one_pod_setting ?s5" by (rule reachable_step [OF r4])
  have "s_pods ?s4 = \<lparr>objects = [?k \<mapsto> ?q], unreachable = (\<lambda>_. False)\<rparr>" by (simp add: put_pod_def s(2))
  moreover have "map_get (p_annotations ?q) AssignedGPUsAnnotation = []" by (simp add: demo_pod_def map_get_def)
  ultimately have "objects (s_pods ?s5) ?k = Some (set_annotation AssignedGPUsAnnotation ''gpu-0,gpu-1'' ?q)"
    by (simp add: annotatePod_def srv_get_def srv_patch_def)
  moreover have "p_node (set_annotation AssignedGPUsAnnotation ''gpu-0,gpu-1'' ?q) = ''node-2''"
    by (simp add: set_annotation_def)
  moreover have "fst ` s_granted ?s5 = {''node-1''}" using s(4) by simp
  ultimately show ?thesis
    by (intro exI [of _ ?s5] exI [of _ "set_annotation AssignedGPUsAnnotation ''gpu-0,gpu-1'' ?q"] conjI)
       (rule r5, assumption+, rule trans [OF map_get_set_annotation], simp, assumption)
qed

end
