(* ===== verification/Kube_Ops.thy ===== *)
theory Kube_Ops
  imports Pods "HOL-Library.Product_Lexorder"
begin

text \<open>
  Package \<open>kube\<close> (\<open>pkg/kube\<close>): the queries and waits the command-line tool runs against a cluster.
  A polling loop consumes a list of rounds, one per iteration, with what the server answered in it and
  whether the context was done at its end; a list that runs out is a wait still blocked. The API calls
  of \<open>ensureNamespace\<close> are interleaved with steps of other clients.
\<close>

definition gpuVendorLabel :: string where "gpuVendorLabel = ''sims.io/gpu-vendor''"

record Node =
  n_Name :: string
  n_Labels :: "string \<rightharpoonup> string"
  n_Capacity :: "string \<rightharpoonup> Quantity"
  n_KubeletVersion :: string

text \<open>\<open>Quantity.AsInt64\<close>.\<close>

definition as_int64 :: "Quantity \<Rightarrow> int option" where
  "as_int64 q = (case quotient_of q of (n, d) \<Rightarrow> if d = 1 \<and> in_i64 n then Some n else None)"

section \<open>Waiting\<close>

datatype wait_result = WaitOk | WaitFailed api_error | WaitTimeout | WaitBlocked

definition hasCapacity :: "Node \<Rightarrow> string \<Rightarrow> Quantity \<Rightarrow> bool" where
  "hasCapacity n name want = (case n_Capacity n name of None \<Rightarrow> False | Some got \<Rightarrow> want \<le> got)"

text \<open>The answer is the list of nodes that carry the vendor label.\<close>

definition countReadyWorkers :: "api_error + Node list \<Rightarrow> string \<Rightarrow> Quantity \<Rightarrow> api_error + nat" where
  "countReadyWorkers answer resource want =
     (case answer of Inl e \<Rightarrow> Inl e | Inr ns \<Rightarrow> Inr (length (filter (\<lambda>n. hasCapacity n resource want) ns)))"

fun waitForCapacity ::
  "string \<Rightarrow> int \<Rightarrow> int \<Rightarrow> ((api_error + Node list) \<times> bool) list \<Rightarrow> wait_result" where
  "waitForCapacity resource perNode nodes [] = WaitBlocked"
| "waitForCapacity resource perNode nodes ((answer, ctx_done) # rounds) =
     (case countReadyWorkers answer resource (of_int perNode) of
        Inl e \<Rightarrow> WaitFailed e
      | Inr ready \<Rightarrow>
          if int ready \<ge> nodes then WaitOk
          else if ctx_done then WaitTimeout
          else waitForCapacity resource perNode nodes rounds)"

text \<open>A deployment is the list of its conditions, type and status.\<close>

definition deploymentAvailable :: "(string \<times> string) list \<Rightarrow> bool" where
  "deploymentAvailable conds = list_ex (\<lambda>(t, s). t = ''Available'' \<and> s = ''True'') conds"

fun waitForDeploymentAvailable :: "((api_error + (string \<times> string) list) \<times> bool) list \<Rightarrow> wait_result" where
  "waitForDeploymentAvailable [] = WaitBlocked"
| "waitForDeploymentAvailable ((answer, ctx_done) # rounds) =
     (case answer of
        Inl e \<Rightarrow>
          if e \<noteq> NotFound then WaitFailed e
          else if ctx_done then WaitTimeout else waitForDeploymentAvailable rounds
      | Inr d \<Rightarrow>
          if deploymentAvailable d then WaitOk
          else if ctx_done then WaitTimeout else waitForDeploymentAvailable rounds)"

section \<open>Vendor detection and the status snapshot\<close>

datatype query_error = ListNodes api_error | ListPodsFailed api_error | NoVendorLabel

definition node_vendor :: "Node \<Rightarrow> string" where
  "node_vendor n = map_get (n_Labels n) gpuVendorLabel"

definition detectVendor :: "api_error + Node list \<Rightarrow> query_error + string" where
  "detectVendor answer =
     (case answer of
        Inl e \<Rightarrow> Inl (ListNodes e)
      | Inr ns \<Rightarrow>
          (case find (\<lambda>n. node_vendor n \<noteq> []) ns of
             None \<Rightarrow> Inl NoVendorLabel
           | Some n \<Rightarrow> Inr (node_vendor n)))"

record NodeSnapshot =
  ns_Name :: string
  ns_Role :: string
  ns_GPUCapacity :: int

record PodSnapshot =
  ps_Namespace :: string
  ps_Name :: string
  ps_Node :: string
  ps_GPUs :: int
  ps_Phase :: string

record ClusterSnapshot =
  cs_Vendor :: string
  cs_K8sVersion :: string
  cs_Nodes :: "NodeSnapshot list"
  cs_GPUPods :: "PodSnapshot list"

text \<open>The first loop over the nodes: version and vendor of the first node that has one.\<close>

fun scan_nodes :: "Node list \<Rightarrow> string \<times> string \<Rightarrow> string \<times> string" where
  "scan_nodes [] vv = vv"
| "scan_nodes (n # ns) (version, vendor) =
     scan_nodes ns (if version = [] then n_KubeletVersion n else version,
                    if vendor = [] then node_vendor n else vendor)"

definition node_snapshot :: "string \<Rightarrow> Node \<Rightarrow> NodeSnapshot" where
  "node_snapshot gpuResource n =
     \<lparr>ns_Name = n_Name n,
      ns_Role = (if n_Labels n ''node-role.kubernetes.io/control-plane'' \<noteq> None then ''control-plane''
                 else ''worker''),
      ns_GPUCapacity =
        (if gpuResource = [] then 0
         else case n_Capacity n gpuResource of
           None \<Rightarrow> 0
         | Some q \<Rightarrow> (case as_int64 q of None \<Rightarrow> 0 | Some v \<Rightarrow> v))\<rparr>"

fun add_requests :: "string \<Rightarrow> PodContainer list \<Rightarrow> int \<Rightarrow> int" where
  "add_requests resource [] acc = acc"
| "add_requests resource (c # cs) acc =
     add_requests resource cs
       (case Option.bind (c_limits c resource) as_int64 of None \<Rightarrow> acc | Some v \<Rightarrow> i64 (acc + v))"

definition podGPURequest :: "Pod \<Rightarrow> string \<Rightarrow> int" where
  "podGPURequest p resource = add_requests resource (p_containers p) 0"

text \<open>\<open>sort.Slice\<close> by namespace, then name; these are unique in a cluster, so stability plays no part.\<close>

definition gpu_pods :: "string \<Rightarrow> Pod list \<Rightarrow> PodSnapshot list" where
  "gpu_pods resource pods =
     sort_key (\<lambda>s. (ps_Namespace s, ps_Name s))
       (map (\<lambda>p. \<lparr>ps_Namespace = p_namespace p, ps_Name = p_name p, ps_Node = p_node p,
                  ps_GPUs = podGPURequest p resource, ps_Phase = p_phase p\<rparr>)
         (filter (\<lambda>p. podGPURequest p resource \<noteq> 0) pods))"

definition Snapshot_cluster ::
  "('w \<Rightarrow> api_error + Node list) \<Rightarrow> ('w \<Rightarrow> api_error + Pod list) \<Rightarrow> 'w \<Rightarrow> query_error + ClusterSnapshot" where
  "Snapshot_cluster list_nodes list_pods w =
     (case list_nodes w of
        Inl e \<Rightarrow> Inl (ListNodes e)
      | Inr ns \<Rightarrow>
          let (version, vendor) = scan_nodes ns ([], []);
              resource = (if vendor = [] then [] else vendor @ ''.com/gpu'');
              nodes = map (node_snapshot resource) ns
          in if resource = [] then
               Inr \<lparr>cs_Vendor = vendor, cs_K8sVersion = version, cs_Nodes = nodes, cs_GPUPods = []\<rparr>
             else case list_pods w of
               Inl e \<Rightarrow> Inl (ListPodsFailed e)
             | Inr pods \<Rightarrow>
                 Inr \<lparr>cs_Vendor = vendor, cs_K8sVersion = version, cs_Nodes = nodes,
                      cs_GPUPods = gpu_pods resource pods\<rparr>)"

section \<open>Namespaces\<close>

type_synonym NamespaceObj = "(string \<rightharpoonup> string) option" \<comment> \<open>its labels, \<open>None\<close> for a nil map\<close>

datatype ns_error = GetNS api_error | CreateNS api_error | GetAfterRace api_error | UpdateNS api_error | DeleteNS api_error

text \<open>The loop over the wanted labels: the new label map, and whether anything changed.\<close>

fun merge_labels :: "(string \<times> string) list \<Rightarrow> (string \<rightharpoonup> string) \<Rightarrow> bool \<Rightarrow> (string \<rightharpoonup> string) \<times> bool" where
  "merge_labels [] m mutated = (m, mutated)"
| "merge_labels ((k, v) # ls) m mutated =
     (if map_get m k \<noteq> v then merge_labels ls (m(k \<mapsto> v)) True else merge_labels ls m mutated)"

text \<open>The part after the namespace object has been read.\<close>

definition label_namespace ::
  "(string \<Rightarrow> NamespaceObj \<Rightarrow> 'w \<Rightarrow> api_error option \<times> 'w) \<Rightarrow> ('w \<Rightarrow> 'w) \<Rightarrow> string \<Rightarrow>
   (string \<times> string) list \<Rightarrow> NamespaceObj \<Rightarrow> 'w \<Rightarrow> ns_error option \<times> 'w" where
  "label_namespace update env name labels ns w =
     (let (m, mutated) = merge_labels labels (case ns of None \<Rightarrow> Map.empty | Some m \<Rightarrow> m) False in
      if \<not> mutated then (None, w)
      else apfst (map_option UpdateNS) (update name (Some m) (env w)))"

text \<open>\<open>env i\<close> is what other clients do between two of the calls.\<close>

definition ensureNamespace ::
  "(string \<Rightarrow> 'w \<Rightarrow> api_error + NamespaceObj) \<Rightarrow> (string \<Rightarrow> NamespaceObj \<Rightarrow> 'w \<Rightarrow> api_error option \<times> 'w) \<Rightarrow>
   (string \<Rightarrow> NamespaceObj \<Rightarrow> 'w \<Rightarrow> api_error option \<times> 'w) \<Rightarrow> (nat \<Rightarrow> 'w \<Rightarrow> 'w) \<Rightarrow> string \<Rightarrow>
   (string \<times> string) list \<Rightarrow> 'w \<Rightarrow> ns_error option \<times> 'w" where
  "ensureNamespace get create update env name labels w =
     (case get name w of
        Inr ns \<Rightarrow> label_namespace update (env 0) name labels ns w
      | Inl e \<Rightarrow>
          if e \<noteq> NotFound then (Some (GetNS e), w)
          else
            (case create name (Some (map_of labels)) (env 0 w) of
               (None, w1) \<Rightarrow> (None, w1)
             | (Some e, w1) \<Rightarrow>
                 if e \<noteq> AlreadyExists then (Some (CreateNS e), w1)
                 else let w2 = env 1 w1 in
                   (case get name w2 of
                      Inl e \<Rightarrow> (Some (GetAfterRace e), w2)
                    | Inr ns \<Rightarrow> label_namespace update (env 2) name labels ns w2)))"

definition deleteNamespace ::
  "(string \<Rightarrow> 'w \<Rightarrow> api_error option \<times> 'w) \<Rightarrow> string \<Rightarrow> 'w \<Rightarrow> ns_error option \<times> 'w" where
  "deleteNamespace delete name w =
     (case delete name w of
        (None, w') \<Rightarrow> (None, w')
      | (Some e, w') \<Rightarrow> if e \<noteq> NotFound then (Some (DeleteNS e), w') else (None, w'))"

section \<open>Lemmas\<close>

text \<open>A wait ends well exactly when some round has enough ready workers and no earlier round ended it.\<close>

definition enough :: "string \<Rightarrow> int \<Rightarrow> int \<Rightarrow> api_error + Node list \<Rightarrow> bool" where
  "enough resource perNode nodes answer \<longleftrightarrow>
     (case answer of
        Inl _ \<Rightarrow> False
      | Inr ns \<Rightarrow> nodes \<le> int (length (filter (\<lambda>n. hasCapacity n resource (of_int perNode)) ns)))"

lemma waitForCapacity_Ok:
  "waitForCapacity resource perNode nodes rounds = WaitOk \<longleftrightarrow>
   (\<exists>i < length rounds. enough resource perNode nodes (fst (rounds ! i)) \<and>
     (\<forall>j < i. \<not> isl (fst (rounds ! j)) \<and> \<not> snd (rounds ! j)))"
proof (induction rounds)
  case (Cons r rounds)
  obtain answer ctx_done where r: "r = (answer, ctx_done)" by fastforce
  show ?case
  proof (cases "enough resource perNode nodes answer")
    case True
    then have "waitForCapacity resource perNode nodes (r # rounds) = WaitOk"
      by (auto simp: r enough_def countReadyWorkers_def split: sum.splits)
    with True show ?thesis by (auto simp: r intro!: exI [of _ 0])
  next
    case False
    then have step: "waitForCapacity resource perNode nodes (r # rounds) = WaitOk \<longleftrightarrow>
        \<not> isl answer \<and> \<not> ctx_done \<and> waitForCapacity resource perNode nodes rounds = WaitOk"
      by (auto simp: r enough_def countReadyWorkers_def split: sum.splits)
    have split: "(\<exists>i < Suc n. P i) \<longleftrightarrow> P 0 \<or> (\<exists>i < n. P (Suc i))" for P n
      using less_Suc_eq_0_disj by auto
    have all: "(\<forall>j < Suc i. Q j) \<longleftrightarrow> Q 0 \<and> (\<forall>j < i. Q (Suc j))" for Q i
      using less_Suc_eq_0_disj by auto
    show ?thesis unfolding step Cons.IH using False by (auto simp: r split all)
  qed
qed simp

lemma merge_labels_get:
  assumes "distinct (map fst ls)"
  shows "map_get (fst (merge_labels ls m b)) k =
    (case map_of ls k of None \<Rightarrow> map_get m k | Some v \<Rightarrow> v)"
  using assms
proof (induction ls m b rule: merge_labels.induct)
  case (2 k' v ls m b)
  have none: "map_of ls k' = None" using "2.prems" by (simp add: map_of_eq_None_iff)
  have d: "distinct (map fst ls)" using "2.prems" by simp
  show ?case
  proof (cases "map_get m k' = v")
    case True
    with "2.IH"(2) [OF _ d] none show ?thesis by simp
  next
    case False
    have "map_get (m(k' \<mapsto> v)) k = (if k = k' then v else map_get m k)"
      "map_of ((k', v) # ls) k = (if k = k' then Some v else map_of ls k)"
      by (simp_all add: map_get_def)
    with "2.IH"(1) [OF False d] False none show ?thesis
      by (cases "k = k'") (simp_all del: fun_upd_apply map_of.simps split: option.splits)
  qed
qed simp

lemma merge_labels_unchanged: "\<not> snd (merge_labels ls m b) \<Longrightarrow> fst (merge_labels ls m b) = m \<and> \<not> b"
  by (induction ls m b rule: merge_labels.induct) (auto split: if_splits)

definition ns_labels :: "NamespaceObj \<Rightarrow> (string \<rightharpoonup> string)" where
  "ns_labels ns = (case ns of None \<Rightarrow> Map.empty | Some m \<Rightarrow> m)"

locale namespace_store = object_store view get create update delete
  for view :: "'w \<Rightarrow> string \<Rightarrow> NamespaceObj option"
    and get :: "string \<Rightarrow> 'w \<Rightarrow> api_error + NamespaceObj"
    and create :: "string \<Rightarrow> NamespaceObj \<Rightarrow> 'w \<Rightarrow> api_error option \<times> 'w"
    and update :: "string \<Rightarrow> NamespaceObj \<Rightarrow> 'w \<Rightarrow> api_error option \<times> 'w"
    and delete :: "string \<Rightarrow> 'w \<Rightarrow> api_error option \<times> 'w"
begin

lemma label_namespace_None:
  assumes "label_namespace update env name labels ns w = (None, w')" "view w name = Some ns"
    "distinct (map fst labels)"
  shows "\<exists>ns'. view w' name = Some ns' \<and> (\<forall>(k, v) \<in> set labels. map_get (ns_labels ns') k = v)"
proof -
  obtain m b where mb: "merge_labels labels (ns_labels ns) False = (m, b)" by fastforce
  have have_m: "\<forall>(k, v) \<in> set labels. map_get m k = v"
    using merge_labels_get [OF assms(3), of "ns_labels ns" False] mb assms(3) by (auto simp: map_of_is_SomeI)
  show ?thesis
  proof (cases b)
    case False
    then have "m = ns_labels ns" "w' = w"
      using mb merge_labels_unchanged [of labels "ns_labels ns" False] assms(1)
      by (auto simp: label_namespace_def ns_labels_def)
    with have_m assms(2) show ?thesis by blast
  next
    case True
    then have "update name (Some m) (env w) = (None, w')"
      using mb assms(1) by (auto simp: label_namespace_def ns_labels_def apfst_def map_prod_def split: prod.splits)
    then have "view w' name = Some (Some m)" using update_None by fastforce
    with have_m show ?thesis by (auto simp: ns_labels_def)
  qed
qed

lemma ensureNamespace_None:
  assumes "ensureNamespace get create update env name labels w = (None, w')" "distinct (map fst labels)"
  shows "\<exists>ns'. view w' name = Some ns' \<and> (\<forall>(k, v) \<in> set labels. map_get (ns_labels ns') k = v)"
proof (cases "get name w")
  case (Inr ns)
  with assms(1) have "label_namespace update (env 0) name labels ns w = (None, w')"
    by (simp add: ensureNamespace_def)
  from label_namespace_None [OF this get_Inr [OF Inr] assms(2)] show ?thesis .
next
  case (Inl e)
  with assms(1) have e: "e = NotFound" by (auto simp: ensureNamespace_def split: if_splits)
  obtain r w1 where c: "create name (Some (map_of labels)) (env 0 w) = (r, w1)" by fastforce
  show ?thesis
  proof (cases r)
    case None
    with assms(1) Inl e c have "w' = w1" by (simp add: ensureNamespace_def)
    moreover have "view w1 name = Some (Some (map_of labels))" using create_None c None by fastforce
    moreover have "\<forall>(k, v) \<in> set labels. map_get (map_of labels) k = v"
      using assms(2) by (auto simp: map_get_def)
    ultimately show ?thesis by (auto simp: ns_labels_def)
  next
    case (Some e')
    with assms(1) Inl e c obtain ns where "get name (env 1 w1) = Inr ns"
      "label_namespace update (env 2) name labels ns (env 1 w1) = (None, w')"
      by (auto simp: ensureNamespace_def Let_def split: if_splits sum.splits)
    with label_namespace_None [OF this(2) get_Inr [OF this(1)] assms(2)] show ?thesis by simp
  qed
qed

end

interpretation nss: namespace_store objects srv_get srv_create srv_update srv_delete
  by unfold_locales

lemma add_requests_spec:
  assumes "\<forall>c \<in> set cs. case Option.bind (c_limits c resource) as_int64 of None \<Rightarrow> True | Some v \<Rightarrow> 0 \<le> v"
    and "0 \<le> acc" "acc + (\<Sum>c\<leftarrow>cs. case Option.bind (c_limits c resource) as_int64 of None \<Rightarrow> 0 | Some v \<Rightarrow> v) < 2 ^ 63"
  shows "add_requests resource cs acc =
    acc + (\<Sum>c\<leftarrow>cs. case Option.bind (c_limits c resource) as_int64 of None \<Rightarrow> 0 | Some v \<Rightarrow> v)"
  using assms
proof (induction cs arbitrary: acc)
  case (Cons c cs)
  let ?v = "\<lambda>c. case Option.bind (c_limits c resource) as_int64 of None \<Rightarrow> 0 | Some v \<Rightarrow> v"
  have nn: "0 \<le> ?v x" if "x \<in> set (c # cs)" for x
    using that Cons.prems(1) by (auto split: option.splits)
  have rest: "0 \<le> (\<Sum>c\<leftarrow>cs. ?v c)" using nn by (intro sum_list_nonneg) auto
  have "0 \<le> acc + ?v c" "acc + ?v c < 2 ^ 63"
    using nn [of c] rest Cons.prems(2,3) by auto
  then have w: "i64 (acc + ?v c) = acc + ?v c" by (simp add: in_i64_def)
  have step: "add_requests resource (c # cs) acc = add_requests resource cs (acc + ?v c)"
    using w Cons.prems(2) Cons.prems(3) rest by (simp split: option.splits)
  also have "\<dots> = acc + ?v c + (\<Sum>c\<leftarrow>cs. ?v c)"
    by (rule Cons.IH) (use Cons.prems nn [of c] in auto)
  finally show ?case by simp
qed simp

lemma scan_nodes_vendor:
  "snd (scan_nodes ns (version, vendor)) =
     (if vendor \<noteq> [] then vendor else case find (\<lambda>n. node_vendor n \<noteq> []) ns of None \<Rightarrow> [] | Some n \<Rightarrow> node_vendor n)"
  by (induction ns arbitrary: version vendor) auto

section \<open>Properties\<close>

definition demo_node :: Node where
  "demo_node = \<lparr>n_Name = ''w1'', n_Labels = [''sims.io/gpu-vendor'' \<mapsto> ''amd''],
     n_Capacity = [''amd.com/gpu'' \<mapsto> 8], n_KubeletVersion = ''v1.31.0''\<rparr>"

text \<open>
  The wait for capacity succeeds exactly when some poll finds enough workers with enough capacity
  and no earlier poll failed or hit the end of the context.
\<close>

lemma capacity_wait_exact:
  "waitForCapacity resource perNode nodes rounds = WaitOk \<longleftrightarrow>
   (\<exists>i < length rounds. enough resource perNode nodes (fst (rounds ! i)) \<and>
     (\<forall>j < i. \<not> isl (fst (rounds ! j)) \<and> \<not> snd (rounds ! j)))"
  by (rule waitForCapacity_Ok)

lemma capacity_wait_exact_witness:
  "waitForCapacity ''amd.com/gpu'' 8 1 [(Inr [], False), (Inr [demo_node], False)] = WaitOk"
  unfolding capacity_wait_exact
  by (rule exI [of _ 1]) (simp add: enough_def hasCapacity_def demo_node_def)



text \<open>
  The GPU pods of a status snapshot are exactly the pods with a non-zero request, each with its own
  total, sorted by namespace and name; and the vendor is the one that vendor detection finds.
\<close>

lemma snapshot_exact:
  assumes "Snapshot_cluster list_nodes list_pods w = Inr snap" "list_nodes w = Inr ns"
    and "cs_Vendor snap \<noteq> []" "list_pods w = Inr pods"
  shows "detectVendor (Inr ns) = Inr (cs_Vendor snap) \<and>
    sorted (map (\<lambda>s. (ps_Namespace s, ps_Name s)) (cs_GPUPods snap)) \<and>
    set (cs_GPUPods snap) =
      (\<lambda>p. \<lparr>ps_Namespace = p_namespace p, ps_Name = p_name p, ps_Node = p_node p,
            ps_GPUs = podGPURequest p (cs_Vendor snap @ ''.com/gpu''), ps_Phase = p_phase p\<rparr>) `
      {p \<in> set pods. podGPURequest p (cs_Vendor snap @ ''.com/gpu'') \<noteq> 0} \<and>
    map ns_Name (cs_Nodes snap) = map n_Name ns"
proof -
  obtain version vendor where vv: "scan_nodes ns ([], []) = (version, vendor)" by fastforce
  have snap: "cs_Vendor snap = vendor" "vendor \<noteq> []"
    "cs_GPUPods snap = gpu_pods (vendor @ ''.com/gpu'') pods"
    "cs_Nodes snap = map (node_snapshot (vendor @ ''.com/gpu'')) ns"
    using assms vv by (auto simp: Snapshot_cluster_def Let_def split: if_splits)
  have "detectVendor (Inr ns) = Inr vendor"
    using scan_nodes_vendor [of ns "[]" "[]"] vv snap(2) by (auto simp: detectVendor_def split: option.splits)
  then show ?thesis
    by (auto simp: snap(1,3,4) gpu_pods_def node_snapshot_def)
qed

lemma snapshot_exact_witness:
  "\<exists>snap. Snapshot_cluster (\<lambda>_. Inr [demo_node]) (\<lambda>_. Inr []) () = Inr snap \<and>
     detectVendor (Inr [demo_node]) = Inr (cs_Vendor snap)"
proof -
  have v: "node_vendor demo_node = ''amd''"
    by (simp add: node_vendor_def demo_node_def map_get_def gpuVendorLabel_def)
  obtain snap where s: "Snapshot_cluster (\<lambda>_. Inr [demo_node]) (\<lambda>_. Inr []) () = Inr snap" "cs_Vendor snap = ''amd''"
    by (simp add: Snapshot_cluster_def Let_def v)
  have "cs_Vendor snap \<noteq> []" using s(2) by simp
  from snapshot_exact [OF s(1) refl this refl] s(1) show ?thesis by blast
qed

end
