(* ===== verification/Kube_Clients.thy ===== *)
theory Kube_Clients
  imports Kube_Ops
begin

text \<open>
  The exported functions of \<open>pkg/kube\<close>: each builds a clientset from the bytes of a kubeconfig and calls the
  operation of \<open>Kube_Ops\<close> with it. Reading a kubeconfig and building a client are client-go's; they are the
  record \<open>client_go\<close>. What the operation sees of the cluster through a client is a parameter.
\<close>

record ('cfg, 'cs) client_go =
  RESTConfigFromKubeConfig :: "string \<Rightarrow> string + 'cfg"
  NewForConfig :: "'cfg \<Rightarrow> string + 'cs"

datatype 'e client_error = ParseKubeconfig string | BuildClientset string | Operation 'e

definition newClientset :: "('cfg, 'cs) client_go \<Rightarrow> string \<Rightarrow> 'e client_error + 'cs" where
  "newClientset g kubeconfig =
     (case RESTConfigFromKubeConfig g kubeconfig of
        Inl e \<Rightarrow> Inl (ParseKubeconfig e)
      | Inr cfg \<Rightarrow> (case NewForConfig g cfg of Inl e \<Rightarrow> Inl (BuildClientset e) | Inr cs \<Rightarrow> Inr cs))"

text \<open>\<open>polls cs\<close> are the answers to the polls through \<open>cs\<close>, with whether the context is done by then.\<close>

definition WaitForResourceCapacity ::
  "('cfg, 'cs) client_go \<Rightarrow> ('cs \<Rightarrow> ((api_error + Node list) \<times> bool) list) \<Rightarrow> string \<Rightarrow> string \<Rightarrow> int \<Rightarrow> int \<Rightarrow>
   'e client_error + wait_result" where
  "WaitForResourceCapacity g polls kubeconfig resourceName perNode nodes =
     (case newClientset g kubeconfig of
        Inl e \<Rightarrow> Inl e
      | Inr cs \<Rightarrow> Inr (waitForCapacity resourceName perNode nodes (polls cs)))"

definition WaitForDeploymentAvailable ::
  "('cfg, 'cs) client_go \<Rightarrow> ('cs \<Rightarrow> key \<Rightarrow> ((api_error + (string \<times> string) list) \<times> bool) list) \<Rightarrow>
   string \<Rightarrow> string \<Rightarrow> string \<Rightarrow> 'e client_error + wait_result" where
  "WaitForDeploymentAvailable g polls kubeconfig namespace name =
     (case newClientset g kubeconfig of
        Inl e \<Rightarrow> Inl e
      | Inr cs \<Rightarrow> Inr (waitForDeploymentAvailable (polls cs (namespace, name))))"

definition DetectVendor_from ::
  "('cfg, 'cs) client_go \<Rightarrow> ('cs \<Rightarrow> api_error + Node list) \<Rightarrow> string \<Rightarrow> query_error client_error + string" where
  "DetectVendor_from g list_nodes kubeconfig =
     (case newClientset g kubeconfig of
        Inl e \<Rightarrow> Inl e
      | Inr cs \<Rightarrow>
          (case detectVendor (list_nodes cs) of Inl e \<Rightarrow> Inl (Operation e) | Inr v \<Rightarrow> Inr v))"

definition Snapshot_from ::
  "('cfg, 'cs) client_go \<Rightarrow> ('cs \<Rightarrow> 'w \<Rightarrow> api_error + Node list) \<Rightarrow> ('cs \<Rightarrow> 'w \<Rightarrow> api_error + Pod list) \<Rightarrow>
   string \<Rightarrow> 'w \<Rightarrow> query_error client_error + ClusterSnapshot" where
  "Snapshot_from g list_nodes list_pods kubeconfig w =
     (case newClientset g kubeconfig of
        Inl e \<Rightarrow> Inl e
      | Inr cs \<Rightarrow>
          (case Snapshot_cluster (list_nodes cs) (list_pods cs) w of Inl e \<Rightarrow> Inl (Operation e) | Inr s \<Rightarrow> Inr s))"

text \<open>The namespace calls of a client; \<open>nc_env\<close> is what others do between two of them.\<close>

record 'w namespace_calls =
  nc_get :: "string \<Rightarrow> 'w \<Rightarrow> api_error + NamespaceObj"
  nc_create :: "string \<Rightarrow> NamespaceObj \<Rightarrow> 'w \<Rightarrow> api_error option \<times> 'w"
  nc_update :: "string \<Rightarrow> NamespaceObj \<Rightarrow> 'w \<Rightarrow> api_error option \<times> 'w"
  nc_delete :: "string \<Rightarrow> 'w \<Rightarrow> api_error option \<times> 'w"
  nc_env :: "nat \<Rightarrow> 'w \<Rightarrow> 'w"

definition EnsureNamespace_in ::
  "('cfg, 'cs) client_go \<Rightarrow> ('cs \<Rightarrow> 'w namespace_calls) \<Rightarrow>
   string \<Rightarrow> string \<Rightarrow> (string \<times> string) list \<Rightarrow> 'w \<Rightarrow> ns_error client_error option \<times> 'w" where
  "EnsureNamespace_in g calls kubeconfig name labels w =
     (case newClientset g kubeconfig of
        Inl e \<Rightarrow> (Some e, w)
      | Inr cs \<Rightarrow> apfst (map_option Operation)
          (ensureNamespace (nc_get (calls cs)) (nc_create (calls cs)) (nc_update (calls cs)) (nc_env (calls cs))
             name labels w))"

definition DeleteNamespace_in ::
  "('cfg, 'cs) client_go \<Rightarrow> ('cs \<Rightarrow> 'w namespace_calls) \<Rightarrow>
   string \<Rightarrow> string \<Rightarrow> 'w \<Rightarrow> ns_error client_error option \<times> 'w" where
  "DeleteNamespace_in g calls kubeconfig name w =
     (case newClientset g kubeconfig of
        Inl e \<Rightarrow> (Some e, w)
      | Inr cs \<Rightarrow> apfst (map_option Operation) (deleteNamespace (nc_delete (calls cs)) name w))"

section \<open>Lemmas\<close>

text \<open>Without a usable kubeconfig the cluster is neither asked nor changed.\<close>

lemma no_client_no_effect:
  assumes "newClientset g kc = Inl e"
  shows "EnsureNamespace_in g calls kc name labels w = (Some e, w)" "DeleteNamespace_in g calls kc name w = (Some e, w)"
  using assms by (simp_all add: EnsureNamespace_in_def DeleteNamespace_in_def)

text \<open>An operation that reports success had a client, and did what \<open>Kube_Ops\<close> says.\<close>

lemma EnsureNamespace_in_None:
  assumes "EnsureNamespace_in g calls kc name labels w = (None, w')"
  obtains cs where "newClientset g kc = (Inr cs :: ns_error client_error + _)"
    "ensureNamespace (nc_get (calls cs)) (nc_create (calls cs)) (nc_update (calls cs)) (nc_env (calls cs))
       name labels w = (None, w')"
  using assms by (auto simp: EnsureNamespace_in_def apfst_def map_prod_def split: sum.splits prod.splits)

lemma ensured_in:
  assumes "EnsureNamespace_in g calls kc name labels w = (None, w')" "distinct (map fst labels)"
    and "\<And>cs. namespace_store view (nc_get (calls cs)) (nc_create (calls cs)) (nc_update (calls cs)) (nc_delete (calls cs))"
  shows "\<exists>ns. view w' name = Some ns \<and> (\<forall>(k, v) \<in> set labels. map_get (ns_labels ns) k = v)"
  using assms(1)
proof (rule EnsureNamespace_in_None)
  fix cs assume "ensureNamespace (nc_get (calls cs)) (nc_create (calls cs)) (nc_update (calls cs)) (nc_env (calls cs))
    name labels w = (None, w')"
  from namespace_store.ensureNamespace_None [OF assms(3) this assms(2)] show ?thesis .
qed

lemma deleted_in:
  assumes "DeleteNamespace_in g calls kc name w = (None, w')"
    and "\<And>cs. namespace_store view (nc_get (calls cs)) (nc_create (calls cs)) (nc_update (calls cs)) (nc_delete (calls cs))"
  shows "view w' name = None"
proof -
  from assms(1) obtain cs where cs: "deleteNamespace (nc_delete (calls cs)) name w = (None, w')"
    by (auto simp: DeleteNamespace_in_def apfst_def map_prod_def split: sum.splits prod.splits)
  obtain r w1 where d: "nc_delete (calls cs) name w = (r, w1)" by fastforce
  have "object_store view (nc_get (calls cs)) (nc_create (calls cs)) (nc_update (calls cs)) (nc_delete (calls cs))"
    using assms(2) by (rule namespace_store.axioms)
  moreover have "w1 = w'" "r = None \<or> r = Some NotFound"
    using cs d by (auto simp: deleteNamespace_def split: option.splits if_splits)
  ultimately show ?thesis using object_store.delete_gone [where delete = "nc_delete (calls cs)", of view _ _ _ name w] d by simp
qed

end
