(* ===== verification/Kind_Log.thy ===== *)
theory Kind_Log
  imports Prelude
begin

text \<open>
  The adapter from kind's logger to \<open>slog\<close> (\<open>pkg/cluster/kind.go\<close>, from line 85). A \<open>slog\<close> logger is the
  predicate of its handler on levels and writes a record when the handler is enabled for its level;
  \<open>fmt.Sprintf\<close> is the parameter \<open>sprintf\<close>. The lemmas: what is enabled is what is written, and kind's
  verbosity levels nest as kind's interface asks.
\<close>

section \<open>slog\<close>

type_synonym slog_level = int

definition LevelDebug :: slog_level where "LevelDebug = - 4"
definition LevelInfo :: slog_level where "LevelInfo = 0"
definition LevelWarn :: slog_level where "LevelWarn = 4"
definition LevelError :: slog_level where "LevelError = 8"

record slog_logger =
  handler_enabled :: "slog_level \<Rightarrow> bool"

type_synonym records = "(slog_level \<times> string) list"

definition slog_log :: "slog_logger \<Rightarrow> slog_level \<Rightarrow> string \<Rightarrow> records \<Rightarrow> records" where
  "slog_log logger level msg out = (if handler_enabled logger level then out @ [(level, msg)] else out)"

section \<open>The adapter\<close>

record slogAdapter =
  sa_logger :: slog_logger

record slogInfoLogger =
  si_logger :: slog_logger
  si_level :: int \<comment> \<open>\<open>kindlog.Level\<close>\<close>

text \<open>The logger handed to kind; \<open>fallback\<close> is \<open>slog.Default()\<close>.\<close>

definition New_Provider :: "slog_logger \<Rightarrow> slog_logger option \<Rightarrow> slogAdapter" where
  "New_Provider fallback logger = \<lparr>sa_logger = (case logger of None \<Rightarrow> fallback | Some l \<Rightarrow> l)\<rparr>"

definition Warn :: "slogAdapter \<Rightarrow> string \<Rightarrow> records \<Rightarrow> records" where
  "Warn s message = slog_log (sa_logger s) LevelWarn message"

definition Warnf :: "(string \<Rightarrow> 'a list \<Rightarrow> string) \<Rightarrow> slogAdapter \<Rightarrow> string \<Rightarrow> 'a list \<Rightarrow> records \<Rightarrow> records" where
  "Warnf sprintf s format args = slog_log (sa_logger s) LevelWarn (sprintf format args)"

definition Error :: "slogAdapter \<Rightarrow> string \<Rightarrow> records \<Rightarrow> records" where
  "Error s message = slog_log (sa_logger s) LevelError message"

definition Errorf :: "(string \<Rightarrow> 'a list \<Rightarrow> string) \<Rightarrow> slogAdapter \<Rightarrow> string \<Rightarrow> 'a list \<Rightarrow> records \<Rightarrow> records" where
  "Errorf sprintf s format args = slog_log (sa_logger s) LevelError (sprintf format args)"

definition V :: "slogAdapter \<Rightarrow> int \<Rightarrow> slogInfoLogger" where
  "V s level = \<lparr>si_logger = sa_logger s, si_level = level\<rparr>"

definition Info :: "slogInfoLogger \<Rightarrow> string \<Rightarrow> records \<Rightarrow> records" where
  "Info s message =
     (if si_level s = 0 then slog_log (si_logger s) LevelInfo message
      else slog_log (si_logger s) LevelDebug message)"

definition Infof :: "(string \<Rightarrow> 'a list \<Rightarrow> string) \<Rightarrow> slogInfoLogger \<Rightarrow> string \<Rightarrow> 'a list \<Rightarrow> records \<Rightarrow> records" where
  "Infof sprintf s format args = Info s (sprintf format args)"

definition Enabled :: "slogInfoLogger \<Rightarrow> bool" where
  "Enabled s =
     (if si_level s = 0 then handler_enabled (si_logger s) LevelInfo
      else handler_enabled (si_logger s) LevelDebug)"

lemmas adapter_defs = slog_log_def Warn_def Warnf_def Error_def Errorf_def V_def Info_def Infof_def Enabled_def

section \<open>Lemmas\<close>

text \<open>\<open>Enabled\<close> is exact: it tells whether \<open>Info\<close> and \<open>Infof\<close> write.\<close>

lemma Enabled_exact: "Enabled s \<longleftrightarrow> Info s message out \<noteq> out" "Enabled s \<longleftrightarrow> Infof sprintf s format args out \<noteq> out"
  by (simp_all add: adapter_defs)

text \<open>
  Levels nest: with a handler that is enabled from some level on, as the handlers of \<open>slog\<close> are, a message
  of a higher verbosity is written only when one of verbosity 0 would be.
\<close>

lemma verbosity_nests:
  assumes "\<And>a b. a \<le> b \<Longrightarrow> handler_enabled (sa_logger s) a \<Longrightarrow> handler_enabled (sa_logger s) b"
    and "Enabled (V s n)"
  shows "Enabled (V s 0)"
  using assms(2) assms(1) [of LevelDebug LevelInfo]
  by (auto simp: adapter_defs LevelDebug_def LevelInfo_def split: if_splits)

text \<open>Nothing kind logs is lost to a handler enabled for everything, and nothing else is written.\<close>

lemma adapter_writes:
  assumes "handler_enabled (sa_logger s) = (\<lambda>_. True)"
  shows "Warn s m out = out @ [(LevelWarn, m)]" "Error s m out = out @ [(LevelError, m)]"
    "Info (V s n) m out = out @ [(if n = 0 then LevelInfo else LevelDebug, m)]"
  using assms by (simp_all add: adapter_defs)

end
