(* ===== verification/Kind_Config.thy ===== *)
theory Kind_Config
  imports Prelude
begin

text \<open>
  Package \<open>config\<close> (\<open>pkg/config/kind_config.go\<close>): the kind cluster configuration for a vendor. The
  text template of the source is executed into its lines, each ended by a newline; its trim markers
  leave no blank line. Template maps are visited in key order.
\<close>

definition VendorNVIDIA :: string where "VendorNVIDIA = ''nvidia''"
definition VendorAMD :: string where "VendorAMD = ''amd''"
definition DefaultWorkers :: int where "DefaultWorkers = 2"
definition DefaultK8sVersion :: string where "DefaultK8sVersion = ''v1.31.0''"

record KindOptions =
  ko_Vendor :: string
  ko_Name :: string
  ko_Workers :: int
  ko_K8sVersion :: string
  ko_Taint :: bool

record templateData =
  td_Name :: string
  NodeImage :: string
  WorkerIndices :: nat \<comment> \<open>the length of a slice of empty structs\<close>
  td_Vendor :: string
  PresentLabel :: string
  ExtraLabels :: "(string \<times> string) list"
  td_Taint :: bool
  EnableDRA :: bool

datatype render_error = InvalidVendor string

definition buildTemplateData :: "KindOptions \<Rightarrow> render_error + templateData" where
  "buildTemplateData o1 =
     (if ko_Vendor o1 \<noteq> VendorNVIDIA \<and> ko_Vendor o1 \<noteq> VendorAMD then Inl (InvalidVendor (ko_Vendor o1))
      else
        let workers = (if ko_Workers o1 \<le> 0 then DefaultWorkers else ko_Workers o1);
            version = (if ko_K8sVersion o1 = [] then DefaultK8sVersion else ko_K8sVersion o1);
            name = (if ko_Name o1 = [] then ''sims-'' @ ko_Vendor o1 else ko_Name o1);
            present = (if ko_Vendor o1 = VendorNVIDIA then ''nvidia.com/gpu.present''
                       else ''feature.node.kubernetes.io/amd-gpu'');
            extra = (if ko_Vendor o1 = VendorNVIDIA then
                [(''nvidia.com/gpu.deploy.dcgm-exporter'', ''true''),
                 (''nvidia.com/gpu.deploy.device-plugin'', ''true''),
                 (''run.ai/simulated-gpu-node-pool'', ''default'')] else [])
        in Inr \<lparr>td_Name = name, NodeImage = ''kindest/node:'' @ version, WorkerIndices = nat workers,
                td_Vendor = ko_Vendor o1, PresentLabel = present, ExtraLabels = extra,
                td_Taint = ko_Taint o1, EnableDRA = (ko_Vendor o1 = VendorNVIDIA)\<rparr>)"

text \<open>A double-quoted value of the template.\<close>

definition quoted :: "string \<Rightarrow> string" where
  "quoted s = [CHR 0x22] @ s @ [CHR 0x22]"

definition worker_lines :: "templateData \<Rightarrow> string list" where
  "worker_lines d =
     [''  - role: worker'',
      ''    image: '' @ NodeImage d,
      ''    labels:'',
      ''      sims.io/gpu-vendor: '' @ quoted (td_Vendor d),
      ''      '' @ PresentLabel d @ '': '' @ quoted ''true''] @
     map (\<lambda>(k, v). ''      '' @ k @ '': '' @ quoted v) (ExtraLabels d) @
     (if td_Taint d then
        [''    taints:'',
         ''      - key: '' @ quoted (td_Vendor d @ ''.com/gpu''),
         ''        value: '' @ quoted ''present'',
         ''        effect: NoSchedule'']
      else [])"

definition template_lines :: "templateData \<Rightarrow> string list" where
  "template_lines d =
     [''kind: Cluster'', ''apiVersion: kind.x-k8s.io/v1alpha4'', ''name: '' @ td_Name d, ''nodes:'',
      ''  - role: control-plane'', ''    image: '' @ NodeImage d] @
     concat (replicate (WorkerIndices d) (worker_lines d)) @
     (if EnableDRA d then
        [''featureGates:'', ''  DynamicResourceAllocation: true'', ''runtimeConfig:'',
         ''  resource.k8s.io/v1alpha3: '' @ quoted ''true'']
      else [])"

definition Render :: "KindOptions \<Rightarrow> render_error + string" where
  "Render o1 =
     (case buildTemplateData o1 of
        Inl e \<Rightarrow> Inl e
      | Inr d \<Rightarrow> Inr (concat (map (\<lambda>l. l @ [CHR 0x0A]) (template_lines d))))"

section \<open>Rendered nodes\<close>

definition worker_line :: string where "worker_line = ''  - role: worker''"

lemma worker_lines_count: "count_list (worker_lines d) worker_line = 1"
proof -
  have "worker_line \<notin> (\<lambda>(k, v). ''      '' @ k @ '': '' @ quoted v) ` S" for S :: "(string \<times> string) set"
    by (auto simp: worker_line_def)
  then have "count_list (map (\<lambda>(k, v). ''      '' @ k @ '': '' @ quoted v) xs) worker_line = 0" for xs
    unfolding count_list_0_iff set_map by blast
  then show ?thesis by (simp add: worker_lines_def worker_line_def)
qed

lemma count_concat_replicate: "count_list (concat (replicate n xs)) x = n * count_list xs x"
  by (induction n) simp_all

lemma template_worker_count: "count_list (template_lines d) worker_line = WorkerIndices d"
  by (simp add: template_lines_def count_concat_replicate worker_lines_count) (simp add: worker_line_def)

lemma worker_line_has_label:
  "(''      sims.io/gpu-vendor: '' @ quoted (td_Vendor d)) \<in> set (worker_lines d)"
  by (simp add: worker_lines_def)

section \<open>Properties\<close>

text \<open>
  The cluster has as many workers as asked for, two when the number is not positive, and every
  other field takes its documented default; only the two known vendors are accepted.
\<close>

lemma render_worker_count:
  "case buildTemplateData o1 of
     Inl (InvalidVendor v) \<Rightarrow> v = ko_Vendor o1 \<and> v \<noteq> ''nvidia'' \<and> v \<noteq> ''amd'' \<and> Render o1 = Inl (InvalidVendor v)
   | Inr d \<Rightarrow>
       count_list (template_lines d) ''  - role: worker'' =
         nat (if ko_Workers o1 \<le> 0 then 2 else ko_Workers o1) \<and>
       td_Name d = (if ko_Name o1 = [] then ''sims-'' @ ko_Vendor o1 else ko_Name o1) \<and>
       Render o1 = Inr (concat (map (\<lambda>l. l @ [CHR 0x0A]) (template_lines d)))"
  using template_worker_count
  by (auto simp: buildTemplateData_def Render_def VendorNVIDIA_def VendorAMD_def DefaultWorkers_def
      worker_line_def Let_def split: if_splits)

end
