(* ===== verification/Sims_Config.thy ===== *)
theory Sims_Config
  imports Kind_Config Annotations
begin

text \<open>
  Package \<open>simsconfig\<close> (\<open>pkg/simsconfig\<close>): the SimsConfig document, the table of GPU families, validation
  and defaults. The strict YAML decoder and the file system are parameters.
\<close>

section \<open>Data\<close>

definition APIVersionV1 :: string where "APIVersionV1 = ''sims.io/v1''"
definition KindConfig :: string where "KindConfig = ''SimsConfig''"

record Partition =
  pt_Mode :: string
  pt_Count :: int

record Features =
  MIG :: string
  Partition :: Partition

record GPUSpec =
  Family :: string
  PerWorker :: int
  MemoryBytes :: int
  Features :: Features

record SimsConfig =
  sc_APIVersion :: string
  sc_Kind :: string
  sc_Vendor :: string
  sc_Name :: string
  sc_Workers :: int
  sc_K8sVersion :: string
  sc_Taint :: bool
  sc_GPU :: GPUSpec
  sc_DefaultUtilization :: string
  sc_Monitoring :: bool

definition GiB :: int where "GiB = 1073741824"

record FamilyInfo =
  fi_Vendor :: string
  fi_ProductName :: string
  fi_MemoryBytes :: int
  fi_DisplayName :: string

definition family :: "string \<Rightarrow> string \<Rightarrow> string \<Rightarrow> int \<Rightarrow> string \<Rightarrow> string \<times> FamilyInfo" where
  "family key vendor product gib display =
     (key, \<lparr>fi_Vendor = vendor, fi_ProductName = product, fi_MemoryBytes = gib * GiB, fi_DisplayName = display\<rparr>)"

definition family_table :: "(string \<times> FamilyInfo) list" where
  "family_table =
     [family ''GB300'' VendorNVIDIA ''B300'' 288 ''NVIDIA B300 288GB HBM3e'',
      family ''GB200'' VendorNVIDIA ''B200'' 192 ''NVIDIA B200 192GB HBM3e'',
      family ''H200'' VendorNVIDIA ''H200'' 141 ''NVIDIA H200 141GB HBM3e'',
      family ''H100'' VendorNVIDIA ''H100'' 80 ''NVIDIA H100 80GB HBM3'',
      family ''A100'' VendorNVIDIA ''A100'' 40 ''NVIDIA A100 40GB HBM2e'',
      family ''L40S'' VendorNVIDIA ''L40S'' 48 ''NVIDIA L40S 48GB GDDR6'',
      family ''L40'' VendorNVIDIA ''L40'' 48 ''NVIDIA L40 48GB GDDR6'',
      family ''L4'' VendorNVIDIA ''L4'' 24 ''NVIDIA L4 24GB GDDR6'',
      family ''T4'' VendorNVIDIA ''Tesla T4'' 16 ''NVIDIA Tesla T4 16GB GDDR6'',
      family ''MI440X'' VendorAMD ''MI440X'' 432 ''AMD Instinct MI440X 432GB HBM4'',
      family ''MI430X'' VendorAMD ''MI430X'' 432 ''AMD Instinct MI430X 432GB HBM4'',
      family ''MI325X'' VendorAMD ''MI325X'' 256 ''AMD Instinct MI325X 256GB HBM3e'',
      family ''MI300X'' VendorAMD ''MI300X'' 192 ''AMD Instinct MI300X 192GB HBM3'',
      family ''MI300A'' VendorAMD ''MI300A'' 128 ''AMD Instinct MI300A 128GB HBM3'',
      family ''MI250X'' VendorAMD ''MI250X'' 128 ''AMD Instinct MI250X 128GB HBM2e'',
      family ''MI250'' VendorAMD ''MI250'' 128 ''AMD Instinct MI250 128GB HBM2e'',
      family ''MI210'' VendorAMD ''MI210'' 64 ''AMD Instinct MI210 64GB HBM2e'',
      family ''MI100'' VendorAMD ''MI100'' 32 ''AMD Instinct MI100 32GB HBM2'']"

definition Families :: "string \<Rightarrow> FamilyInfo option" where
  "Families = map_of family_table"

section \<open>Defaults and validation\<close>

definition ApplyFamilyDefaults :: "SimsConfig \<Rightarrow> SimsConfig" where
  "ApplyFamilyDefaults cfg0 =
     (let cfg1 = (if sc_Workers cfg0 \<le> 0 then cfg0\<lparr>sc_Workers := 2\<rparr> else cfg0);
          cfg2 = (if PerWorker (sc_GPU cfg1) \<le> 0 then cfg1\<lparr>sc_GPU := (sc_GPU cfg1)\<lparr>PerWorker := 2\<rparr>\<rparr> else cfg1)
      in if Family (sc_GPU cfg2) = [] then cfg2
         else case Families (Family (sc_GPU cfg2)) of
           None \<Rightarrow> cfg2
         | Some fam \<Rightarrow>
             if MemoryBytes (sc_GPU cfg2) = 0
             then cfg2\<lparr>sc_GPU := (sc_GPU cfg2)\<lparr>MemoryBytes := fi_MemoryBytes fam\<rparr>\<rparr>
             else cfg2)"

datatype util_error =
  NotRange string | LowNotInteger string | HighNotInteger string | BoundsOutOfRange int int | LowAboveHigh int int

definition validateUtilRange :: "string \<Rightarrow> util_error option" where
  "validateUtilRange s =
     (case split_n2 (CHR ''-'') s of
        [a, b] \<Rightarrow>
          (case atoi a of
             Inl _ \<Rightarrow> Some (LowNotInteger a)
           | Inr lo \<Rightarrow>
               (case atoi b of
                  Inl _ \<Rightarrow> Some (HighNotInteger b)
                | Inr hi \<Rightarrow>
                    if lo < 0 \<or> lo > 100 \<or> hi < 0 \<or> hi > 100 then Some (BoundsOutOfRange lo hi)
                    else if lo > hi then Some (LowAboveHigh lo hi)
                    else None))
      | _ \<Rightarrow> Some (NotRange s))"

datatype config_error =
  ReadConfig string | ParseConfig string | BadAPIVersion string | BadKind string | BadVendor string
| UnknownFamily string | FamilyMismatch string string string | MIGNotNVIDIA string | PartitionNotAMD string
| BadPartitionMode string | BadPartitionCount int | BadDefaultUtilization util_error

text \<open>The checks of \<open>validate\<close> in their order; the first that fails is the result.\<close>

definition check_family :: "SimsConfig \<Rightarrow> config_error option" where
  "check_family cfg =
     (let fname = Family (sc_GPU cfg) in
      if fname = [] then None
      else case Families fname of
        None \<Rightarrow> Some (UnknownFamily fname)
      | Some fam \<Rightarrow>
          if fi_Vendor fam \<noteq> sc_Vendor cfg then Some (FamilyMismatch fname (fi_Vendor fam) (sc_Vendor cfg))
          else None)"

definition check_features :: "SimsConfig \<Rightarrow> config_error option" where
  "check_features cfg =
     (let ft = Features (sc_GPU cfg); mode = pt_Mode (Partition ft); count = pt_Count (Partition ft) in
      if MIG ft \<noteq> [] \<and> sc_Vendor cfg \<noteq> VendorNVIDIA then Some (MIGNotNVIDIA (sc_Vendor cfg))
      else if (mode \<noteq> [] \<or> count \<noteq> 0) \<and> sc_Vendor cfg \<noteq> VendorAMD then Some (PartitionNotAMD (sc_Vendor cfg))
      else if mode \<noteq> [] \<and> mode \<noteq> ''spx'' \<and> mode \<noteq> ''cpx'' then Some (BadPartitionMode mode)
      else if count \<noteq> 0 \<and> (count < 1 \<or> count > 8) then Some (BadPartitionCount count)
      else None)"

definition validate :: "SimsConfig \<Rightarrow> config_error option" where
  "validate cfg =
     (if sc_APIVersion cfg \<noteq> APIVersionV1 then Some (BadAPIVersion (sc_APIVersion cfg))
      else if sc_Kind cfg \<noteq> KindConfig then Some (BadKind (sc_Kind cfg))
      else if sc_Vendor cfg \<noteq> VendorNVIDIA \<and> sc_Vendor cfg \<noteq> VendorAMD then Some (BadVendor (sc_Vendor cfg))
      else case check_family cfg of
        Some e \<Rightarrow> Some e
      | None \<Rightarrow>
          (case check_features cfg of
             Some e \<Rightarrow> Some e
           | None \<Rightarrow>
               if sc_DefaultUtilization cfg = [] then None
               else map_option BadDefaultUtilization (validateUtilRange (sc_DefaultUtilization cfg))))"

definition Parse :: "(string \<Rightarrow> string + SimsConfig) \<Rightarrow> string \<Rightarrow> config_error + SimsConfig" where
  "Parse unmarshal data =
     (case unmarshal data of
        Inl e \<Rightarrow> Inl (ParseConfig e)
      | Inr cfg \<Rightarrow>
          (case validate cfg of Some e \<Rightarrow> Inl e | None \<Rightarrow> Inr (ApplyFamilyDefaults cfg)))"

definition LoadConfig ::
  "(string \<Rightarrow> string + string) \<Rightarrow> (string \<Rightarrow> string + SimsConfig) \<Rightarrow> string \<Rightarrow> config_error + SimsConfig" where
  "LoadConfig read_file unmarshal path =
     (case read_file path of Inl e \<Rightarrow> Inl (ReadConfig e) | Inr data \<Rightarrow> Parse unmarshal data)"

section \<open>What a loaded configuration satisfies\<close>

definition valid_util :: "string \<Rightarrow> bool" where
  "valid_util s \<longleftrightarrow> (\<exists>lo hi. (\<forall>d. ParseUtilizationWithDefault s d = Inr \<lparr>Low = Fin (of_int lo), High = Fin (of_int hi)\<rparr>) \<and>
     0 \<le> lo \<and> lo \<le> hi \<and> hi \<le> 100)"

text \<open>What the command-line tool accepts, the operators accept with the same bounds.\<close>

lemma validateUtilRange_valid:
  assumes "validateUtilRange s = None" shows "valid_util s"
proof -
  from assms obtain a b lo hi where ab: "split_n2 (CHR ''-'') s = [a, b]" "atoi a = Inr lo" "atoi b = Inr hi"
    "0 \<le> lo" "lo \<le> hi" "hi \<le> 100"
    by (auto simp: validateUtilRange_def split: list.splits sum.splits if_splits)
  have "s = a @ CHR ''-'' # b" "CHR ''-'' \<notin> set a" using ab(1) unfolding split_n2_two by blast+
  with parse_range_atoi [OF ab(2-6)] ab(4-6) show ?thesis
    unfolding valid_util_def by blast
qed

lemma family_vendors:
  "Families k = Some fam \<Longrightarrow> fi_Vendor fam = VendorNVIDIA \<or> fi_Vendor fam = VendorAMD"
  "Families k = Some fam \<Longrightarrow> 0 < fi_MemoryBytes fam"
  by (auto simp: Families_def family_table_def family_def GiB_def split: if_splits)

text \<open>The contract of a loaded configuration.\<close>

definition config_ok :: "SimsConfig \<Rightarrow> bool" where
  "config_ok cfg \<longleftrightarrow>
     sc_Vendor cfg \<in> {''nvidia'', ''amd''} \<and> 0 < sc_Workers cfg \<and> 0 < PerWorker (sc_GPU cfg) \<and>
     (Family (sc_GPU cfg) \<noteq> [] \<longrightarrow> MemoryBytes (sc_GPU cfg) \<noteq> 0 \<and>
        (\<exists>fam. Families (Family (sc_GPU cfg)) = Some fam \<and> fi_Vendor fam = sc_Vendor cfg)) \<and>
     (MIG (Features (sc_GPU cfg)) \<noteq> [] \<longrightarrow> sc_Vendor cfg = ''nvidia'') \<and>
     (pt_Mode (Partition (Features (sc_GPU cfg))) \<noteq> [] \<or> pt_Count (Partition (Features (sc_GPU cfg))) \<noteq> 0 \<longrightarrow>
        sc_Vendor cfg = ''amd'') \<and>
     pt_Mode (Partition (Features (sc_GPU cfg))) \<in> {[], ''spx'', ''cpx''} \<and>
     0 \<le> pt_Count (Partition (Features (sc_GPU cfg))) \<and> pt_Count (Partition (Features (sc_GPU cfg))) \<le> 8 \<and>
     (sc_DefaultUtilization cfg \<noteq> [] \<longrightarrow> valid_util (sc_DefaultUtilization cfg))"

lemma validate_None:
  assumes "validate cfg = None"
  shows "sc_Vendor cfg \<in> {''nvidia'', ''amd''}" "check_family cfg = None" "check_features cfg = None"
    "sc_DefaultUtilization cfg \<noteq> [] \<longrightarrow> valid_util (sc_DefaultUtilization cfg)"
  using assms validateUtilRange_valid
  by (auto simp: validate_def VendorNVIDIA_def VendorAMD_def split: if_splits option.splits)

lemma check_features_None:
  assumes "check_features cfg = None"
  shows "MIG (Features (sc_GPU cfg)) \<noteq> [] \<longrightarrow> sc_Vendor cfg = ''nvidia''"
    "pt_Mode (Partition (Features (sc_GPU cfg))) \<noteq> [] \<or> pt_Count (Partition (Features (sc_GPU cfg))) \<noteq> 0 \<longrightarrow>
        sc_Vendor cfg = ''amd''"
    "pt_Mode (Partition (Features (sc_GPU cfg))) \<in> {[], ''spx'', ''cpx''}"
    "0 \<le> pt_Count (Partition (Features (sc_GPU cfg)))" "pt_Count (Partition (Features (sc_GPU cfg))) \<le> 8"
  using assms
  by (auto simp: check_features_def Let_def VendorNVIDIA_def VendorAMD_def split: if_splits)

lemma check_family_None:
  assumes "check_family cfg = None" "Family (sc_GPU cfg) \<noteq> []"
  obtains fam where "Families (Family (sc_GPU cfg)) = Some fam" "fi_Vendor fam = sc_Vendor cfg"
  using assms by (auto simp: check_family_def Let_def split: option.splits if_splits)

text \<open>What the defaults leave alone, and what they fill in.\<close>

lemma defaults_fields:
  "sc_Vendor (ApplyFamilyDefaults cfg) = sc_Vendor cfg"
  "sc_Name (ApplyFamilyDefaults cfg) = sc_Name cfg"
  "sc_K8sVersion (ApplyFamilyDefaults cfg) = sc_K8sVersion cfg"
  "sc_DefaultUtilization (ApplyFamilyDefaults cfg) = sc_DefaultUtilization cfg"
  "Family (sc_GPU (ApplyFamilyDefaults cfg)) = Family (sc_GPU cfg)"
  "Features (sc_GPU (ApplyFamilyDefaults cfg)) = Features (sc_GPU cfg)"
  by (simp_all add: ApplyFamilyDefaults_def Let_def split: option.splits)

lemma defaults_filled:
  "sc_Workers (ApplyFamilyDefaults cfg) = (if sc_Workers cfg \<le> 0 then 2 else sc_Workers cfg)"
  "PerWorker (sc_GPU (ApplyFamilyDefaults cfg)) = (if PerWorker (sc_GPU cfg) \<le> 0 then 2 else PerWorker (sc_GPU cfg))"
  "Families (Family (sc_GPU cfg)) = Some fam \<Longrightarrow> Family (sc_GPU cfg) \<noteq> [] \<Longrightarrow>
   MemoryBytes (sc_GPU (ApplyFamilyDefaults cfg)) =
     (if MemoryBytes (sc_GPU cfg) = 0 then fi_MemoryBytes fam else MemoryBytes (sc_GPU cfg))"
  by (simp_all add: ApplyFamilyDefaults_def Let_def split: option.splits)

lemma Parse_ok:
  assumes "Parse unmarshal data = Inr cfg" shows "config_ok cfg"
proof -
  obtain c0 where c0: "validate c0 = None" "cfg = ApplyFamilyDefaults c0"
    using assms by (auto simp: Parse_def split: sum.splits option.splits)
  note v = validate_None [OF c0(1)] and ft = check_features_None [OF validate_None(3) [OF c0(1)]]
  have "MemoryBytes (sc_GPU cfg) \<noteq> 0 \<and>
      (\<exists>fam. Families (Family (sc_GPU cfg)) = Some fam \<and> fi_Vendor fam = sc_Vendor cfg)"
    if fam: "Family (sc_GPU cfg) \<noteq> []"
  proof -
    have "Family (sc_GPU c0) \<noteq> []" using fam by (simp add: c0(2) defaults_fields)
    then obtain fam where "Families (Family (sc_GPU c0)) = Some fam" "fi_Vendor fam = sc_Vendor c0"
      using check_family_None [OF v(2)] by blast
    with \<open>Family (sc_GPU c0) \<noteq> []\<close> family_vendors(2) [of "Family (sc_GPU c0)" fam] show ?thesis
      by (simp add: c0(2) defaults_fields defaults_filled)
  qed
  then show ?thesis
    unfolding config_ok_def using v(1,4) ft by (simp add: c0(2) defaults_fields defaults_filled)
qed

section \<open>Properties\<close>

text \<open>A document for eight MI300X in CPX mode.\<close>

definition demo_sims :: SimsConfig where
  "demo_sims =
     \<lparr>sc_APIVersion = ''sims.io/v1'', sc_Kind = ''SimsConfig'', sc_Vendor = ''amd'', sc_Name = ''lab'',
      sc_Workers = 0, sc_K8sVersion = [], sc_Taint = False,
      sc_GPU = \<lparr>Family = ''MI300X'', PerWorker = 8, MemoryBytes = 0,
        Features = \<lparr>MIG = [], Partition = \<lparr>pt_Mode = ''cpx'', pt_Count = 0\<rparr>\<rparr>\<rparr>,
      sc_DefaultUtilization = ''40-60'', sc_Monitoring = True\<rparr>"

lemma demo_sims_valid: "validate demo_sims = None"
proof -
  have "split_n2 (CHR ''-'') ''40-60'' = [''40'', ''60'']" by (simp add: split_n2_two)
  moreover have "atoi ''40'' = Inr 40" "atoi ''60'' = Inr 60"
    by (simp_all add: atoi_def split_sign_def digits_val_def digit_val_def is_digit_def in_i64_def)
  ultimately have "validateUtilRange ''40-60'' = None" by (simp add: validateUtilRange_def)
  then show ?thesis
    by (simp add: validate_def demo_sims_def APIVersionV1_def KindConfig_def VendorNVIDIA_def VendorAMD_def
        check_family_def check_features_def Families_def family_table_def family_def Let_def)
qed

text \<open>
  C39. Every configuration that loads satisfies the contract the rest of the tool relies on: a known
  vendor, positive counts, a GPU family of that vendor with its memory filled in, MIG for NVIDIA and
  partitions for AMD only, with a known mode and a count of at most eight, and a utilisation range that
  the operators parse to the same ordered integer percentages.
\<close>

theorem loaded_config_ok:
  assumes "LoadConfig read_file unmarshal path = Inr cfg"
  shows "config_ok cfg"
  using assms by (auto simp: LoadConfig_def split: sum.splits dest: Parse_ok)

theorem loaded_config_ok_witness: "config_ok (ApplyFamilyDefaults demo_sims)"
proof (rule loaded_config_ok)
  show "LoadConfig (\<lambda>_. Inr ''doc'') (\<lambda>_. Inr demo_sims) ''sims.yaml'' = Inr (ApplyFamilyDefaults demo_sims)"
    by (simp add: LoadConfig_def Parse_def demo_sims_valid)
qed

end
