(* ===== verification/Cli_Options.thy ===== *)
theory Cli_Options
  imports Sims_Config Go_Path Kube_Ops "HOL-Library.AList"
begin

text \<open>
  The options of \<open>sims gpu create\<close> (\<open>pkg/cli/gpu_create.go\<close>): the flags, their merge with a SimsConfig
  document, and the helm values built from them for each vendor.
\<close>

section \<open>Options\<close>

definition chartReleaseNVIDIA :: string where "chartReleaseNVIDIA = ''sims-nvidia''"
definition chartReleaseAMD :: string where "chartReleaseAMD = ''sims-amd''"
definition chartNamespace :: string where "chartNamespace = ''gpu-operator''"
definition defaultChartDir :: string where "defaultChartDir = ''charts''"
definition gpuResourceNVIDIA :: string where "gpuResourceNVIDIA = ''nvidia.com/gpu''"
definition gpuResourceAMD :: string where "gpuResourceAMD = ''amd.com/gpu''"
definition monitoringChartName :: string where "monitoringChartName = ''sims-monitoring''"
definition monitoringRelease :: string where "monitoringRelease = ''sims-monitoring''"
definition monitoringNamespace :: string where "monitoringNamespace = ''monitoring''"
definition grafanaDeploymentSuffix :: string where "grafanaDeploymentSuffix = ''-grafana''"

record createOpts =
  co_vendor :: string
  co_name :: string
  co_workers :: int
  co_gpusPerWorker :: int
  co_k8sVersion :: string
  co_withMonitoring :: bool
  co_taint :: bool
  co_configPath :: string
  co_productName :: string
  co_gpuMemoryBytes :: int
  co_migProfile :: string
  co_partitionMode :: string
  co_partitionCount :: int
  co_defaultUtilization :: string

text \<open>The values of the flags before the command line is parsed.\<close>

definition default_opts :: createOpts where
  "default_opts =
     \<lparr>co_vendor = [], co_name = [], co_workers = 2, co_gpusPerWorker = 2, co_k8sVersion = ''v1.31.0'',
      co_withMonitoring = False, co_taint = False, co_configPath = [], co_productName = [],
      co_gpuMemoryBytes = 0, co_migProfile = [], co_partitionMode = [], co_partitionCount = 0,
      co_defaultUtilization = []\<rparr>"

datatype option_error = VendorOrConfigRequired | LoadConfigFailed config_error

text \<open>\<open>changed f\<close> is whether flag \<open>f\<close> was given on the command line.\<close>

definition merge_config :: "(string \<Rightarrow> bool) \<Rightarrow> SimsConfig \<Rightarrow> createOpts \<Rightarrow> createOpts" where
  "merge_config changed cfg o0 =
     (let o1 = o0
           \<lparr>co_vendor := (if \<not> changed ''vendor'' then sc_Vendor cfg else co_vendor o0),
            co_name := (if \<not> changed ''name'' \<and> sc_Name cfg \<noteq> [] then sc_Name cfg else co_name o0),
            co_workers := (if \<not> changed ''workers'' then sc_Workers cfg else co_workers o0),
            co_gpusPerWorker := (if \<not> changed ''gpus-per-worker'' then PerWorker (sc_GPU cfg) else co_gpusPerWorker o0),
            co_k8sVersion := (if \<not> changed ''k8s-version'' \<and> sc_K8sVersion cfg \<noteq> [] then sc_K8sVersion cfg
                              else co_k8sVersion o0),
            co_taint := (if \<not> changed ''taint'' then sc_Taint cfg else co_taint o0),
            co_withMonitoring := (if \<not> changed ''monitoring'' then sc_Monitoring cfg else co_withMonitoring o0)\<rparr>;
          o2 = (case Families (Family (sc_GPU cfg)) of
                  None \<Rightarrow> o1
                | Some fam \<Rightarrow> o1\<lparr>co_productName := fi_ProductName fam, co_gpuMemoryBytes := MemoryBytes (sc_GPU cfg)\<rparr>)
      in o2\<lparr>co_migProfile := MIG (Features (sc_GPU cfg)),
            co_partitionMode := pt_Mode (Partition (Features (sc_GPU cfg))),
            co_partitionCount := pt_Count (Partition (Features (sc_GPU cfg))),
            co_defaultUtilization := sc_DefaultUtilization cfg\<rparr>)"

definition applyConfig ::
  "(string \<Rightarrow> config_error + SimsConfig) \<Rightarrow> (string \<Rightarrow> bool) \<Rightarrow> createOpts \<Rightarrow> option_error + createOpts" where
  "applyConfig load changed o0 =
     (if co_configPath o0 = [] then (if co_vendor o0 = [] then Inl VendorOrConfigRequired else Inr o0)
      else case load (co_configPath o0) of
        Inl e \<Rightarrow> Inl (LoadConfigFailed e)
      | Inr cfg \<Rightarrow> Inr (merge_config changed cfg o0))"

definition validateVendor :: "string \<Rightarrow> string option" where
  "validateVendor v = (if v = VendorNVIDIA \<or> v = VendorAMD then None else Some v)"

section \<open>Helm values\<close>

datatype hvalue = VInt int | VStr string | VMap "(string \<times> hvalue) list"

text \<open>\<open>m[k] = v\<close>.\<close>

definition put :: "string \<Rightarrow> hvalue \<Rightarrow> (string \<times> hvalue) list \<Rightarrow> (string \<times> hvalue) list" where
  "put k v m = AList.update k v m"

definition buildNVIDIAValues :: "createOpts \<Rightarrow> hvalue" where
  "buildNVIDIAValues opts =
     (let gpus = VInt (co_gpusPerWorker opts);
          vals0 = [(''gpusPerNode'', gpus)];
          pool0 = [(''gpuCount'', gpus)];
          gpuProduct = replace_byte (CHR '' '') (CHR ''-'') (co_productName opts);
          memMiB = go_div (co_gpuMemoryBytes opts) 1048576;
          named = co_productName opts \<noteq> [];
          vals1 = (if named then put ''gpuMemory'' (VInt memMiB) (put ''gpuProduct'' (VStr gpuProduct) vals0) else vals0);
          pool1 = (if named then put ''gpuMemory'' (VInt memMiB) (put ''gpuProduct'' (VStr gpuProduct) pool0) else pool0);
          dcgm1 = (if named then put ''productName'' (VStr (co_productName opts)) (put ''gpusPerNode'' gpus []) else []);
          dcgm2 = (if co_migProfile opts \<noteq> [] then put ''migProfile'' (VStr (co_migProfile opts)) dcgm1 else dcgm1);
          vals2 = (if dcgm2 \<noteq> [] then put ''fake-dcgm-extras'' (VMap dcgm2) vals1 else vals1)
      in VMap (put ''fake-gpu-operator''
           (VMap [(''topology'', VMap [(''nodePools'', VMap [(''default'', VMap pool1)])])]) vals2))"

definition buildAMDValues :: "createOpts \<Rightarrow> hvalue" where
  "buildAMDValues opts =
     (let gpus = VInt (co_gpusPerWorker opts);
          vals0 = [(''gpusPerNode'', gpus)];
          named = co_productName opts \<noteq> [];
          product = (\<lambda>m. put ''gpuMemoryBytes'' (VInt (co_gpuMemoryBytes opts))
                            (put ''productName'' (VStr (co_productName opts)) m));
          vals1 = (if named then product vals0 else vals0);
          sub1 = (if named then product vals0 else vals0);
          sub2 = (if co_partitionMode opts \<noteq> [] then
                    put ''computePartition''
                      (VMap [(''mode'', VStr (co_partitionMode opts)), (''count'', VInt (co_partitionCount opts))]) sub1
                  else sub1);
          sub3 = (if co_defaultUtilization opts \<noteq> [] then
                    put ''defaultUtilization'' (VStr (co_defaultUtilization opts)) sub2
                  else sub2)
      in VMap (put ''fake-rocm-gpu-operator'' (VMap sub3) vals1))"

text \<open>Release name, values builder and resource name of a vendor.\<close>

definition vendorWiring :: "string \<Rightarrow> string \<times> (createOpts \<Rightarrow> hvalue) \<times> string" where
  "vendorWiring vendor =
     (if vendor = VendorAMD then (chartReleaseAMD, buildAMDValues, gpuResourceAMD)
      else (chartReleaseNVIDIA, buildNVIDIAValues, gpuResourceNVIDIA))"

text \<open>\<open>env\<close> is the value of \<open>SIMS_CHART_DIR\<close>, empty when unset.\<close>

definition resolveChartDir :: "string \<Rightarrow> string \<Rightarrow> string" where
  "resolveChartDir env name = (if env \<noteq> [] then path_join [env, name] else path_join [defaultChartDir, name])"

definition psaPrivilegedLabels :: "(string \<times> string) list" where
  "psaPrivilegedLabels =
     [(''pod-security.kubernetes.io/enforce'', ''privileged''),
      (''pod-security.kubernetes.io/audit'', ''privileged''),
      (''pod-security.kubernetes.io/warn'', ''privileged''),
      (''app.kubernetes.io/managed-by'', ''sims''),
      (''app.kubernetes.io/part-of'', ''sims'')]"

definition monitoringNSLabels :: "(string \<times> string) list" where
  "monitoringNSLabels =
     [(''app.kubernetes.io/managed-by'', ''sims''), (''app.kubernetes.io/part-of'', ''sims'')]"

section \<open>From a document to the values\<close>

text \<open>The value at a path of keys.\<close>

fun value_at :: "string list \<Rightarrow> hvalue \<Rightarrow> hvalue option" where
  "value_at [] v = Some v"
| "value_at (k # ks) (VMap m) = (case map_of m k of None \<Rightarrow> None | Some v \<Rightarrow> value_at ks v)"
| "value_at (k # ks) _ = None"

lemma map_of_put [simp]: "map_of (put k v m) = (map_of m)(k \<mapsto> v)"
  by (simp add: put_def update_conv')

definition rocm_chart :: string where "rocm_chart = ''fake-rocm-gpu-operator''"

lemma amd_values:
  "value_at [rocm_chart, ''gpusPerNode''] (buildAMDValues opts) = Some (VInt (co_gpusPerWorker opts))"
  "value_at [rocm_chart, ''productName''] (buildAMDValues opts) =
     (if co_productName opts = [] then None else Some (VStr (co_productName opts)))"
  "value_at [rocm_chart, ''gpuMemoryBytes''] (buildAMDValues opts) =
     (if co_productName opts = [] then None else Some (VInt (co_gpuMemoryBytes opts)))"
  "value_at [rocm_chart, ''computePartition'', ''mode''] (buildAMDValues opts) =
     (if co_partitionMode opts = [] then None else Some (VStr (co_partitionMode opts)))"
  "value_at [rocm_chart, ''computePartition'', ''count''] (buildAMDValues opts) =
     (if co_partitionMode opts = [] then None else Some (VInt (co_partitionCount opts)))"
  "value_at [rocm_chart, ''defaultUtilization''] (buildAMDValues opts) =
     (if co_defaultUtilization opts = [] then None else Some (VStr (co_defaultUtilization opts)))"
  by (simp_all add: buildAMDValues_def rocm_chart_def Let_def)

lemma family_product_ne:
  assumes "Families k = Some fam"
  shows "fi_ProductName fam \<noteq> []"
proof -
  from assms have "(k, fam) \<in> set family_table" unfolding Families_def by (rule map_of_SomeD)
  then show ?thesis by (auto simp: family_table_def family_def)
qed



end
