(* ===== verification/Cli_Host.thy ===== *)
theory Cli_Host
  imports Cli_Options "HOL-Library.Sublist"
begin

text \<open>
  The host of the command-line tool: docker and kind, helm, the file system, processes and the cluster.
  A command reaches it through calls. It is modelled as a function from the host and the log of the calls
  made so far to its result and the extended log. What the host answers may depend on the whole log,
  so every behaviour of the outside world is covered. The second half is a small calculus: which
  relations between the old and the new log a command establishes.
\<close>

section \<open>Calls and answers\<close>

datatype go_error = NotExist | NoProcess | Err string

datatype message =
    ClusterReady string int int string bool
  | ClusterDeleted string
  | MonitoringEnabled string
  | MonitoringDisabled string
  | GrafanaRunning int
  | GrafanaAvailable int
  | GrafanaStopped int
  | NothingToStop
  | UnusablePID
  | Line string
  | Header "string list"
  | Manifest "string list"
  | CheckRow string string string string
  | NodeRow string string string
  | PodRow string string string int string

datatype call =
    KindCreate string string
  | KindDelete string
  | KindList
  | KindKubeConfig string
  | CreateTemp
  | WriteTemp string string
  | CloseTemp string
  | RemoveFile string
  | ReadFile string
  | WriteFile string string
  | MkdirAll string
  | UserCacheDir
  | RegistryClient
  | ActionInit string string string
  | LocateChart string
  | LoadChart string
  | RunInstall string string bool string hvalue
  | RunUpgrade string string string hvalue
  | RunUninstall string
  | BuildDependencies string
  | EnsureNamespace string string "(string \<times> string) list"
  | DeleteNamespace string string
  | WaitCapacity string string int int
  | WaitDeployment string string string
  | DetectVendor string
  | TakeSnapshot string
  | StartProcess string "string list"
  | ReleaseProcess int
  | Signal int int
  | RunProcess string "string list"
  | HttpGet string
  | Print message

datatype answer =
    Done
  | Text string
  | Names "string list"
  | Number int
  | Snap ClusterSnapshot

text \<open>The values a caller reads off an answer; an answer of another kind reads as the zero value.\<close>

fun as_text :: "answer \<Rightarrow> string" where
  "as_text (Text s) = s"
| "as_text _ = []"

fun as_names :: "answer \<Rightarrow> string list" where
  "as_names (Names ns) = ns"
| "as_names _ = []"

fun as_number :: "answer \<Rightarrow> int" where
  "as_number (Number n) = n"
| "as_number _ = 0"

type_synonym entry = "call \<times> (go_error + answer)"

record host =
  h_reply :: "entry list \<Rightarrow> call \<Rightarrow> go_error + answer"
  h_cancelled :: "entry list \<Rightarrow> bool" \<comment> \<open>whether the context is done\<close>
  h_env :: "string \<Rightarrow> string"
  h_goos :: string

datatype cli_error =
    CallFailed call go_error
  | Cancelled
  | EmptyKubeconfig
  | EmptyNamespace
  | InvalidVendorFlag string
  | OptionsRefused option_error
  | RenderFailed render_error
  | NoSimsCluster
  | ManySimsClusters "string list"
  | ClusterNotFound string
  | CriticalChecksFailed
  | BrowserUnsupported string

type_synonym 'a cli = "host \<Rightarrow> entry list \<Rightarrow> (cli_error + 'a) \<times> entry list"

section \<open>Combinators\<close>

definition ret :: "'a \<Rightarrow> 'a cli" where
  "ret x = (\<lambda>h l. (Inr x, l))"

definition fail :: "cli_error \<Rightarrow> 'a cli" where
  "fail e = (\<lambda>h l. (Inl e, l))"

definition bind :: "'a cli \<Rightarrow> ('a \<Rightarrow> 'b cli) \<Rightarrow> 'b cli" where
  "bind m f = (\<lambda>h l. case m h l of (Inl e, l1) \<Rightarrow> (Inl e, l1) | (Inr x, l1) \<Rightarrow> f x h l1)"

abbreviation seq :: "'a cli \<Rightarrow> 'b cli \<Rightarrow> 'b cli" where
  "seq m k \<equiv> bind m (\<lambda>_. k)"

text \<open>The result of a command as a value, for errors that the code inspects or ignores.\<close>

definition attempt :: "'a cli \<Rightarrow> (cli_error + 'a) cli" where
  "attempt m = (\<lambda>h l. case m h l of (r, l1) \<Rightarrow> (Inr r, l1))"

text \<open>\<open>defer cleanup\<close>: run after the body whatever its result, its own result dropped.\<close>

definition deferred :: "'a cli \<Rightarrow> 'b cli \<Rightarrow> 'a cli" where
  "deferred m cleanup = (\<lambda>h l. case m h l of (r, l1) \<Rightarrow> (r, snd (cleanup h l1)))"

definition perform :: "call \<Rightarrow> answer cli" where
  "perform c = (\<lambda>h l.
     (case h_reply h l c of
        Inl e \<Rightarrow> (Inl (CallFailed c e), l @ [(c, Inl e)])
      | Inr a \<Rightarrow> (Inr a, l @ [(c, Inr a)])))"

definition ctx_err :: "unit cli" where
  "ctx_err = (\<lambda>h l. (if h_cancelled h l then Inl Cancelled else Inr (), l))"

definition getenv :: "string \<Rightarrow> string cli" where
  "getenv k = (\<lambda>h l. (Inr (h_env h k), l))"

lemmas cli_defs = ret_def fail_def bind_def attempt_def deferred_def perform_def ctx_err_def getenv_def

lemma bind_InrE [elim!]:
  assumes "bind m f h l = (Inr x, l2)"
  obtains y l1 where "m h l = (Inr y, l1)" "f y h l1 = (Inr x, l2)"
  using assms by (auto simp: bind_def split: prod.splits sum.splits)

lemma perform_InrE [elim!]:
  assumes "perform c h l = (Inr a, l1)"
  obtains "h_reply h l c = Inr a" "l1 = l @ [(c, Inr a)]"
  using assms by (auto simp: perform_def split: sum.splits)

lemma ctx_err_InrE [elim!]:
  assumes "ctx_err h l = (Inr u, l1)"
  obtains "\<not> h_cancelled h l" "l1 = l"
  using assms by (cases "h_cancelled h l") (simp_all add: ctx_err_def)

lemma ret_eq [simp]: "ret x h l = (Inr y, l1) \<longleftrightarrow> y = x \<and> l1 = l"
  by (auto simp: ret_def)

lemma fail_eq [simp]: "fail e h l = (r, l1) \<longleftrightarrow> r = Inl e \<and> l1 = l"
  by (auto simp: fail_def)

section \<open>Relations kept by commands\<close>

text \<open>Whatever the host answers, \<open>R\<close> holds between the log before and the log after.\<close>

definition keeps :: "(entry list \<Rightarrow> entry list \<Rightarrow> bool) \<Rightarrow> 'a cli \<Rightarrow> bool" where
  "keeps R m \<longleftrightarrow> (\<forall>h l. R l (snd (m h l)))"

locale trace_contract =
  fixes R :: "entry list \<Rightarrow> entry list \<Rightarrow> bool"
    and harmless :: "call \<Rightarrow> bool"
  assumes refl_R: "R l l"
    and trans_R: "R l l1 \<Longrightarrow> R l1 l2 \<Longrightarrow> R l l2"
    and step_R: "harmless c \<Longrightarrow> R l (l @ [(c, a)])"
begin

lemma keeps_ret: "keeps R (ret x)"
  by (simp add: keeps_def ret_def refl_R)

lemma keeps_fail: "keeps R (fail e)"
  by (simp add: keeps_def fail_def refl_R)

lemma keeps_getenv: "keeps R (getenv k)"
  by (simp add: keeps_def getenv_def refl_R)

lemma keeps_ctx_err: "keeps R ctx_err"
  by (simp add: keeps_def ctx_err_def refl_R)

lemma keeps_perform: "harmless c \<Longrightarrow> keeps R (perform c)"
  by (simp add: keeps_def perform_def step_R split: sum.splits)

lemma keeps_bind: "keeps R m \<Longrightarrow> (\<And>x. keeps R (f x)) \<Longrightarrow> keeps R (bind m f)"
proof -
  assume m: "keeps R m" and f: "\<And>x. keeps R (f x)"
  have "R l (snd (bind m f h l))" for h l
  proof (cases "m h l")
    case (Pair r l1)
    then have "R l l1" using m by (metis keeps_def snd_conv)
    moreover have "R l1 (snd (f x h l1))" for x using f by (simp add: keeps_def)
    ultimately show ?thesis using Pair by (auto simp: bind_def intro: trans_R split: sum.split)
  qed
  then show ?thesis by (simp add: keeps_def)
qed

lemma keeps_attempt: "keeps R m \<Longrightarrow> keeps R (attempt m)"
  by (simp add: keeps_def attempt_def split: prod.split) (metis snd_conv)

lemma keeps_deferred: "keeps R m \<Longrightarrow> keeps R k \<Longrightarrow> keeps R (deferred m k)"
  by (simp add: keeps_def deferred_def split: prod.split) (metis snd_conv trans_R)

lemmas keeps_basic = keeps_ret keeps_fail keeps_getenv keeps_ctx_err keeps_bind keeps_attempt keeps_deferred

end

text \<open>Every entry a command adds satisfies \<open>Q\<close>.\<close>

definition adds_only :: "(entry \<Rightarrow> bool) \<Rightarrow> entry list \<Rightarrow> entry list \<Rightarrow> bool" where
  "adds_only Q l l1 \<longleftrightarrow> (\<exists>es. l1 = l @ es \<and> (\<forall>e \<in> set es. Q e))"

lemma adds_only_trans: "adds_only Q l l1 \<Longrightarrow> adds_only Q l1 l2 \<Longrightarrow> adds_only Q l l2"
  by (auto simp: adds_only_def)

lemma adds_onlyE:
  assumes "keeps (adds_only Q) m"
  obtains es where "snd (m h l) = l @ es" "\<forall>e \<in> set es. Q e"
  using assms unfolding keeps_def adds_only_def by blast

lemma adds_only_start: "keeps (adds_only Q) m \<Longrightarrow> e \<in> set (snd (m h [])) \<Longrightarrow> Q e"
  by (erule adds_onlyE [of Q m h "[]"]) simp

interpretation calls_in: trace_contract "adds_only (\<lambda>e. C (fst e))" C for C
proof unfold_locales
  show "adds_only (\<lambda>e. C (fst e)) l l" for l
    by (simp add: adds_only_def)
  show "adds_only (\<lambda>e. C (fst e)) l l1 \<Longrightarrow> adds_only (\<lambda>e. C (fst e)) l1 l2
        \<Longrightarrow> adds_only (\<lambda>e. C (fst e)) l l2" for l l1 l2
    by (rule adds_only_trans)
  show "C c \<Longrightarrow> adds_only (\<lambda>e. C (fst e)) l (l @ [(c, a)])" for c l a
    by (simp add: adds_only_def)
qed

text \<open>Commands that never fail.\<close>

definition steady :: "'a cli \<Rightarrow> bool" where
  "steady m \<longleftrightarrow> (\<forall>h l. \<exists>x l1. m h l = (Inr x, l1))"

lemma steady_ret: "steady (ret x)"
  by (simp add: steady_def)

lemma steady_attempt: "steady (attempt m)"
  by (simp add: steady_def attempt_def split: prod.split)

lemma steady_bind: "steady m \<Longrightarrow> (\<And>x. steady (f x)) \<Longrightarrow> steady (bind m f)"
  unfolding steady_def bind_def by (metis (no_types, lifting) case_prod_conv sum.case(2))

lemma steady_sum: "(\<And>e. steady (f e)) \<Longrightarrow> (\<And>x. steady (g x)) \<Longrightarrow> steady (case s of Inl e \<Rightarrow> f e | Inr x \<Rightarrow> g x)"
  by (cases s) auto

lemmas steady_intros = steady_ret steady_attempt steady_bind steady_sum

end
