(* ===== verification/Helm_Client.thy ===== *)
theory Helm_Client
  imports Cli_Host
begin

text \<open>
  The two wrappers around the tools a cluster is built with: the kind provider
  (\<open>pkg/cluster/kind.go\<close>) and the helm client (\<open>pkg/helm/install.go\<close>, \<open>dependency.go\<close>). The client keeps
  the kubeconfig, which holds the credentials of the cluster, in a temporary file from \<open>New\<close> to \<open>Close\<close>;
  the lemmas at the end show that no path through it leaves that file behind.
\<close>

section \<open>The kind provider\<close>

definition Provider_Create :: "string \<Rightarrow> string \<Rightarrow> unit cli" where
  "Provider_Create name rawConfig = seq ctx_err (seq (perform (KindCreate name rawConfig)) (ret ()))"

definition Provider_Delete :: "string \<Rightarrow> unit cli" where
  "Provider_Delete name = seq ctx_err (seq (perform (KindDelete name)) (ret ()))"

definition Provider_List :: "string list cli" where
  "Provider_List = seq ctx_err (bind (perform KindList) (\<lambda>a. ret (as_names a)))"

definition Provider_KubeConfig :: "string \<Rightarrow> string cli" where
  "Provider_KubeConfig name = seq ctx_err (bind (perform (KindKubeConfig name)) (\<lambda>a. ret (as_text a)))"

lemmas provider_defs = Provider_Create_def Provider_Delete_def Provider_List_def Provider_KubeConfig_def

section \<open>The helm client\<close>

record HelmClient =
  kubeconfigPath :: string
  hc_namespace :: string

definition remove_and_fail :: "string \<Rightarrow> cli_error \<Rightarrow> 'a cli" where
  "remove_and_fail path e = seq (attempt (perform (RemoveFile path))) (fail e)"

definition NewClient :: "string \<Rightarrow> string \<Rightarrow> HelmClient cli" where
  "NewClient kubeconfig namespace =
     (if kubeconfig = [] then fail EmptyKubeconfig
      else if namespace = [] then fail EmptyNamespace
      else bind (perform CreateTemp) (\<lambda>f.
        let path = as_text f in
        bind (attempt (perform (WriteTemp path kubeconfig))) (\<lambda>written.
        case written of
          Inl e \<Rightarrow> seq (attempt (perform (CloseTemp path))) (remove_and_fail path e)
        | Inr _ \<Rightarrow>
            bind (attempt (perform (CloseTemp path))) (\<lambda>closed.
            case closed of
              Inl e \<Rightarrow> remove_and_fail path e
            | Inr _ \<Rightarrow>
                bind (attempt (perform RegistryClient)) (\<lambda>rc.
                case rc of
                  Inl e \<Rightarrow> remove_and_fail path e
                | Inr _ \<Rightarrow> ret \<lparr>kubeconfigPath = path, hc_namespace = namespace\<rparr>)))))"

text \<open>\<open>Close\<close> returns the updated client and its error.\<close>

definition Close :: "HelmClient \<Rightarrow> (HelmClient \<times> cli_error option) cli" where
  "Close c =
     (if kubeconfigPath c = [] then ret (c, None)
      else bind (attempt (perform (RemoveFile (kubeconfigPath c)))) (\<lambda>r.
        let c1 = c\<lparr>kubeconfigPath := []\<rparr> in
        case r of
          Inr _ \<Rightarrow> ret (c1, None)
        | Inl (CallFailed _ NotExist) \<Rightarrow> ret (c1, None)
        | Inl e \<Rightarrow> ret (c1, Some e)))"

record InstallAction =
  ia_ReleaseName :: string
  ia_Namespace :: string
  CreateNamespace :: bool

definition WithoutCreateNamespace :: "InstallAction \<Rightarrow> InstallAction" where
  "WithoutCreateNamespace i = i\<lparr>CreateNamespace := False\<rparr>"

definition actionConfig :: "HelmClient \<Rightarrow> unit cli" where
  "actionConfig c =
     bind (getenv ''HELM_DRIVER'') (\<lambda>driver.
     seq (perform (ActionInit (kubeconfigPath c) (hc_namespace c) driver)) (ret ()))"

definition locateAndLoad :: "string \<Rightarrow> string cli" where
  "locateAndLoad chartRef =
     bind (perform (LocateChart chartRef)) (\<lambda>p.
     seq (perform (LoadChart (as_text p))) (ret (as_text p)))"

definition Install ::
  "HelmClient \<Rightarrow> string \<Rightarrow> string \<Rightarrow> hvalue \<Rightarrow> (InstallAction \<Rightarrow> InstallAction) list \<Rightarrow> unit cli" where
  "Install c release chartRef vals opts =
     seq (actionConfig c)
       (let install = fold (\<lambda>opt i. opt i) opts
              \<lparr>ia_ReleaseName = release, ia_Namespace = hc_namespace c, CreateNamespace = True\<rparr>
        in bind (locateAndLoad chartRef) (\<lambda>chart.
           seq (perform (RunInstall (ia_ReleaseName install) (ia_Namespace install) (CreateNamespace install)
                          chart vals)) (ret ())))"

definition Upgrade :: "HelmClient \<Rightarrow> string \<Rightarrow> string \<Rightarrow> hvalue \<Rightarrow> unit cli" where
  "Upgrade c release chartRef vals =
     seq (actionConfig c)
       (bind (locateAndLoad chartRef) (\<lambda>chart.
        seq (perform (RunUpgrade release (hc_namespace c) chart vals)) (ret ())))"

fun mentions_not_found :: "cli_error \<Rightarrow> bool" where
  "mentions_not_found (CallFailed _ (Err s)) = sublist ''not found'' s"
| "mentions_not_found _ = False"

definition Uninstall :: "HelmClient \<Rightarrow> string \<Rightarrow> unit cli" where
  "Uninstall c release =
     seq (actionConfig c)
       (bind (attempt (perform (RunUninstall release))) (\<lambda>r.
        case r of
          Inl e \<Rightarrow> if mentions_not_found e then ret () else fail e
        | Inr _ \<Rightarrow> ret ()))"

definition EnsureDependencies :: "HelmClient \<Rightarrow> string \<Rightarrow> unit cli" where
  "EnsureDependencies c chartPath = seq ctx_err (seq (perform (BuildDependencies chartPath)) (ret ()))"

text \<open>A client in the scope of its caller: \<open>New\<close>, then the body with \<open>defer Close\<close>.\<close>

definition with_helm :: "string \<Rightarrow> string \<Rightarrow> (HelmClient \<Rightarrow> 'a cli) \<Rightarrow> 'a cli" where
  "with_helm kubeconfig namespace body =
     bind (NewClient kubeconfig namespace) (\<lambda>c. deferred (body c) (Close c))"

lemmas helm_defs = NewClient_def remove_and_fail_def Close_def Install_def Upgrade_def Uninstall_def
  actionConfig_def locateAndLoad_def EnsureDependencies_def with_helm_def

section \<open>Temporary files\<close>

text \<open>The temporary files that exist and whose removal was not requested yet. A file name is not empty.\<close>

fun temp_step :: "string set \<Rightarrow> entry \<Rightarrow> string set" where
  "temp_step S (CreateTemp, Inr a) = (if as_text a = [] then S else insert (as_text a) S)"
| "temp_step S (RemoveFile p, _) = S - {p}"
| "temp_step S _ = S"

definition temps :: "entry list \<Rightarrow> string set" where
  "temps l = foldl temp_step {} l"

lemma temps_Nil [simp]: "temps [] = {}"
  by (simp add: temps_def)

lemma temps_append [simp]: "temps (l @ es) = foldl temp_step (temps l) es"
  by (simp add: temps_def)

lemma Nil_notin_temps [simp]: "[] \<notin> temps l"
proof (induction l rule: rev_induct)
  case (snoc e l)
  then show ?case by (cases "(temps l, e)" rule: temp_step.cases) auto
qed simp

lemma temp_step_harmless: "c \<noteq> CreateTemp \<Longrightarrow> temp_step S (c, a) \<subseteq> S"
  by (cases "(S, (c, a))" rule: temp_step.cases) auto

definition tidy :: "entry list \<Rightarrow> entry list \<Rightarrow> bool" where
  "tidy l l1 \<longleftrightarrow> temps l1 \<subseteq> temps l"

interpretation temp: trace_contract tidy "\<lambda>c. c \<noteq> CreateTemp"
  using temp_step_harmless by unfold_locales (auto simp: tidy_def)

lemma keeps_let: "(\<And>x. keeps R (f x)) \<Longrightarrow> keeps R (Let a f)"
  by simp

lemma keeps_if: "(b \<Longrightarrow> keeps R m) \<Longrightarrow> (\<not> b \<Longrightarrow> keeps R k) \<Longrightarrow> keeps R (if b then m else k)"
  by simp

lemma keeps_sum: "(\<And>e. keeps R (f e)) \<Longrightarrow> (\<And>x. keeps R (g x)) \<Longrightarrow> keeps R (case s of Inl e \<Rightarrow> f e | Inr x \<Rightarrow> g x)"
  by (cases s) auto

lemmas keeps_control = keeps_let keeps_if keeps_sum

lemmas temp_intros = temp.keeps_basic temp.keeps_perform keeps_control

lemma provider_tidy:
  "keeps tidy (Provider_Create n raw)" "keeps tidy (Provider_Delete n)"
  "keeps tidy Provider_List" "keeps tidy (Provider_KubeConfig n)"
  unfolding provider_defs by (intro temp_intros; simp)+

lemma helm_tidy:
  "keeps tidy (Install c rel ref vals opts)" "keeps tidy (Upgrade c rel ref vals)"
  "keeps tidy (Uninstall c rel)" "keeps tidy (EnsureDependencies c p)"
  unfolding Install_def Upgrade_def Uninstall_def EnsureDependencies_def actionConfig_def locateAndLoad_def
  by (intro temp_intros; simp)+

text \<open>A client that could be built owns at most its own file; a failed construction owns none.\<close>

lemma NewClient_temps:
  assumes "NewClient kc ns h l = (r, l1)"
  shows "case r of Inl _ \<Rightarrow> temps l1 \<subseteq> temps l | Inr c \<Rightarrow> temps l1 - {kubeconfigPath c} \<subseteq> temps l"
  using assms
  by (auto simp: NewClient_def remove_and_fail_def Let_def cli_defs split: if_splits sum.splits prod.splits)

lemma Close_temps: "temps (snd (Close c h l)) \<subseteq> temps l - {kubeconfigPath c}"
  by (auto simp: Close_def cli_defs Let_def split: sum.splits cli_error.splits go_error.splits)

lemma Close_twice:
  assumes "Close c h l = (Inr (c1, e), l1)"
  shows "Close c1 h l1 = (Inr (c1, None), l1)"
  using assms by (auto simp: Close_def cli_defs Let_def split: sum.splits cli_error.splits go_error.splits if_splits)

lemma with_helm_tidy:
  assumes "\<And>c. keeps tidy (body c)"
  shows "keeps tidy (with_helm kc ns body)"
proof -
  have "temps (snd (with_helm kc ns body h l)) \<subseteq> temps l" for h l
  proof (cases "NewClient kc ns h l")
    case (Pair r l1)
    note new = NewClient_temps [OF Pair]
    show ?thesis
    proof (cases r)
      case (Inl e)
      then show ?thesis using Pair new by (simp add: with_helm_def bind_def)
    next
      case (Inr c)
      obtain r2 l2 where b: "body c h l1 = (r2, l2)" by fastforce
      have "temps l2 \<subseteq> temps l1" using assms [of c] b by (metis keeps_def snd_conv tidy_def)
      then have "temps l2 - {kubeconfigPath c} \<subseteq> temps l" using new Inr by auto
      then show ?thesis
        using Close_temps [of c h l2] Pair Inr b by (auto simp: with_helm_def bind_def deferred_def)
    qed
  qed
  then show ?thesis by (simp add: keeps_def tidy_def)
qed

end
