(* ===== verification/Cli_Create.thy ===== *)
theory Cli_Create
  imports Helm_Client Kind_Config
begin

text \<open>
  \<open>sims gpu create\<close> (\<open>runCreate\<close> and \<open>installMonitoring\<close> of \<open>pkg/cli/gpu_create.go\<close>) against the host, and
  its abstract specification: a plan, the list of the phases a cluster goes through. Whatever the host
  answers, the phases that took effect are a prefix of the plan, and the command reports success exactly
  when they are all of it.
\<close>

section \<open>The command\<close>

definition resolve_chart :: "string \<Rightarrow> string cli" where
  "resolve_chart name = bind (getenv ''SIMS_CHART_DIR'') (\<lambda>dir. ret (resolveChartDir dir name))"

definition installMonitoring :: "string \<Rightarrow> string \<Rightarrow> unit cli" where
  "installMonitoring kubeconfig vendor =
     seq (perform (EnsureNamespace kubeconfig monitoringNamespace monitoringNSLabels))
       (with_helm kubeconfig monitoringNamespace (\<lambda>hc.
          bind (resolve_chart monitoringChartName) (\<lambda>chartDir.
          seq (EnsureDependencies hc chartDir)
         (seq (Install hc monitoringRelease chartDir (VMap [(''vendor'', VStr vendor)]) [WithoutCreateNamespace])
         (seq (perform (WaitDeployment kubeconfig monitoringNamespace (monitoringRelease @ grafanaDeploymentSuffix)))
              (ret ()))))))"

definition cluster_name :: "createOpts \<Rightarrow> string" where
  "cluster_name opts = (if co_name opts = [] then ''sims-'' @ co_vendor opts else co_name opts)"

definition create_release :: "createOpts \<Rightarrow> string \<Rightarrow> unit cli" where
  "create_release opts kc =
     (case vendorWiring (co_vendor opts) of (chartRelease, valuesBuilder, gpuResource) \<Rightarrow>
        with_helm kc chartNamespace (\<lambda>hc.
          bind (resolve_chart chartRelease) (\<lambda>chartDir.
          seq (EnsureDependencies hc chartDir)
         (seq (Install hc chartRelease chartDir (valuesBuilder opts) [WithoutCreateNamespace])
         (seq (perform (WaitCapacity kc gpuResource (co_gpusPerWorker opts) (co_workers opts)))
         (seq (if co_withMonitoring opts then installMonitoring kc (co_vendor opts) else ret ())
         (seq (attempt (perform (Print (ClusterReady (cluster_name opts) (co_workers opts)
                 (co_gpusPerWorker opts) gpuResource (co_withMonitoring opts)))))
              (ret ()))))))))"

text \<open>The options handed to the kind configuration.\<close>

definition kind_options :: "createOpts \<Rightarrow> KindOptions" where
  "kind_options opts =
     \<lparr>ko_Vendor = co_vendor opts, ko_Name = cluster_name opts, ko_Workers = co_workers opts,
      ko_K8sVersion = co_k8sVersion opts, ko_Taint = co_taint opts\<rparr>"

definition runCreate :: "createOpts \<Rightarrow> unit cli" where
  "runCreate opts =
     (case validateVendor (co_vendor opts) of
        Some v \<Rightarrow> fail (InvalidVendorFlag v)
      | None \<Rightarrow>
          (case Render (kind_options opts) of
             Inl e \<Rightarrow> fail (RenderFailed e)
           | Inr raw \<Rightarrow>
               seq (Provider_Create (cluster_name opts) raw)
                 (bind (Provider_KubeConfig (cluster_name opts)) (\<lambda>kc.
                  seq (perform (EnsureNamespace kc chartNamespace psaPrivilegedLabels))
                      (create_release opts kc)))))"

text \<open>The \<open>RunE\<close> of the command: the options are merged with the SimsConfig document first.\<close>

definition create_command ::
  "(string \<Rightarrow> config_error + SimsConfig) \<Rightarrow> (string \<Rightarrow> bool) \<Rightarrow> createOpts \<Rightarrow> unit cli" where
  "create_command load changed opts =
     (case applyConfig load changed opts of
        Inl e \<Rightarrow> fail (OptionsRefused e)
      | Inr merged \<Rightarrow> runCreate merged)"

section \<open>The plan\<close>

datatype phase =
    Cluster string string
  | Labelled string "(string \<times> string) list"
  | Released string string bool hvalue
  | CapacityReached string int int
  | DeploymentUp string string

text \<open>The phase an entry of the log completes: calls that failed and auxiliary calls complete none.\<close>

fun phase_of :: "entry \<Rightarrow> phase list" where
  "phase_of (KindCreate n raw, Inr _) = [Cluster n raw]"
| "phase_of (EnsureNamespace _ ns ls, Inr _) = [Labelled ns ls]"
| "phase_of (RunInstall rel ns cr _ vals, Inr _) = [Released rel ns cr vals]"
| "phase_of (WaitCapacity _ res per n, Inr _) = [CapacityReached res per n]"
| "phase_of (WaitDeployment _ ns d, Inr _) = [DeploymentUp ns d]"
| "phase_of _ = []"

definition phases :: "entry list \<Rightarrow> phase list" where
  "phases l = concat (map phase_of l)"

lemma phases_simps [simp]: "phases [] = []" "phases (l @ es) = phases l @ phases es"
  "phases (e # es) = phase_of e @ phases es"
  by (simp_all add: phases_def)

definition monitoring_plan :: "string \<Rightarrow> phase list" where
  "monitoring_plan vendor =
     [Labelled ''monitoring'' monitoringNSLabels,
      Released ''sims-monitoring'' ''monitoring'' False (VMap [(''vendor'', VStr vendor)]),
      DeploymentUp ''monitoring'' ''sims-monitoring-grafana'']"

definition release_plan :: "createOpts \<Rightarrow> phase list" where
  "release_plan opts =
     (case vendorWiring (co_vendor opts) of (release, vals, resource) \<Rightarrow>
        [Released release ''gpu-operator'' False (vals opts),
         CapacityReached resource (co_gpusPerWorker opts) (co_workers opts)]) @
     (if co_withMonitoring opts then monitoring_plan (co_vendor opts) else [])"

definition create_plan :: "createOpts \<Rightarrow> string \<Rightarrow> phase list" where
  "create_plan opts raw =
     [Cluster (cluster_name opts) raw, Labelled ''gpu-operator'' psaPrivilegedLabels] @ release_plan opts"

text \<open>
  \<open>follows m P\<close>: the phases of \<open>m\<close> are a prefix of \<open>P\<close>, all of it on success. \<open>exact m P\<close>: and success
  is reported when all of it is done.
\<close>

definition follows :: "'a cli \<Rightarrow> phase list \<Rightarrow> bool" where
  "follows m P \<longleftrightarrow> (\<forall>h l. \<exists>Q. phases (snd (m h l)) = phases l @ Q \<and> prefix Q P \<and>
     ((\<exists>x. fst (m h l) = Inr x) \<longrightarrow> Q = P))"

definition exact :: "'a cli \<Rightarrow> phase list \<Rightarrow> bool" where
  "exact m P \<longleftrightarrow> (\<forall>h l. \<exists>Q. phases (snd (m h l)) = phases l @ Q \<and> prefix Q P \<and>
     ((\<exists>x. fst (m h l) = Inr x) \<longleftrightarrow> Q = P))"

lemma exact_follows: "exact m P \<Longrightarrow> follows m P"
  unfolding exact_def follows_def by metis

lemma follows_bind:
  assumes "follows m P" "\<And>x. follows (f x) Q"
  shows "follows (bind m f) (P @ Q)"
  unfolding follows_def
proof (intro allI)
  fix h l
  obtain r l1 where m: "m h l = (r, l1)" by fastforce
  from assms(1) m obtain P1 where P1: "phases l1 = phases l @ P1" "prefix P1 P" "(\<exists>x. r = Inr x) \<longrightarrow> P1 = P"
    unfolding follows_def by (metis fst_conv snd_conv)
  show "\<exists>R. phases (snd (bind m f h l)) = phases l @ R \<and> prefix R (P @ Q) \<and>
          ((\<exists>x. fst (bind m f h l) = Inr x) \<longrightarrow> R = P @ Q)"
  proof (cases r)
    case (Inl e)
    then show ?thesis using m P1 by (auto simp: bind_def)
  next
    case (Inr x)
    from assms(2) [of x] obtain Q1 where "phases (snd (f x h l1)) = phases l1 @ Q1" "prefix Q1 Q"
      "(\<exists>y. fst (f x h l1) = Inr y) \<longrightarrow> Q1 = Q"
      unfolding follows_def by metis
    then show ?thesis using m P1 Inr by (auto simp: bind_def)
  qed
qed

lemma exact_bind:
  assumes "follows m P" "\<And>x. exact (f x) Q" "Q \<noteq> []"
  shows "exact (bind m f) (P @ Q)"
  unfolding exact_def
proof (intro allI)
  fix h l
  obtain r l1 where m: "m h l = (r, l1)" by fastforce
  from assms(1) m obtain P1 where P1: "phases l1 = phases l @ P1" "prefix P1 P" "(\<exists>x. r = Inr x) \<longrightarrow> P1 = P"
    unfolding follows_def by (metis fst_conv snd_conv)
  show "\<exists>R. phases (snd (bind m f h l)) = phases l @ R \<and> prefix R (P @ Q) \<and>
          ((\<exists>x. fst (bind m f h l) = Inr x) \<longleftrightarrow> R = P @ Q)"
  proof (cases r)
    case (Inl e)
    have "P1 \<noteq> P @ Q" using P1(2) assms(3) by (auto simp: prefix_def)
    then show ?thesis using m P1 Inl by (auto simp: bind_def)
  next
    case (Inr x)
    from assms(2) [of x] obtain Q1 where "phases (snd (f x h l1)) = phases l1 @ Q1" "prefix Q1 Q"
      "(\<exists>y. fst (f x h l1) = Inr y) \<longleftrightarrow> Q1 = Q"
      unfolding exact_def by metis
    then show ?thesis using m P1 Inr by (auto simp: bind_def)
  qed
qed

lemma exact_then:
  assumes "exact m P" "\<And>x. exact (f x) []"
  shows "exact (bind m f) P"
  unfolding exact_def
proof (intro allI)
  fix h l
  obtain r l1 where m: "m h l = (r, l1)" by fastforce
  from assms(1) m obtain P1 where P1: "phases l1 = phases l @ P1" "prefix P1 P" "(\<exists>x. r = Inr x) \<longleftrightarrow> P1 = P"
    unfolding exact_def by (metis fst_conv snd_conv)
  show "\<exists>R. phases (snd (bind m f h l)) = phases l @ R \<and> prefix R P \<and>
          ((\<exists>x. fst (bind m f h l) = Inr x) \<longleftrightarrow> R = P)"
  proof (cases r)
    case (Inl e)
    then show ?thesis using m P1 by (auto simp: bind_def)
  next
    case (Inr x)
    from assms(2) [of x] obtain y where "phases (snd (f x h l1)) = phases l1" "fst (f x h l1) = Inr y"
      unfolding exact_def by force
    then show ?thesis using m P1 Inr by (auto simp: bind_def)
  qed
qed

text \<open>Calls that complete no phase, and commands made of them.\<close>

definition auxiliary :: "call \<Rightarrow> bool" where
  "auxiliary c \<longleftrightarrow> \<not> (case c of KindCreate _ _ \<Rightarrow> True | EnsureNamespace _ _ _ \<Rightarrow> True
     | RunInstall _ _ _ _ _ \<Rightarrow> True | WaitCapacity _ _ _ _ \<Rightarrow> True | WaitDeployment _ _ _ \<Rightarrow> True | _ \<Rightarrow> False)"

lemma auxiliary_silent: "auxiliary c \<Longrightarrow> phase_of (c, a) = []"
  by (cases "(c, a)" rule: phase_of.cases) (auto simp: auxiliary_def)

lemma phase_of_failed [simp]: "phase_of (c, Inl e) = []"
  by (cases "(c, Inl e :: go_error + answer)" rule: phase_of.cases) auto

definition silent :: "entry list \<Rightarrow> entry list \<Rightarrow> bool" where
  "silent l l1 \<longleftrightarrow> phases l1 = phases l"

interpretation quiet: trace_contract silent auxiliary
  by unfold_locales (auto simp: silent_def auxiliary_silent)

lemma follows_silent: "keeps silent m \<Longrightarrow> follows m []"
  by (auto simp: keeps_def silent_def follows_def)

lemma follows_ret: "follows (ret x) []"
  by (intro follows_silent quiet.keeps_ret)

lemma follows_perform: "(\<And>a. phase_of (c, Inr a) = P) \<Longrightarrow> follows (perform c) P"
  by (auto simp: follows_def perform_def split: sum.split)

lemma exact_perform: "(\<And>a. phase_of (c, Inr a) = [p]) \<Longrightarrow> exact (perform c) [p]"
  by (auto simp: exact_def perform_def split: sum.split)

lemma exact_ret: "exact (ret x) []"
  by (auto simp: exact_def ret_def)

lemma exact_fail: "P \<noteq> [] \<Longrightarrow> exact (fail e) P"
  by (auto simp: exact_def fail_def)

lemma exact_attempt: "keeps silent m \<Longrightarrow> exact (attempt m) []"
  by (auto simp: exact_def attempt_def keeps_def silent_def split: prod.split) (metis snd_conv)

lemma exact_deferred: "exact m P \<Longrightarrow> keeps silent k \<Longrightarrow> exact (deferred m k) P"
  by (auto simp: exact_def deferred_def keeps_def silent_def split: prod.split) (metis fst_conv snd_conv)

lemma exact_silent_bind: "keeps silent m \<Longrightarrow> (\<And>x. exact (f x) P) \<Longrightarrow> P \<noteq> [] \<Longrightarrow> exact (bind m f) P"
  using exact_bind [of m "[]" f P] follows_silent by fastforce

lemmas quiet_intros = quiet.keeps_basic quiet.keeps_perform keeps_control

lemma NewClient_quiet: "keeps silent (NewClient kc ns)"
  unfolding NewClient_def remove_and_fail_def
  by (intro quiet_intros; simp add: auxiliary_def)

lemma Close_quiet: "keeps silent (Close c)"
  by (auto simp: keeps_def silent_def Close_def cli_defs Let_def
      split: sum.splits cli_error.splits go_error.splits)

lemma small_quiet:
  "keeps silent (EnsureDependencies c p)" "keeps silent (resolve_chart n)"
  "keeps silent (actionConfig c)" "keeps silent (locateAndLoad ref)" "keeps silent (Provider_KubeConfig n)"
  unfolding EnsureDependencies_def resolve_chart_def actionConfig_def locateAndLoad_def Provider_KubeConfig_def
  by (intro quiet_intros; simp add: auxiliary_def)+

lemma NewClient_namespace:
  assumes "NewClient kc ns h l = (Inr c, l1)"
  shows "hc_namespace c = ns"
  using assms
  by (auto simp: NewClient_def remove_and_fail_def Let_def cli_defs split: if_splits sum.splits prod.splits)

lemma exact_with_helm:
  assumes body: "\<And>c. hc_namespace c = ns \<Longrightarrow> exact (body c) P" and "P \<noteq> []"
  shows "exact (with_helm kc ns body) P"
  unfolding exact_def
proof (intro allI)
  fix h l
  obtain r l1 where m: "NewClient kc ns h l = (r, l1)" by fastforce
  have p: "phases l1 = phases l" using NewClient_quiet m by (metis keeps_def silent_def snd_conv)
  show "\<exists>Q. phases (snd (with_helm kc ns body h l)) = phases l @ Q \<and> prefix Q P \<and>
          ((\<exists>x. fst (with_helm kc ns body h l) = Inr x) \<longleftrightarrow> Q = P)"
  proof (cases r)
    case (Inl e)
    then show ?thesis using m p \<open>P \<noteq> []\<close> by (auto simp: with_helm_def bind_def)
  next
    case (Inr c)
    then have "exact (deferred (body c) (Close c)) P"
      using m by (intro exact_deferred body Close_quiet) (auto dest: NewClient_namespace)
    then obtain Q where "phases (snd (deferred (body c) (Close c) h l1)) = phases l1 @ Q" "prefix Q P"
      "(\<exists>x. fst (deferred (body c) (Close c) h l1) = Inr x) \<longleftrightarrow> Q = P"
      unfolding exact_def by blast
    then show ?thesis using m p Inr by (simp add: with_helm_def bind_def)
  qed
qed

lemma exact_Install:
  "exact (Install c rel ref vals [WithoutCreateNamespace]) [Released rel (hc_namespace c) False vals]"
  unfolding Install_def Let_def
  by (intro exact_silent_bind small_quiet exact_then [OF exact_perform] exact_ret)
     (simp_all add: WithoutCreateNamespace_def)

lemma exact_Provider_Create: "exact (Provider_Create n raw) [Cluster n raw]"
  unfolding Provider_Create_def
  by (intro exact_silent_bind quiet.keeps_ctx_err exact_then [OF exact_perform] exact_ret) simp_all

text \<open>Rules for one step of a plan.\<close>

lemma exact_step:
  "exact m [p] \<Longrightarrow> (\<And>x. exact (f x) P) \<Longrightarrow> P \<noteq> [] \<Longrightarrow> exact (bind m f) (p # P)"
  using exact_bind [OF exact_follows, of m "[p]" f P] by simp

lemma exact_call_step:
  "(\<And>a. phase_of (c, Inr a) = [p]) \<Longrightarrow> (\<And>x. exact (f x) P) \<Longrightarrow> P \<noteq> [] \<Longrightarrow> exact (bind (perform c) f) (p # P)"
  by (intro exact_step exact_perform)

lemma exact_call_last:
  "(\<And>a. phase_of (c, Inr a) = [p]) \<Longrightarrow> (\<And>x. exact (f x) []) \<Longrightarrow> exact (bind (perform c) f) [p]"
  by (intro exact_then exact_perform)

lemma exact_install_step:
  "hc_namespace c = ns \<Longrightarrow> (\<And>x. exact (f x) P) \<Longrightarrow> P \<noteq> [] \<Longrightarrow>
     exact (bind (Install c rel ref vals [WithoutCreateNamespace]) f) (Released rel ns False vals # P)"
  using exact_step [OF exact_Install] by blast

lemmas silent_step = exact_silent_bind [OF small_quiet(1)] exact_silent_bind [OF small_quiet(2)]
  exact_silent_bind [OF small_quiet(5)]

lemmas monitoring_names = monitoringNamespace_def monitoringRelease_def grafanaDeploymentSuffix_def

lemma exact_installMonitoring: "exact (installMonitoring kc vendor) (monitoring_plan vendor)"
  unfolding installMonitoring_def monitoring_plan_def
  by (rule exact_call_step exact_with_helm silent_step exact_install_step exact_call_last exact_ret
      | simp add: monitoring_names)+

lemma exact_print_ready: "exact (seq (attempt (perform (Print m))) (ret ())) []"
  by (intro exact_then exact_attempt quiet.keeps_perform exact_ret) (simp add: auxiliary_def)

lemma exact_tail:
  "exact (seq (if b then installMonitoring kc v else ret ()) (seq (attempt (perform (Print m))) (ret ())))
     (if b then monitoring_plan v else [])"
  using exact_then [OF exact_installMonitoring exact_print_ready] exact_then [OF exact_ret exact_print_ready]
  by (cases b) simp_all

lemma exact_create_release:
  "exact (create_release opts kc) (release_plan opts)"
proof -
  obtain rel vals res where w: "vendorWiring (co_vendor opts) = (rel, vals, res)"
    by (cases "vendorWiring (co_vendor opts)")
  let ?tail = "if co_withMonitoring opts then monitoring_plan (co_vendor opts) else []"
  have wait: "exact (bind (perform (WaitCapacity kc res n k)) (\<lambda>_. f)) (CapacityReached res n k # ?tail)"
    if "exact f ?tail" for n k and f :: "unit cli"
    using that exact_call_last [of "WaitCapacity kc res n k" _ "\<lambda>_. f"]
      exact_call_step [of "WaitCapacity kc res n k" "CapacityReached res n k" "\<lambda>_. f" ?tail]
    by (cases "?tail = []") simp_all
  show ?thesis
    unfolding create_release_def release_plan_def w prod.case chartNamespace_def append_Cons append_Nil
    by (rule exact_with_helm silent_step exact_install_step wait exact_tail | simp)+
qed

lemma Render_vendor: "Render (kind_options opts) = Inr raw \<Longrightarrow> validateVendor (co_vendor opts) = None"
  by (auto simp: Render_def buildTemplateData_def kind_options_def validateVendor_def split: if_splits sum.splits)

lemma exact_runCreate:
  assumes r: "Render (kind_options opts) = Inr raw"
  shows "exact (runCreate opts) (create_plan opts raw)"
proof -
  have ne: "release_plan opts \<noteq> []" by (simp add: release_plan_def split: prod.split)
  show ?thesis
    unfolding runCreate_def Render_vendor [OF r] r option.case sum.case create_plan_def append_Cons append_Nil
      chartNamespace_def
    by (rule exact_step [OF exact_Provider_Create] silent_step exact_call_step exact_create_release | simp add: ne)+
qed

text \<open>
  C9. Whatever the host answers to the calls of \<open>sims gpu create\<close>, the phases that took effect are a
  prefix of the plan for the options: the kind cluster with the rendered configuration, the labelled
  namespace, the vendor's release with its values, the GPU capacity and, when asked for, the monitoring
  stack. The command reports success exactly when the whole plan took effect. Options whose configuration
  cannot be rendered are refused before any call is made.
\<close>
theorem create_follows_plan:
  "case Render (kind_options opts) of
     Inl _ \<Rightarrow> (\<exists>e. runCreate opts h [] = (Inl e, []))
   | Inr raw \<Rightarrow>
       prefix (phases (snd (runCreate opts h []))) (create_plan opts raw) \<and>
       (\<exists>u. fst (runCreate opts h []) = Inr u) =
         (phases (snd (runCreate opts h [])) = create_plan opts raw)"
proof (cases "Render (kind_options opts)")
  case (Inl e)
  then show ?thesis by (auto simp: runCreate_def fail_def split: option.split)
next
  case (Inr raw)
  from exact_runCreate [OF Inr] obtain Q where "phases (snd (runCreate opts h [])) = phases [] @ Q"
    "prefix Q (create_plan opts raw)" "(\<exists>x. fst (runCreate opts h []) = Inr x) \<longleftrightarrow> Q = create_plan opts raw"
    unfolding exact_def by blast
  then show ?thesis using Inr by simp
qed

end
