(* ===== verification/Cli_Manage.thy ===== *)
theory Cli_Manage
  imports Cli_Create
begin

text \<open>
  The commands on existing clusters: \<open>sims gpu delete\<close>, \<open>monitoring enable\<close> and \<open>disable\<close>, \<open>list\<close>,
  \<open>status\<close>, \<open>sample\<close> and \<open>doctor\<close> (\<open>pkg/cli\<close>). Log output on stderr is left out; a line written to
  stdout is one call, as a structured message.
\<close>

section \<open>Choosing the cluster\<close>

definition simsClusterPrefix :: string where "simsClusterPrefix = ''sims-''"

definition filterSimsClusters :: "string list \<Rightarrow> string list" where
  "filterSimsClusters names = filter (prefix simsClusterPrefix) names"

definition pick_cluster :: "string \<Rightarrow> string list \<Rightarrow> cli_error + string" where
  "pick_cluster name all =
     (if name = [] then
        (case filterSimsClusters all of
           [] \<Rightarrow> Inl NoSimsCluster
         | [n] \<Rightarrow> if n \<in> set all then Inr n else Inl (ClusterNotFound n)
         | sims \<Rightarrow> Inl (ManySimsClusters sims))
      else if name \<in> set all then Inr name else Inl (ClusterNotFound name))"

definition lift_result :: "cli_error + 'a \<Rightarrow> 'a cli" where
  "lift_result r = (case r of Inl e \<Rightarrow> fail e | Inr x \<Rightarrow> ret x)"

definition resolveClusterAndKubeconfig :: "string \<Rightarrow> (string \<times> string) cli" where
  "resolveClusterAndKubeconfig name =
     bind Provider_List (\<lambda>all.
     bind (lift_result (pick_cluster name all)) (\<lambda>resolved.
     bind (Provider_KubeConfig resolved) (\<lambda>kc. ret (resolved, kc))))"

section \<open>delete\<close>

definition knownReleases :: "(string \<times> string) list" where
  "knownReleases =
     [(''sims-nvidia'', ''gpu-operator''), (''sims-amd'', ''gpu-operator''), (''sims-monitoring'', ''monitoring'')]"

definition uninstall_one :: "string \<Rightarrow> string \<Rightarrow> string \<Rightarrow> unit cli" where
  "uninstall_one kc ns release =
     bind (attempt (NewClient kc ns)) (\<lambda>r.
     case r of
       Inl _ \<Rightarrow> ret ()
     | Inr hc \<Rightarrow> seq (attempt (Uninstall hc release)) (seq (attempt (Close hc)) (ret ())))"

fun uninstall_releases :: "string \<Rightarrow> (string \<times> string) list \<Rightarrow> unit cli" where
  "uninstall_releases kc [] = ret ()"
| "uninstall_releases kc ((release, ns) # rs) =
     seq (uninstall_one kc ns release) (uninstall_releases kc rs)"

definition uninstallKnownReleases :: "string \<Rightarrow> unit cli" where
  "uninstallKnownReleases kc = uninstall_releases kc knownReleases"

definition delete_listed :: "string \<Rightarrow> unit cli" where
  "delete_listed name =
     bind (attempt (Provider_KubeConfig name)) (\<lambda>kc.
     seq (case kc of Inr k \<Rightarrow> uninstallKnownReleases k | Inl _ \<Rightarrow> ret ())
    (seq (Provider_Delete name)
    (seq (attempt (perform (Print (ClusterDeleted name)))) (ret ()))))"

definition runDelete :: "string \<Rightarrow> unit cli" where
  "runDelete name =
     bind Provider_List (\<lambda>all.
       if name = [] then
         (case filterSimsClusters all of
            [] \<Rightarrow> ret ()
          | [n] \<Rightarrow> if n \<in> set all then delete_listed n else ret ()
          | sims \<Rightarrow> fail (ManySimsClusters sims))
       else if name \<in> set all then delete_listed name else ret ())"

section \<open>monitoring enable and disable\<close>

definition runMonitoringEnable :: "string \<Rightarrow> unit cli" where
  "runMonitoringEnable name =
     bind (resolveClusterAndKubeconfig name) (\<lambda>(resolved, kc).
     bind (perform (DetectVendor kc)) (\<lambda>vendor.
     seq (installMonitoring kc (as_text vendor))
    (seq (attempt (perform (Print (MonitoringEnabled resolved)))) (ret ()))))"

definition runMonitoringDisable :: "string \<Rightarrow> unit cli" where
  "runMonitoringDisable name =
     bind (resolveClusterAndKubeconfig name) (\<lambda>(resolved, kc).
     with_helm kc monitoringNamespace (\<lambda>hc.
       seq (attempt (Uninstall hc monitoringRelease))
      (seq (perform (DeleteNamespace kc monitoringNamespace))
      (seq (attempt (perform (Print (MonitoringDisabled resolved)))) (ret ())))))"

section \<open>list and status\<close>

fun print_all :: "message list \<Rightarrow> unit cli" where
  "print_all [] = ret ()"
| "print_all (m # ms) = seq (perform (Print m)) (print_all ms)"

definition runList :: "unit cli" where
  "runList =
     bind Provider_List (\<lambda>all.
       let sims = filterSimsClusters all in
       if sims = [] then print_all [Line ''(none)''] else print_all (map Line sims))"

definition node_row :: "NodeSnapshot \<Rightarrow> message" where
  "node_row n = NodeRow (ns_Name n) (ns_Role n)
     (if 0 < ns_GPUCapacity n then itoa (ns_GPUCapacity n) else ''-'')"

definition pod_row :: "PodSnapshot \<Rightarrow> message" where
  "pod_row p = PodRow (ps_Namespace p) (ps_Name p)
     (if ps_Node p = [] then ''<unscheduled>'' else ps_Node p) (ps_GPUs p) (ps_Phase p)"

definition status_messages :: "string \<Rightarrow> ClusterSnapshot \<Rightarrow> message list" where
  "status_messages clusterName snap =
     (let vendor = (if cs_Vendor snap = [] then ''<unknown>'' else cs_Vendor snap);
          gpuResource = (if cs_Vendor snap = [] then ''<unknown>'' else cs_Vendor snap @ ''.com/gpu'') in
      [Line (''Cluster:   '' @ clusterName), Line (''Vendor:    '' @ vendor),
       Line (''K8s:       '' @ cs_K8sVersion snap), Line [], Line ''NODES'',
       Header [''NAME'', ''ROLE'', ''GPU CAPACITY'']] @ map node_row (cs_Nodes snap) @
      [Line [], Line (''GPU PODS ('' @ gpuResource @ '')'')] @
      (if cs_GPUPods snap = [] then [Line ''(none)'']
       else Header [''NAMESPACE'', ''POD'', ''NODE'', ''GPUS'', ''PHASE''] # map pod_row (cs_GPUPods snap)))"

definition empty_snapshot :: ClusterSnapshot where
  "empty_snapshot = \<lparr>cs_Vendor = [], cs_K8sVersion = [], cs_Nodes = [], cs_GPUPods = []\<rparr>"

fun as_snapshot :: "answer \<Rightarrow> ClusterSnapshot" where
  "as_snapshot (Snap s) = s"
| "as_snapshot _ = empty_snapshot"

definition runStatus :: "string \<Rightarrow> unit cli" where
  "runStatus name =
     bind (resolveClusterAndKubeconfig name) (\<lambda>(resolved, kc).
     bind (perform (TakeSnapshot kc)) (\<lambda>snap.
     print_all (status_messages resolved (as_snapshot snap))))"

section \<open>sample\<close>

definition dquote :: "string \<Rightarrow> string" where
  "dquote s = [CHR 0x22] @ s @ [CHR 0x22]"

definition sample_manifest :: "string \<Rightarrow> string \<Rightarrow> string \<Rightarrow> string \<Rightarrow> string list" where
  "sample_manifest name annotation text resource =
     [''apiVersion: v1'',
      ''kind: Pod'',
      ''metadata:'',
      ''  name: '' @ name,
      ''  annotations:'',
      ''    '' @ annotation @ '': '' @ dquote ''30-50'',
      ''spec:'',
      ''  restartPolicy: Never'',
      ''  containers:'',
      ''    - name: payload'',
      ''      image: busybox'',
      ''      command: ['' @ dquote ''sh'' @ '', '' @ dquote ''-c'' @ '', '' @
        dquote (''echo '' @ [CHR 0x27] @ ''sims '' @ text @ '' sample running'' @ [CHR 0x27] @ ''; sleep 3600'') @ '']'',
      ''      resources:'',
      ''        limits:'',
      ''          '' @ resource @ '': 1'']"

definition sampleNVIDIA :: "string list" where
  "sampleNVIDIA = sample_manifest ''sims-nvidia-sample'' ''run.ai/simulated-gpu-utilization'' ''NVIDIA'' ''nvidia.com/gpu''"

definition sampleAMD :: "string list" where
  "sampleAMD = sample_manifest ''sims-amd-sample'' ''sims.io/simulated-gpu-utilization'' ''AMD'' ''amd.com/gpu''"

definition runSample :: "string \<Rightarrow> unit cli" where
  "runSample vendor =
     (case validateVendor vendor of
        Some v \<Rightarrow> fail (InvalidVendorFlag v)
      | None \<Rightarrow>
          if vendor = ''nvidia'' then seq (attempt (perform (Print (Manifest sampleNVIDIA)))) (ret ())
          else if vendor = ''amd'' then seq (attempt (perform (Print (Manifest sampleAMD)))) (ret ())
          else ret ())"

section \<open>doctor\<close>

datatype severity = SevCritical | SevWarn | SevInfo

fun severity_label :: "severity \<Rightarrow> string" where
  "severity_label SevCritical = ''critical''"
| "severity_label SevWarn = ''warn''"
| "severity_label SevInfo = ''info''"

text \<open>A probe returns whether it passed, a hint and a detail; it does not fail itself.\<close>

record check =
  ck_name :: string
  ck_severity :: severity
  ck_run :: "host \<Rightarrow> entry list \<Rightarrow> (cli_error + bool \<times> string \<times> string) \<times> entry list"

fun go_error_text :: "go_error \<Rightarrow> string" where
  "go_error_text NotExist = ''file does not exist''"
| "go_error_text NoProcess = ''no such process''"
| "go_error_text (Err s) = s"

fun list_error_text :: "cli_error \<Rightarrow> string" where
  "list_error_text (CallFailed KindList e) = ''kind list: '' @ go_error_text e"
| "list_error_text (CallFailed _ e) = go_error_text e"
| "list_error_text Cancelled = ''context canceled''"
| "list_error_text _ = []"

definition checkDockerDaemon :: "(bool \<times> string \<times> string) cli" where
  "checkDockerDaemon =
     bind (attempt (perform (RunProcess ''docker'' [''version'', ''--format'', ''{{.Server.Version}}'']))) (\<lambda>r.
       case r of
         Inl _ \<Rightarrow> ret (False, ''start Docker Desktop, or `systemctl start docker` on Linux'', [])
       | Inr out \<Rightarrow> ret (True, [], ''server '' @ trim_space (as_text out)))"

definition checkSimsClusters :: "(bool \<times> string \<times> string) cli" where
  "checkSimsClusters =
     bind (attempt Provider_List) (\<lambda>r.
       case r of
         Inl e \<Rightarrow> ret (False, ''kind not reachable'', list_error_text e)
       | Inr all \<Rightarrow>
           let sims = filterSimsClusters all in
           if sims = [] then ret (True, [], ''(none)'') else ret (True, [], join '', '' sims))"

definition checkGHCR :: "(bool \<times> string \<times> string) cli" where
  "checkGHCR =
     bind (attempt (perform (HttpGet ''https://ghcr.io/v2/''))) (\<lambda>r.
       case r of
         Inl e \<Rightarrow> ret (False, ''check network / proxy; `sims gpu create` pulls fake-gpu-operator from OCI'',
                       list_error_text e)
       | Inr a \<Rightarrow>
           let status = as_number a in
           if status = 200 \<or> status = 401 then ret (True, [], ''HTTP '' @ itoa status)
           else ret (False, ''unexpected status from ghcr.io'', ''HTTP '' @ itoa status))"

definition defaultChecks :: "check list" where
  "defaultChecks =
     [\<lparr>ck_name = ''docker daemon'', ck_severity = SevCritical, ck_run = checkDockerDaemon\<rparr>,
      \<lparr>ck_name = ''sims clusters'', ck_severity = SevInfo, ck_run = checkSimsClusters\<rparr>,
      \<lparr>ck_name = ''ghcr.io reachable'', ck_severity = SevWarn, ck_run = checkGHCR\<rparr>]"

text \<open>The row of a check; the separator is an em dash in UTF-8 between blanks.\<close>

definition check_row :: "check \<Rightarrow> bool \<Rightarrow> string \<Rightarrow> string \<Rightarrow> message" where
  "check_row c ok hint detail =
     CheckRow (ck_name c) (severity_label (ck_severity c))
       (if ck_severity c = SevInfo then ''info'' else if ok then ''ok'' else ''fail'')
       (if \<not> ok \<and> hint \<noteq> [] then
          (if detail \<noteq> [] then detail @ '' '' @ [CHR 0xE2, CHR 0x80, CHR 0x94] @ '' '' else []) @ hint
        else detail)"

fun run_checks :: "check list \<Rightarrow> (message list \<times> bool) cli" where
  "run_checks [] = ret ([], False)"
| "run_checks (c # cs) =
     bind (ck_run c) (\<lambda>(ok, hint, detail).
     bind (run_checks cs) (\<lambda>(rows, criticalFailed).
     ret (check_row c ok hint detail # rows, (\<not> ok \<and> ck_severity c = SevCritical) \<or> criticalFailed)))"

text \<open>The rows are buffered by the tabwriter until all checks have run.\<close>

definition runDoctor :: "unit cli" where
  "runDoctor =
     bind (run_checks defaultChecks) (\<lambda>(rows, criticalFailed).
     seq (print_all (Header [''CHECK'', ''SEVERITY'', ''RESULT'', ''DETAIL''] # rows))
         (if criticalFailed then fail CriticalChecksFailed else ret ()))"

section \<open>Properties\<close>

lemma keeps_option: "keeps R m \<Longrightarrow> (\<And>x. keeps R (f x)) \<Longrightarrow> keeps R (case s of None \<Rightarrow> m | Some x \<Rightarrow> f x)"
  by (cases s) auto

lemma keeps_list:
  "keeps R m \<Longrightarrow> (\<And>x xs. keeps R (f x xs)) \<Longrightarrow> keeps R (case s of [] \<Rightarrow> m | x # xs \<Rightarrow> f x xs)"
  by (cases s) auto

lemma keeps_prod: "(\<And>x y. keeps R (f x y)) \<Longrightarrow> keeps R (case p of (x, y) \<Rightarrow> f x y)"
  by (cases p) auto

lemmas keeps_cases = keeps_control keeps_option keeps_list keeps_prod

text \<open>The calls that only look.\<close>

fun looks :: "call \<Rightarrow> bool" where
  "looks KindList = True"
| "looks (KindKubeConfig _) = True"
| "looks (TakeSnapshot _) = True"
| "looks (Print _) = True"
| "looks (HttpGet _) = True"
| "looks (RunProcess p args) = (p = ''docker'' \<and> args = [''version'', ''--format'', ''{{.Server.Version}}''])"
| "looks _ = False"

lemmas looking_intros =
  calls_in.keeps_basic [where C = looks] calls_in.keeps_perform [where C = looks] keeps_cases

abbreviation looking :: "'a cli \<Rightarrow> bool" where
  "looking m \<equiv> keeps (adds_only (\<lambda>e. looks (fst e))) m"

lemma looking_print_all: "looking (print_all ms)"
  by (induction ms) (simp_all add: looking_intros)

lemma looking_resolve: "looking (resolveClusterAndKubeconfig name)"
  unfolding resolveClusterAndKubeconfig_def lift_result_def provider_defs
  by (intro looking_intros; simp)

lemma looking_status: "looking (runStatus name)"
  unfolding runStatus_def
  by (intro looking_intros looking_resolve looking_print_all; simp)

lemma looking_list: "looking runList"
  unfolding runList_def provider_defs by (intro looking_intros looking_print_all; simp)

lemma looking_checks: "\<forall>c \<in> set cs. looking (ck_run c) \<Longrightarrow> looking (run_checks cs)"
  by (induction cs) (auto intro!: looking_intros)

lemma looking_probes: "looking checkDockerDaemon" "looking checkSimsClusters" "looking checkGHCR"
  unfolding checkDockerDaemon_def checkSimsClusters_def checkGHCR_def provider_defs
  by (intro looking_intros; simp)+

lemma looking_doctor: "looking runDoctor"
  unfolding runDoctor_def
  by (intro looking_intros looking_checks looking_print_all) (auto simp: defaultChecks_def looking_probes)

text \<open>
  The inspecting commands (\<open>list\<close>, \<open>status\<close>, \<open>doctor\<close>) change nothing: whatever the host answers, every
  call they make is a listing, a kubeconfig read, a snapshot, the docker version query, an HTTP GET or output.
\<close>
lemma inspection_changes_nothing:
  "list_all (\<lambda>e. looks (fst e)) (snd (runList h []) @ snd (runStatus name h []) @ snd (runDoctor h []))"
  using looking_list looking_status [of name] looking_doctor
  by (auto simp: list_all_iff dest: adds_only_start)

text \<open>The clusters that \<open>delete\<close> may remove, given the listed ones.\<close>

definition chosen :: "string \<Rightarrow> string list \<Rightarrow> string set" where
  "chosen name all =
     (if name = [] then (case filterSimsClusters all of [n] \<Rightarrow> {n} | _ \<Rightarrow> {})
      else if name \<in> set all then {name} else {})"

lemma filterSims_mem: "filterSimsClusters all = n # ns \<Longrightarrow> n \<in> set all"
  unfolding filterSimsClusters_def by (metis filter_eq_ConsD in_set_conv_decomp)

text \<open>After a successful listing \<open>delete\<close> acts on the chosen cluster, if there is one.\<close>

lemma runDelete_cases:
  assumes "\<not> h_cancelled h []" "h_reply h [] KindList = Inr ans"
  shows "(\<exists>n. chosen name (as_names ans) = {n} \<and>
            runDelete name h [] = delete_listed n h [(KindList, Inr ans)]) \<or>
         (chosen name (as_names ans) = {} \<and> snd (runDelete name h []) = [(KindList, Inr ans)])"
  using assms filterSims_mem
  by (auto simp: runDelete_def chosen_def Provider_List_def cli_defs split: list.split)

lemma runDelete_no_listing:
  assumes "h_cancelled h [] \<or> (\<exists>e. h_reply h [] KindList = Inl e)"
  shows "set (snd (runDelete name h [])) \<subseteq> {(KindList, a) | a. True}"
  using assms by (auto simp: runDelete_def Provider_List_def cli_defs)

lemmas sparing_intros =
  calls_in.keeps_basic [where C = "\<lambda>c. \<forall>m. c = KindDelete m \<longrightarrow> m = n" for n]
  calls_in.keeps_perform [where C = "\<lambda>c. \<forall>m. c = KindDelete m \<longrightarrow> m = n" for n] keeps_cases

abbreviation sparing :: "string \<Rightarrow> 'a cli \<Rightarrow> bool" where
  "sparing n m \<equiv> keeps (adds_only (\<lambda>e. \<forall>m. fst e = KindDelete m \<longrightarrow> m = n)) m"

lemma sparing_helm:
  "sparing n (NewClient kc ns)" "sparing n (Uninstall c rel)"
  unfolding NewClient_def remove_and_fail_def Uninstall_def actionConfig_def
  by (intro sparing_intros; simp)+

lemma sparing_Close: "sparing n (Close c)"
  by (auto simp: keeps_def adds_only_def Close_def cli_defs Let_def
      split: sum.splits cli_error.splits go_error.splits)

lemma sparing_uninstall: "sparing n (uninstall_releases kc rs)"
proof (induction kc rs rule: uninstall_releases.induct)
  case (2 kc release ns rs)
  show ?case
    unfolding uninstall_releases.simps uninstall_one_def
    by (intro sparing_intros sparing_helm sparing_Close 2)
qed (simp add: sparing_intros)

lemma sparing_delete: "sparing n (delete_listed n)"
  unfolding delete_listed_def uninstallKnownReleases_def provider_defs
  by (intro sparing_intros sparing_uninstall; simp)

text \<open>
  C15. \<open>sims gpu delete\<close> never deletes a cluster it was not asked to delete: whatever the host answers, the
  only cluster whose deletion is requested is the named one when kind lists it or, without a name, the only
  listed cluster with the prefix of the tool; when the listing fails no deletion is requested.
\<close>
theorem delete_only_chosen:
  "{n. \<exists>a. (KindDelete n, a) \<in> set (snd (runDelete name h []))} \<subseteq>
     (case (h_cancelled h [], h_reply h [] KindList) of
        (False, Inr ans) \<Rightarrow> chosen name (as_names ans)
      | _ \<Rightarrow> {})"
proof (cases "h_cancelled h [] \<or> (\<exists>e. h_reply h [] KindList = Inl e)")
  case True
  then show ?thesis using runDelete_no_listing [OF True, of name] by auto
next
  case False
  then obtain ans where ok: "\<not> h_cancelled h []" "h_reply h [] KindList = Inr ans"
    by (metis obj_sumE)
  from runDelete_cases [OF this, of name] show ?thesis
  proof
    assume "\<exists>n. chosen name (as_names ans) = {n} \<and> runDelete name h [] = delete_listed n h [(KindList, Inr ans)]"
    then obtain n where n: "chosen name (as_names ans) = {n}"
      "runDelete name h [] = delete_listed n h [(KindList, Inr ans)]" by blast
    then obtain es where "snd (runDelete name h []) = [(KindList, Inr ans)] @ es"
      "\<forall>e \<in> set es. \<forall>m. fst e = KindDelete m \<longrightarrow> m = n"
      using sparing_delete [of n] unfolding keeps_def adds_only_def by metis
    then show ?thesis using ok n(1) by fastforce
  qed (use ok in auto)
qed

lemma steady_uninstall: "steady (uninstall_releases kc rs)"
proof (induction kc rs rule: uninstall_releases.induct)
  case (2 kc release ns rs)
  show ?case
    unfolding uninstall_releases.simps uninstall_one_def
    by (intro steady_bind steady_attempt steady_sum steady_ret 2)
qed (simp add: steady_ret)

text \<open>
  C27. The helm cleanup of \<open>sims gpu delete\<close> is best effort: unless the context is cancelled, when kind lists
  the chosen cluster its deletion is requested however the kubeconfig and helm calls fail, and the command
  succeeds exactly when kind deletes the cluster.
\<close>
theorem delete_survives_helm:
  assumes "\<And>l. \<not> h_cancelled h l"
    and "h_reply h [] KindList = Inr ans"
    and "n \<in> chosen name (as_names ans)"
  shows "\<exists>l. (KindDelete n, h_reply h l (KindDelete n)) \<in> set (snd (runDelete name h [])) \<and>
     ((\<exists>u. fst (runDelete name h []) = Inr u) \<longleftrightarrow> (\<exists>a. h_reply h l (KindDelete n) = Inr a))"
proof -
  have run: "runDelete name h [] = delete_listed n h [(KindList, Inr ans)]"
    using runDelete_cases [OF assms(1,2), of name] assms(3) by (metis empty_iff singletonD)
  obtain k l1 where k: "attempt (Provider_KubeConfig n) h [(KindList, Inr ans)] = (Inr k, l1)"
    using steady_attempt unfolding steady_def by blast
  obtain l2 where u: "(case k of Inr k \<Rightarrow> uninstallKnownReleases k | Inl _ \<Rightarrow> ret ()) h l1 = (Inr (), l2)"
    using steady_sum [of "\<lambda>_. ret ()" uninstallKnownReleases k, OF steady_ret]
      steady_uninstall [of _ knownReleases] unfolding steady_def uninstallKnownReleases_def by force
  have "runDelete name h [] =
      seq (Provider_Delete n) (seq (attempt (perform (Print (ClusterDeleted n)))) (ret ())) h l2"
    unfolding run delete_listed_def by (simp add: bind_def k u)
  then show ?thesis
    using assms(1) by (intro exI [of _ l2]) (auto simp: Provider_Delete_def cli_defs split: sum.splits)
qed

definition stubborn_host :: host where
  "stubborn_host =
     \<lparr>h_reply = (\<lambda>l c. case c of KindList \<Rightarrow> Inr (Names [''kind'', ''sims-amd'']) | KindDelete _ \<Rightarrow> Inr Done
                 | _ \<Rightarrow> Inl (Err ''unavailable'')),
      h_cancelled = (\<lambda>_. False), h_env = (\<lambda>_. []), h_goos = ''linux''\<rparr>"

theorem delete_survives_helm_witness:
  "\<exists>u. fst (runDelete [] stubborn_host []) = Inr u"
proof -
  have "''sims-amd'' \<in> chosen [] (as_names (Names [''kind'', ''sims-amd'']))"
    by (simp add: chosen_def filterSimsClusters_def simsClusterPrefix_def)
  then show ?thesis
    using delete_survives_helm [of stubborn_host "Names [''kind'', ''sims-amd'']" "''sims-amd''" "[]"]
    by (auto simp: stubborn_host_def)
qed

end
