(* ===== verification/Cli_Dashboard.thy ===== *)
theory Cli_Dashboard
  imports Cli_Manage
begin

text \<open>
  \<open>sims gpu dashboard\<close> (\<open>pkg/cli/gpu_dashboard.go\<close>): a detached port-forward whose process id is kept in a
  file, read back to avoid a second one and to stop it. The last section ranges over all commands.
\<close>

definition grafanaService :: string where "grafanaService = ''sims-monitoring-grafana''"
definition grafanaLocalPort :: int where "grafanaLocalPort = 3000"
definition grafanaRemotePort :: int where "grafanaRemotePort = 80"
definition grafanaURL :: string where "grafanaURL = ''http://localhost:3000''"
definition sigterm :: int where "sigterm = 15"

record dashboardOpts =
  db_name :: string
  db_open :: bool
  db_stop :: bool

definition resolveClusterName :: "string \<Rightarrow> string cli" where
  "resolveClusterName name =
     bind Provider_List (\<lambda>all.
       if name = [] then
         (case filterSimsClusters all of
            [] \<Rightarrow> fail NoSimsCluster
          | [n] \<Rightarrow> ret n
          | sims \<Rightarrow> fail (ManySimsClusters sims))
       else if name \<in> set all then ret name else fail (ClusterNotFound name))"

definition grafanaPIDPath :: "string \<Rightarrow> string cli" where
  "grafanaPIDPath clusterName =
     bind (perform UserCacheDir) (\<lambda>cache.
       let dir = path_join [as_text cache, ''sims'', clusterName] in
       seq (perform (MkdirAll dir)) (ret (path_join [dir, ''grafana.pid''])))"

definition stored_pid :: "answer \<Rightarrow> int option" where
  "stored_pid data =
     (case atoi (trim_space (as_text data)) of
        Inl _ \<Rightarrow> None
      | Inr pid \<Rightarrow> if pid \<le> 0 then None else Some pid)"

definition readRunningPID :: "string \<Rightarrow> (int \<times> bool) cli" where
  "readRunningPID path =
     bind (attempt (perform (ReadFile path))) (\<lambda>data.
     case data of
       Inl _ \<Rightarrow> ret (0, False)
     | Inr d \<Rightarrow>
         (case stored_pid d of
            None \<Rightarrow> ret (0, False)
          | Some pid \<Rightarrow>
              bind (attempt (perform (Signal pid 0))) (\<lambda>k.
              case k of Inl _ \<Rightarrow> ret (pid, False) | Inr _ \<Rightarrow> ret (pid, True))))"

definition startForward :: "string \<Rightarrow> string \<Rightarrow> int cli" where
  "startForward clusterName pidPath =
     bind (perform (StartProcess ''kubectl''
       [''--context'', ''kind-'' @ clusterName, ''port-forward'', ''-n'', monitoringNamespace,
        ''svc/'' @ grafanaService, itoa grafanaLocalPort @ '':'' @ itoa grafanaRemotePort])) (\<lambda>p.
       let pid = as_number p in
       seq (perform (ReleaseProcess pid))
      (seq (perform (WriteFile pidPath (itoa pid)))
           (ret pid)))"

definition remove_and_report :: "string \<Rightarrow> message \<Rightarrow> unit cli" where
  "remove_and_report path m =
     seq (attempt (perform (RemoveFile path))) (seq (attempt (perform (Print m))) (ret ()))"

definition stopForward :: "string \<Rightarrow> unit cli" where
  "stopForward pidPath =
     bind (attempt (perform (ReadFile pidPath))) (\<lambda>data.
     case data of
       Inl (CallFailed _ NotExist) \<Rightarrow> seq (attempt (perform (Print NothingToStop))) (ret ())
     | Inl e \<Rightarrow> fail e
     | Inr d \<Rightarrow>
         (case stored_pid d of
            None \<Rightarrow> remove_and_report pidPath UnusablePID
          | Some pid \<Rightarrow>
              bind (attempt (perform (Signal pid sigterm))) (\<lambda>k.
              case k of
                Inl (CallFailed _ NoProcess) \<Rightarrow> remove_and_report pidPath (GrafanaStopped pid)
              | Inl e \<Rightarrow> fail e
              | Inr _ \<Rightarrow> remove_and_report pidPath (GrafanaStopped pid))))"

definition start_browser :: "string \<Rightarrow> string \<Rightarrow> unit cli" where
  "start_browser command url =
     bind (perform (StartProcess command [url])) (\<lambda>p.
     seq (perform (ReleaseProcess (as_number p))) (ret ()))"

definition openBrowser :: "string \<Rightarrow> unit cli" where
  "openBrowser url = (\<lambda>h l.
     (if h_goos h = ''darwin'' then start_browser ''open'' url
      else if h_goos h = ''linux'' then start_browser ''xdg-open'' url
      else fail (BrowserUnsupported (h_goos h))) h l)"

definition runDashboard :: "dashboardOpts \<Rightarrow> unit cli" where
  "runDashboard opts =
     bind (resolveClusterName (db_name opts)) (\<lambda>resolved.
     bind (grafanaPIDPath resolved) (\<lambda>pidPath.
       if db_stop opts then stopForward pidPath
       else bind (readRunningPID pidPath) (\<lambda>(pid, running).
         if running then
           seq (attempt (perform (Print (GrafanaRunning pid))))
               (if db_open opts then openBrowser grafanaURL else ret ())
         else
           bind (startForward resolved pidPath) (\<lambda>startedPID.
           seq (attempt (perform (Print (GrafanaAvailable startedPID))))
               (if db_open opts then openBrowser grafanaURL else ret ())))))"

section \<open>The process id file\<close>

text \<open>What a file holds according to the log: the data last written, none after a removal.\<close>

fun file_step :: "string \<Rightarrow> string option \<Rightarrow> entry \<Rightarrow> string option" where
  "file_step p d (WriteFile q data, Inr _) = (if q = p then Some data else d)"
| "file_step p d (RemoveFile q, Inr _) = (if q = p then None else d)"
| "file_step p d _ = d"

definition file_data :: "string \<Rightarrow> entry list \<Rightarrow> string option" where
  "file_data p l = foldl (file_step p) None l"

text \<open>A host whose files keep what is written to them.\<close>

definition faithful_files :: "host \<Rightarrow> bool" where
  "faithful_files h \<longleftrightarrow> (\<forall>l p d. file_data p l = Some d \<longrightarrow> h_reply h l (ReadFile p) = Inr (Text d))"

lemma visible_itoa: "0 \<le> n \<Longrightarrow> \<forall>c \<in> set (itoa n). visible c"
  using nat_digits_digits visible_digit by (simp add: itoa_def)

lemma stored_pid_itoa: "0 < n \<Longrightarrow> in_i64 n \<Longrightarrow> stored_pid (Text (itoa n)) = Some n"
  using trim_space_visible [OF visible_itoa [of n]] by (simp add: stored_pid_def)

lemma startForward_data:
  assumes "startForward c p h l = (Inr pid, l1)"
  shows "file_data p l1 = Some (itoa pid)"
  using assms unfolding startForward_def Let_def
  by (elim bind_InrE perform_InrE) (simp add: file_data_def)

lemma startForward_stored:
  "startForward c p h l = (Inr pid, l1) \<Longrightarrow> faithful_files h \<Longrightarrow>
     h_reply h l1 (ReadFile p) = Inr (Text (itoa pid))"
  using startForward_data faithful_files_def by blast

definition signals :: "entry list \<Rightarrow> (int \<times> int) list" where
  "signals l = concat (map (\<lambda>e. case fst e of Signal p s \<Rightarrow> [(p, s)] | _ \<Rightarrow> []) l)"

lemma signals_simps [simp]: "signals [] = []" "signals (l @ es) = signals l @ signals es"
  "signals (e # es) = (case fst e of Signal p s \<Rightarrow> [(p, s)] | _ \<Rightarrow> []) @ signals es"
  by (simp_all add: signals_def)

lemma remove_and_report_log:
  "\<exists>a b. remove_and_report p m h l = (Inr (), l @ [(RemoveFile p, a), (Print m, b)])"
  by (auto simp: remove_and_report_def cli_defs split: sum.split)


definition keeping_host :: host where
  "keeping_host =
     \<lparr>h_reply = (\<lambda>l c. case c of
          ReadFile p \<Rightarrow> (case file_data p l of Some d \<Rightarrow> Inr (Text d) | None \<Rightarrow> Inl NotExist)
        | StartProcess _ _ \<Rightarrow> Inr (Number 4242)
        | _ \<Rightarrow> Inr Done),
      h_cancelled = (\<lambda>_. False), h_env = (\<lambda>_. []), h_goos = ''linux''\<rparr>"


section \<open>All commands\<close>

datatype command =
    CreateCmd createOpts
  | DeleteCmd string
  | EnableCmd string
  | DisableCmd string
  | ListCmd
  | StatusCmd string
  | SampleCmd string
  | DoctorCmd
  | DashboardCmd dashboardOpts

fun run_command :: "(string \<Rightarrow> config_error + SimsConfig) \<Rightarrow> (string \<Rightarrow> bool) \<Rightarrow> command \<Rightarrow> unit cli" where
  "run_command load changed (CreateCmd opts) = create_command load changed opts"
| "run_command load changed (DeleteCmd name) = runDelete name"
| "run_command load changed (EnableCmd name) = runMonitoringEnable name"
| "run_command load changed (DisableCmd name) = runMonitoringDisable name"
| "run_command load changed ListCmd = runList"
| "run_command load changed (StatusCmd name) = runStatus name"
| "run_command load changed (SampleCmd vendor) = runSample vendor"
| "run_command load changed DoctorCmd = runDoctor"
| "run_command load changed (DashboardCmd opts) = runDashboard opts"

lemmas tidy_intros = temp_intros keeps_cases provider_tidy helm_tidy with_helm_tidy

lemma looking_tidy: "looking m \<Longrightarrow> keeps tidy m"
proof (unfold keeps_def adds_only_def, intro allI)
  fix h l
  assume "\<forall>h l. \<exists>es. snd (m h l) = l @ es \<and> (\<forall>e \<in> set es. looks (fst e))"
  then obtain es where es: "snd (m h l) = l @ es" "\<forall>e \<in> set es. looks (fst e)" by blast
  from es(2) have "tidy l (l @ es)"
  proof (induction es rule: rev_induct)
    case (snoc e es)
    moreover have "tidy (l @ es) ((l @ es) @ [(fst e, snd e)])"
      using snoc.prems by (intro temp.step_R) auto
    ultimately show ?case using temp.trans_R by auto
  qed (simp add: tidy_def)
  then show "tidy l (snd (m h l))" using es by simp
qed

lemma installMonitoring_tidy: "keeps tidy (installMonitoring kc v)"
  unfolding installMonitoring_def resolve_chart_def by (intro tidy_intros; simp)

lemma create_tidy: "keeps tidy (create_command load changed opts)"
  unfolding create_command_def runCreate_def create_release_def resolve_chart_def
  by (intro tidy_intros installMonitoring_tidy; simp)

text \<open>One round of the cleanup makes the calls of a client in scope.\<close>

lemma uninstall_one_log:
  "snd (uninstall_one kc ns rel h l) = snd (with_helm kc ns (\<lambda>hc. Uninstall hc rel) h l)"
  by (auto simp: uninstall_one_def with_helm_def bind_def attempt_def deferred_def ret_def
      split: prod.split sum.split)

lemma uninstall_one_tidy: "keeps tidy (uninstall_one kc ns rel)"
  using with_helm_tidy [of "\<lambda>hc. Uninstall hc rel" kc ns] helm_tidy(3)
  by (simp add: keeps_def uninstall_one_log)

lemma uninstall_tidy: "keeps tidy (uninstall_releases kc rs)"
  by (induction kc rs rule: uninstall_releases.induct) (simp_all add: temp_intros uninstall_one_tidy)

lemma delete_tidy: "keeps tidy (runDelete name)"
  unfolding runDelete_def delete_listed_def uninstallKnownReleases_def
  by (intro tidy_intros uninstall_tidy; simp)

lemma resolve_tidy: "keeps tidy (resolveClusterAndKubeconfig name)"
  using looking_resolve looking_tidy by blast

lemma monitoring_tidy: "keeps tidy (runMonitoringEnable name)" "keeps tidy (runMonitoringDisable name)"
  unfolding runMonitoringEnable_def runMonitoringDisable_def
  by (intro tidy_intros resolve_tidy installMonitoring_tidy; simp)+

lemma sample_tidy: "keeps tidy (runSample vendor)"
  unfolding runSample_def by (intro tidy_intros; simp)

lemma openBrowser_tidy: "keeps tidy (openBrowser url)"
proof -
  have "keeps tidy (start_browser c url)" "keeps tidy (fail e :: unit cli)" for c e
    unfolding start_browser_def by (intro tidy_intros; simp)+
  then show ?thesis by (auto simp: keeps_def openBrowser_def)
qed

lemma stopForward_tidy: "keeps tidy (stopForward p)"
  unfolding stopForward_def remove_and_report_def
  by (auto intro!: tidy_intros split: sum.split option.split cli_error.split go_error.split)

lemma dashboard_tidy: "keeps tidy (runDashboard opts)"
  unfolding runDashboard_def resolveClusterName_def grafanaPIDPath_def readRunningPID_def startForward_def
  by (intro tidy_intros openBrowser_tidy stopForward_tidy; simp)

text \<open>
  No command leaves credentials behind: for every command, options and SimsConfig loader, and whatever the
  host answers on the way, the removal of every temporary file that was created (they hold the kubeconfig
  of the cluster) has been requested when the command returns.
\<close>
lemma commands_leave_no_credentials:
  "temps (snd (run_command load changed cmd h [])) = {}"
proof -
  have "keeps tidy (run_command load changed cmd)"
    using create_tidy delete_tidy monitoring_tidy sample_tidy dashboard_tidy
      looking_tidy [OF looking_list] looking_tidy [OF looking_status] looking_tidy [OF looking_doctor]
    by (cases cmd) simp_all
  then have "temps (snd (run_command load changed cmd h [])) \<subseteq> temps []"
    unfolding keeps_def tidy_def by blast
  then show ?thesis by simp
qed

end
