(* ===== verification/Cli_Main.thy ===== *)
theory Cli_Main
  imports Cli_Dashboard Processes
begin

text \<open>
  The command tree of the tool and its \<open>main\<close> (\<open>pkg/cli/root.go\<close>, \<open>pkg/cli/gpu.go\<close>, the constructors
  \<open>new...Cmd\<close> of the commands, \<open>cmd/sims/main.go\<close>). Cobra, which finds the command a command line names
  and parses its flags, is the parameter \<open>cobra\<close>: what it answers is a value of \<open>invocation\<close>, and nothing is
  assumed of it. The last section says which calls the program may make for which command line.
\<close>

section \<open>The command tree\<close>

text \<open>\<open>runE\<close> reads the variables the flags are bound to; a command without one only groups others.\<close>

datatype cmd = Cmd
  (use: string)
  (declared: flags)
  (required: "string list")
  (runE: "(flags \<Rightarrow> command) option")
  (subcommands: "cmd list")

definition create_flags :: flags where
  "create_flags =
     [(''config'', FlagString []), (''vendor'', FlagString []), (''name'', FlagString []), (''workers'', FlagInt 2),
      (''gpus-per-worker'', FlagInt 2), (''k8s-version'', FlagString ''v1.31.0''), (''monitoring'', FlagBool False),
      (''taint'', FlagBool False)]"

text \<open>The fields of \<open>createOpts\<close> without a flag are zero until \<open>applyConfig\<close> sets them.\<close>

definition create_opts :: "flags \<Rightarrow> createOpts" where
  "create_opts vals =
     \<lparr>co_vendor = flag_string vals ''vendor'', co_name = flag_string vals ''name'',
      co_workers = flag_int vals ''workers'', co_gpusPerWorker = flag_int vals ''gpus-per-worker'',
      co_k8sVersion = flag_string vals ''k8s-version'', co_withMonitoring = flag_bool vals ''monitoring'',
      co_taint = flag_bool vals ''taint'', co_configPath = flag_string vals ''config'', co_productName = [],
      co_gpuMemoryBytes = 0, co_migProfile = [], co_partitionMode = [], co_partitionCount = 0,
      co_defaultUtilization = []\<rparr>"

definition newGPUCreateCmd :: cmd where
  "newGPUCreateCmd = Cmd ''create'' create_flags [] (Some (\<lambda>vals. CreateCmd (create_opts vals))) []"

definition name_flag :: flags where
  "name_flag = [(''name'', FlagString [])]"

definition newGPUDeleteCmd :: cmd where
  "newGPUDeleteCmd = Cmd ''delete'' name_flag [] (Some (\<lambda>vals. DeleteCmd (flag_string vals ''name''))) []"

definition newGPUListCmd :: cmd where
  "newGPUListCmd = Cmd ''list'' [] [] (Some (\<lambda>_. ListCmd)) []"

definition newGPUStatusCmd :: cmd where
  "newGPUStatusCmd = Cmd ''status'' name_flag [] (Some (\<lambda>vals. StatusCmd (flag_string vals ''name''))) []"

definition dashboard_opts :: "flags \<Rightarrow> dashboardOpts" where
  "dashboard_opts vals =
     \<lparr>db_name = flag_string vals ''name'', db_open = flag_bool vals ''open'', db_stop = flag_bool vals ''stop''\<rparr>"

definition newGPUDashboardCmd :: cmd where
  "newGPUDashboardCmd =
     Cmd ''dashboard'' (name_flag @ [(''open'', FlagBool False), (''stop'', FlagBool False)]) []
       (Some (\<lambda>vals. DashboardCmd (dashboard_opts vals))) []"

definition newGPUSampleCmd :: cmd where
  "newGPUSampleCmd =
     Cmd ''sample'' [(''vendor'', FlagString [])] [''vendor''] (Some (\<lambda>vals. SampleCmd (flag_string vals ''vendor''))) []"

definition newMonitoringEnableCmd :: cmd where
  "newMonitoringEnableCmd = Cmd ''enable'' name_flag [] (Some (\<lambda>vals. EnableCmd (flag_string vals ''name''))) []"

definition newMonitoringDisableCmd :: cmd where
  "newMonitoringDisableCmd = Cmd ''disable'' name_flag [] (Some (\<lambda>vals. DisableCmd (flag_string vals ''name''))) []"

definition newGPUMonitoringCmd :: cmd where
  "newGPUMonitoringCmd = Cmd ''monitoring'' [] [] None [newMonitoringEnableCmd, newMonitoringDisableCmd]"

definition newGPUDoctorCmd :: cmd where
  "newGPUDoctorCmd = Cmd ''doctor'' [] [] (Some (\<lambda>_. DoctorCmd)) []"

definition newGPUCmd :: cmd where
  "newGPUCmd =
     Cmd ''gpu'' [] [] None
       [newGPUCreateCmd, newGPUDeleteCmd, newGPUListCmd, newGPUStatusCmd, newGPUDashboardCmd,
        newGPUSampleCmd, newGPUMonitoringCmd, newGPUDoctorCmd]"

definition NewRootCmd :: cmd where
  "NewRootCmd = Cmd ''sims'' [] [] None [newGPUCmd]"

lemmas command_defs = newGPUCreateCmd_def newGPUDeleteCmd_def newGPUListCmd_def newGPUStatusCmd_def
  newGPUDashboardCmd_def newGPUSampleCmd_def newMonitoringEnableCmd_def newMonitoringDisableCmd_def
  newGPUMonitoringCmd_def newGPUDoctorCmd_def newGPUCmd_def NewRootCmd_def

fun find_cmd :: "cmd \<Rightarrow> string list \<Rightarrow> cmd option" where
  "find_cmd c [] = Some c"
| "find_cmd c (w # ws) =
     (case find (\<lambda>s. use s = w) (subcommands c) of None \<Rightarrow> None | Some s \<Rightarrow> find_cmd s ws)"

section \<open>Execution\<close>

text \<open>
  Cobra refuses a command line, answers it by itself (help, version), or names a command by the words that
  lead to it, with the values of its flags and whether each was given.
\<close>

datatype invocation = BadUsage string | Answered | Invoked "string list" flags "string \<Rightarrow> bool"

datatype exec_error = UsageRefused string | CommandFailed cli_error

type_synonym cobra = "cmd \<Rightarrow> string list \<Rightarrow> invocation"

definition invoked_command :: "string list \<Rightarrow> flags \<Rightarrow> command option" where
  "invoked_command path vals =
     (case find_cmd NewRootCmd path of
        None \<Rightarrow> None
      | Some c \<Rightarrow> (case runE c of None \<Rightarrow> None | Some f \<Rightarrow> Some (f vals)))"

definition Execute ::
  "cobra \<Rightarrow> (string \<Rightarrow> config_error + SimsConfig) \<Rightarrow> string list \<Rightarrow> host \<Rightarrow> exec_error option \<times> entry list" where
  "Execute cobra load args h =
     (case cobra NewRootCmd args of
        BadUsage msg \<Rightarrow> (Some (UsageRefused msg), [])
      | Answered \<Rightarrow> (None, [])
      | Invoked path vals changed \<Rightarrow>
          (case invoked_command path vals of
             None \<Rightarrow> (None, [])
           | Some c \<Rightarrow>
               (case run_command load changed c h [] of
                  (Inl e, l) \<Rightarrow> (Some (CommandFailed e), l)
                | (Inr _, l) \<Rightarrow> (None, l))))"

text \<open>The exit status, the error printed on standard error, and the calls.\<close>

definition sims_main ::
  "cobra \<Rightarrow> (string \<Rightarrow> config_error + SimsConfig) \<Rightarrow> string list \<Rightarrow> host \<Rightarrow> nat \<times> exec_error option \<times> entry list" where
  "sims_main cobra load args h =
     (case Execute cobra load args h of
        (None, l) \<Rightarrow> (0, None, l)
      | (Some e, l) \<Rightarrow> (1, Some e, l))"

text \<open>The values before any flag is given are those the library of options starts from.\<close>

lemma create_opts_default: "create_opts create_flags = default_opts"
  by (simp add: create_opts_def create_flags_def default_opts_def flag_getters)

text \<open>No two commands of a group, and no two flags of a command, have the same name.\<close>

fun cmds :: "nat \<Rightarrow> cmd \<Rightarrow> cmd list" where
  "cmds 0 c = [c]"
| "cmds (Suc n) c = c # concat (map (cmds n) (subcommands c))"

lemma command_names_distinct:
  "list_all (\<lambda>c. distinct (map use (subcommands c)) \<and> distinct (map fst (declared c)) \<and>
     set (required c) \<subseteq> set (map fst (declared c))) (cmds 3 NewRootCmd)"
  by (simp add: command_defs name_flag_def create_flags_def numeral_3_eq_3)

section \<open>Which calls a command may make\<close>

abbreviation confined :: "(call \<Rightarrow> bool) \<Rightarrow> 'a cli \<Rightarrow> bool" where
  "confined C m \<equiv> keeps (adds_only (\<lambda>e. C (fst e))) m"

lemma confined_mono: "confined C m \<Longrightarrow> (\<And>c. C c \<Longrightarrow> D c) \<Longrightarrow> confined D m"
  unfolding keeps_def adds_only_def by meson

text \<open>The calls of a helm client that change nothing in the cluster.\<close>

fun helm_calls :: "call \<Rightarrow> bool" where
  "helm_calls CreateTemp = True"
| "helm_calls (WriteTemp _ _) = True"
| "helm_calls (CloseTemp _) = True"
| "helm_calls (RemoveFile _) = True"
| "helm_calls RegistryClient = True"
| "helm_calls (ActionInit _ _ _) = True"
| "helm_calls (LocateChart _) = True"
| "helm_calls (LoadChart _) = True"
| "helm_calls (BuildDependencies _) = True"
| "helm_calls _ = False"

definition reads_cluster :: "call \<Rightarrow> bool" where
  "reads_cluster c = (case c of KindList \<Rightarrow> True | KindKubeConfig _ \<Rightarrow> True | Print _ \<Rightarrow> True | _ \<Rightarrow> False)"

definition installs :: "call \<Rightarrow> bool" where
  "installs c \<longleftrightarrow> helm_calls c \<or> reads_cluster c \<or>
     (case c of RunInstall _ _ _ _ _ \<Rightarrow> True | EnsureNamespace _ _ _ \<Rightarrow> True | WaitCapacity _ _ _ _ \<Rightarrow> True
      | WaitDeployment _ _ _ \<Rightarrow> True | DetectVendor _ \<Rightarrow> True | _ \<Rightarrow> False)"

definition creates :: "call \<Rightarrow> bool" where
  "creates c \<longleftrightarrow> installs c \<or> (case c of KindCreate _ _ \<Rightarrow> True | _ \<Rightarrow> False)"

definition uninstalls :: "call \<Rightarrow> bool" where
  "uninstalls c \<longleftrightarrow> helm_calls c \<or> reads_cluster c \<or> (case c of RunUninstall _ \<Rightarrow> True | _ \<Rightarrow> False)"

definition forwards :: "call \<Rightarrow> bool" where
  "forwards c \<longleftrightarrow> reads_cluster c \<or>
     (case c of UserCacheDir \<Rightarrow> True | MkdirAll _ \<Rightarrow> True | ReadFile _ \<Rightarrow> True | WriteFile _ _ \<Rightarrow> True
      | RemoveFile _ \<Rightarrow> True | StartProcess _ _ \<Rightarrow> True | ReleaseProcess _ \<Rightarrow> True | Signal _ _ \<Rightarrow> True | _ \<Rightarrow> False)"

definition permitted :: "string list \<Rightarrow> call \<Rightarrow> bool" where
  "permitted path c \<longleftrightarrow>
     (if path = [''gpu'', ''create''] then creates c
      else if path = [''gpu'', ''delete''] then uninstalls c \<or> (\<exists>n. c = KindDelete n)
      else if path = [''gpu'', ''monitoring'', ''enable''] then installs c
      else if path = [''gpu'', ''monitoring'', ''disable''] then uninstalls c \<or> (\<exists>kc. c = DeleteNamespace kc monitoringNamespace)
      else if path = [''gpu'', ''dashboard''] then forwards c
      else if path = [''gpu'', ''sample''] then (\<exists>m. c = Print m)
      else looks c)"

lemmas permission_defs = creates_def installs_def uninstalls_def reads_cluster_def forwards_def

lemmas helm_intros =
  calls_in.keeps_basic [where C = helm_calls] calls_in.keeps_perform [where C = helm_calls] keeps_cases

lemma confined_helm:
  "confined helm_calls (NewClient kc ns)" "confined helm_calls (EnsureDependencies c p)" "confined helm_calls (actionConfig c)"
  "confined helm_calls (locateAndLoad r)"
  unfolding NewClient_def remove_and_fail_def EnsureDependencies_def actionConfig_def locateAndLoad_def
  by (intro helm_intros; simp)+

lemma confined_Close: "confined helm_calls (Close c)"
  by (auto simp: keeps_def adds_only_def Close_def cli_defs Let_def
      split: sum.splits cli_error.splits go_error.splits)

lemma helm_confined:
  assumes "\<And>c. helm_calls c \<Longrightarrow> C c"
  shows "confined C (NewClient kc ns)" "confined C (EnsureDependencies hc p)" "confined C (actionConfig hc)"
    "confined C (locateAndLoad r)" "confined C (Close hc)"
  by (rule confined_mono [OF confined_helm(1) assms], assumption)
    (rule confined_mono [OF confined_helm(2) assms], assumption,
     rule confined_mono [OF confined_helm(3) assms], assumption,
     rule confined_mono [OF confined_helm(4) assms], assumption,
     rule confined_mono [OF confined_Close assms], assumption)

lemma confined_with_helm:
  assumes "\<And>c. helm_calls c \<Longrightarrow> C c" "\<And>hc. confined C (body hc)"
  shows "confined C (with_helm kc ns body)"
  unfolding with_helm_def
  by (intro calls_in.keeps_bind calls_in.keeps_deferred assms(2) helm_confined [OF assms(1)])

lemmas installs_intros = calls_in.keeps_basic [where C = installs] calls_in.keeps_perform [where C = installs]
  keeps_cases helm_confined [where C = installs] confined_with_helm [where C = installs]
lemmas creates_intros = calls_in.keeps_basic [where C = creates] calls_in.keeps_perform [where C = creates]
  keeps_cases helm_confined [where C = creates] confined_with_helm [where C = creates]
lemmas uninstalls_intros = calls_in.keeps_basic [where C = uninstalls] calls_in.keeps_perform [where C = uninstalls]
  keeps_cases helm_confined [where C = uninstalls] confined_with_helm [where C = uninstalls]
lemmas forwards_intros = calls_in.keeps_basic [where C = forwards] calls_in.keeps_perform [where C = forwards] keeps_cases

lemma confined_installMonitoring: "confined installs (installMonitoring kc v)"
  unfolding installMonitoring_def resolve_chart_def Install_def
  by (intro installs_intros) (simp_all add: permission_defs)

lemma confined_resolve:
  assumes "\<And>c. reads_cluster c \<Longrightarrow> C c" shows "confined C (resolveClusterAndKubeconfig name)"
proof (rule confined_mono [OF _ assms])
  show "confined reads_cluster (resolveClusterAndKubeconfig name)"
    unfolding resolveClusterAndKubeconfig_def lift_result_def provider_defs
    by (intro calls_in.keeps_basic [where C = reads_cluster] calls_in.keeps_perform [where C = reads_cluster]
        keeps_cases) (simp_all add: permission_defs)
qed

lemma confined_enable: "confined installs (runMonitoringEnable name)"
  unfolding runMonitoringEnable_def
  by (intro installs_intros confined_installMonitoring confined_resolve) (simp_all add: permission_defs)

lemma confined_create: "confined creates (create_command load changed opts)"
proof -
  have "confined creates (installMonitoring kc v)" for kc v
    by (rule confined_mono [OF confined_installMonitoring]) (simp add: creates_def)
  then show ?thesis
    unfolding create_command_def runCreate_def create_release_def resolve_chart_def Install_def provider_defs
    by (intro creates_intros) (simp_all add: permission_defs)
qed

lemma confined_uninstall: "confined uninstalls (Uninstall hc rel)"
  unfolding Uninstall_def by (intro uninstalls_intros) (simp_all add: permission_defs)

lemma confined_uninstall_releases: "confined uninstalls (uninstall_releases kc rs)"
proof (induction kc rs rule: uninstall_releases.induct)
  case (2 kc release ns rs)
  show ?case
    unfolding uninstall_releases.simps uninstall_one_def
    by (intro uninstalls_intros confined_uninstall 2) (simp_all add: permission_defs)
qed (simp add: uninstalls_intros)

lemma confined_delete: "confined (permitted [''gpu'', ''delete'']) (runDelete name)"
  unfolding runDelete_def delete_listed_def uninstallKnownReleases_def provider_defs
  by (intro calls_in.keeps_basic [where C = "permitted [''gpu'', ''delete'']"] keeps_cases
      calls_in.keeps_perform [where C = "permitted [''gpu'', ''delete'']"]
      confined_mono [OF confined_uninstall_releases, where D = "permitted [''gpu'', ''delete'']"])
    (simp_all add: permitted_def permission_defs)

lemma confined_disable: "confined (permitted [''gpu'', ''monitoring'', ''disable'']) (runMonitoringDisable name)"
  unfolding runMonitoringDisable_def
  by (intro calls_in.keeps_basic [where C = "permitted [''gpu'', ''monitoring'', ''disable'']"] keeps_cases
      calls_in.keeps_perform [where C = "permitted [''gpu'', ''monitoring'', ''disable'']"]
      confined_with_helm [where C = "permitted [''gpu'', ''monitoring'', ''disable'']"]
      confined_resolve [where C = "permitted [''gpu'', ''monitoring'', ''disable'']"]
      confined_mono [OF confined_uninstall, where D = "permitted [''gpu'', ''monitoring'', ''disable'']"])
    (simp_all add: permitted_def permission_defs)

lemma confined_browser: "confined forwards (openBrowser url)"
proof -
  have "confined forwards (start_browser c url)" "confined forwards (fail e :: unit cli)" for c e
    unfolding start_browser_def by (intro forwards_intros; simp add: permission_defs)+
  then show ?thesis by (auto simp: keeps_def openBrowser_def)
qed

lemma forwards_file [simp]: "forwards (ReadFile p)" "forwards (RemoveFile p)" "forwards (Print m)" "forwards (Signal i n)"
  by (simp_all add: permission_defs)

lemma confined_stop: "confined forwards (stopForward p)"
  unfolding stopForward_def remove_and_report_def
  by (auto intro!: forwards_intros split: sum.split option.split cli_error.split go_error.split)

lemma confined_dashboard: "confined forwards (runDashboard opts)"
  unfolding runDashboard_def resolveClusterName_def grafanaPIDPath_def readRunningPID_def startForward_def provider_defs
  by (intro forwards_intros confined_browser confined_stop) (simp_all add: permission_defs)

lemma confined_sample: "confined (permitted [''gpu'', ''sample'']) (runSample vendor)"
  unfolding runSample_def
  by (intro calls_in.keeps_basic [where C = "permitted [''gpu'', ''sample'']"] keeps_cases
      calls_in.keeps_perform [where C = "permitted [''gpu'', ''sample'']"]) (simp_all add: permitted_def)

section \<open>The program\<close>

text \<open>The words that lead to a command.\<close>

fun path_of :: "command \<Rightarrow> string list" where
  "path_of (CreateCmd _) = [''gpu'', ''create'']"
| "path_of (DeleteCmd _) = [''gpu'', ''delete'']"
| "path_of (EnableCmd _) = [''gpu'', ''monitoring'', ''enable'']"
| "path_of (DisableCmd _) = [''gpu'', ''monitoring'', ''disable'']"
| "path_of ListCmd = [''gpu'', ''list'']"
| "path_of (StatusCmd _) = [''gpu'', ''status'']"
| "path_of (SampleCmd _) = [''gpu'', ''sample'']"
| "path_of DoctorCmd = [''gpu'', ''doctor'']"
| "path_of (DashboardCmd _) = [''gpu'', ''dashboard'']"

lemma find_leaf:
  assumes "subcommands c = []" shows "find_cmd c ws = (if ws = [] then Some c else None)"
  using assms by (cases ws) simp_all

lemma find_root: "find_cmd NewRootCmd (w # ws) = (if w = ''gpu'' then find_cmd newGPUCmd ws else None)"
proof -
  have "subcommands NewRootCmd = [newGPUCmd]" "use newGPUCmd = ''gpu''"
    by (simp_all add: NewRootCmd_def newGPUCmd_def)
  then show ?thesis by auto
qed

lemma find_monitoring:
  "find_cmd newGPUMonitoringCmd (w # ws) =
     (if ws \<noteq> [] then None else if w = ''enable'' then Some newMonitoringEnableCmd
      else if w = ''disable'' then Some newMonitoringDisableCmd else None)"
proof -
  have uses: "use newMonitoringEnableCmd = ''enable''" "use newMonitoringDisableCmd = ''disable''"
    "subcommands newMonitoringEnableCmd = []" "subcommands newMonitoringDisableCmd = []"
    "subcommands newGPUMonitoringCmd = [newMonitoringEnableCmd, newMonitoringDisableCmd]"
    by (simp_all add: newMonitoringEnableCmd_def newMonitoringDisableCmd_def newGPUMonitoringCmd_def)
  show ?thesis
    by (simp only: find_cmd.simps find.simps uses) (auto simp: find_leaf [OF uses(3)] find_leaf [OF uses(4)])
qed

lemma find_gpu:
  "find_cmd newGPUCmd (w # ws) =
     (if w = ''monitoring'' then find_cmd newGPUMonitoringCmd ws
      else if ws \<noteq> [] then None
      else map_of [(''create'', newGPUCreateCmd), (''delete'', newGPUDeleteCmd), (''list'', newGPUListCmd),
        (''status'', newGPUStatusCmd), (''dashboard'', newGPUDashboardCmd), (''sample'', newGPUSampleCmd),
        (''doctor'', newGPUDoctorCmd)] w)"
proof -
  have uses: "use newGPUCreateCmd = ''create''" "use newGPUDeleteCmd = ''delete''" "use newGPUListCmd = ''list''"
    "use newGPUStatusCmd = ''status''" "use newGPUDashboardCmd = ''dashboard''" "use newGPUSampleCmd = ''sample''"
    "use newGPUMonitoringCmd = ''monitoring''" "use newGPUDoctorCmd = ''doctor''"
    by (simp_all add: command_defs)
  have leaves: "subcommands newGPUCreateCmd = []" "subcommands newGPUDeleteCmd = []" "subcommands newGPUListCmd = []"
    "subcommands newGPUStatusCmd = []" "subcommands newGPUDashboardCmd = []" "subcommands newGPUSampleCmd = []"
    "subcommands newGPUDoctorCmd = []"
    by (simp_all add: command_defs)
  have subs: "subcommands newGPUCmd = [newGPUCreateCmd, newGPUDeleteCmd, newGPUListCmd, newGPUStatusCmd,
      newGPUDashboardCmd, newGPUSampleCmd, newGPUMonitoringCmd, newGPUDoctorCmd]"
    by (simp add: newGPUCmd_def)
  show ?thesis
    by (simp only: find_cmd.simps subs find.simps uses map_of.simps fst_conv snd_conv)
      (auto simp: find_leaf [OF leaves(1)] find_leaf [OF leaves(2)] find_leaf [OF leaves(3)]
        find_leaf [OF leaves(4)] find_leaf [OF leaves(5)] find_leaf [OF leaves(6)] find_leaf [OF leaves(7)])
qed

lemma runE_simps:
  "runE newGPUCreateCmd = Some (\<lambda>vals. CreateCmd (create_opts vals))"
  "runE newGPUDeleteCmd = Some (\<lambda>vals. DeleteCmd (flag_string vals ''name''))"
  "runE newGPUListCmd = Some (\<lambda>_. ListCmd)"
  "runE newGPUStatusCmd = Some (\<lambda>vals. StatusCmd (flag_string vals ''name''))"
  "runE newGPUDashboardCmd = Some (\<lambda>vals. DashboardCmd (dashboard_opts vals))"
  "runE newGPUSampleCmd = Some (\<lambda>vals. SampleCmd (flag_string vals ''vendor''))"
  "runE newGPUDoctorCmd = Some (\<lambda>_. DoctorCmd)"
  "runE newMonitoringEnableCmd = Some (\<lambda>vals. EnableCmd (flag_string vals ''name''))"
  "runE newMonitoringDisableCmd = Some (\<lambda>vals. DisableCmd (flag_string vals ''name''))"
  "runE newGPUMonitoringCmd = None" "runE newGPUCmd = None" "runE NewRootCmd = None"
  by (simp_all add: command_defs)

declare find_cmd.simps(2) [simp del]

lemma invoked_path:
  assumes "invoked_command path vals = Some c" shows "path = path_of c"
proof -
  from assms obtain d f where d: "find_cmd NewRootCmd path = Some d" "runE d = Some f" "c = f vals"
    by (auto simp: invoked_command_def split: option.splits)
  from d obtain ws where ws: "path = ''gpu'' # ws" "find_cmd newGPUCmd ws = Some d"
    by (cases path) (auto simp: find_root runE_simps split: if_splits)
  from ws(2) d(2) obtain v vs where v: "ws = v # vs" by (cases ws) (auto simp: runE_simps)
  from ws(2) d(2,3) show ?thesis
    unfolding ws(1) v find_gpu
    by (cases vs) (auto simp: find_monitoring runE_simps split: if_splits)
qed

lemma permitted_paths:
  "permitted [''gpu'', ''create''] = creates" "permitted [''gpu'', ''monitoring'', ''enable''] = installs"
  "permitted [''gpu'', ''dashboard''] = forwards" "permitted [''gpu'', ''list''] = looks"
  "permitted [''gpu'', ''status''] = looks" "permitted [''gpu'', ''doctor''] = looks"
  by (simp_all add: fun_eq_iff permitted_def)

lemma command_permitted: "confined (permitted (path_of c)) (run_command load changed c)"
  by (cases c; simp only: path_of.simps run_command.simps permitted_paths confined_create confined_delete
      confined_enable confined_disable confined_sample confined_dashboard looking_list looking_status looking_doctor)


end
