(* ===== verification/Deep_Copy.thy ===== *)
theory Deep_Copy
  imports Workloads "HOL-Library.AList" "HOL-Library.Monad_Syntax"
begin

text \<open>
  The generated copy functions of \<open>api/v1alpha1/zz_generated.deepcopy.go\<close> on an explicit store. Pointers, maps and
  slices are addresses of cells; a struct is a value whose pointer fields hold addresses, and the same struct with
  the contents in place of the addresses is what it denotes. A slice is its backing array. \<open>None\<close> is a
  nil or ill-typed dereference. The copy functions of the API machinery (metadata, conditions) are
  parameters; the locale \<open>deep_copier\<close> is the contract they and the generated functions satisfy.
\<close>

section \<open>The store\<close>

type_synonym addr = nat

datatype 'b DriverMem = DriverMem (md_Enable: "'b option")

datatype 'b DevicePluginMem = DevicePluginMem (mp_Enable: "'b option") (mp_ImagePullPolicy: string)

datatype 'b MetricsExporterMem = MetricsExporterMem (me_Enable_at: "'b option")

datatype ('b, 's) SpecMem =
  SpecMem (ms_Driver: "'b DriverMem") (ms_DevicePlugin: "'b DevicePluginMem")
    (ms_MetricsExporter: "'b MetricsExporterMem") (ms_NodeSelector: "'s option")
    (ms_CommonConfig: CommonConfigSpec) (ms_ComputePartition: ComputePartitionSpec)

datatype 'c StatusMem =
  StatusMem (mt_DevicePluginReady: bool) (mt_MetricsExporterReady: bool) (mt_Conditions: "'c option")

text \<open>\<open>TypeMeta\<close> is the pair of kind and API version.\<close>

datatype ('m, 'b, 's, 'c) ConfigMem =
  ConfigMem (mc_TypeMeta: "string \<times> string") (mc_ObjectMeta: 'm) (mc_Spec: "('b, 's) SpecMem")
    (mc_Status: "'c StatusMem")

datatype ('l, 'i) ListMem =
  ListMem (ml_TypeMeta: "string \<times> string") (ml_ListMeta: 'l) (ml_Items: "'i option")

type_synonym 'm config = "('m, addr, addr, addr) ConfigMem"

datatype ('x, 'c, 'm, 'l) cell =
    BoolCell bool
  | MapCell labels
  | ConditionsCell "'c list"
  | ConfigsCell "'m config list"
  | DriverCell "addr DriverMem"
  | DevicePluginCell "addr DevicePluginMem"
  | MetricsExporterCell "addr MetricsExporterMem"
  | CommonConfigCell CommonConfigSpec
  | ComputePartitionCell ComputePartitionSpec
  | SpecCell "(addr, addr) SpecMem"
  | StatusCell "addr StatusMem"
  | ConfigCell "'m config"
  | ListCell "('l, addr) ListMem"
  | External 'x

type_synonym ('x, 'c, 'm, 'l) heap = "('x, 'c, 'm, 'l) cell list"

definition cell_at :: "'a list \<Rightarrow> addr \<Rightarrow> 'a option" where
  "cell_at h a = (if a < length h then Some (h ! a) else None)"

definition alloc :: "'a \<Rightarrow> 'a list \<Rightarrow> addr \<times> 'a list" where
  "alloc c h = (length h, h @ [c])"

fun un_bool where
  "un_bool (BoolCell b) = Some b"
| "un_bool _ = None"
fun un_map where
  "un_map (MapCell m) = Some m"
| "un_map _ = None"
fun un_conditions where
  "un_conditions (ConditionsCell cs) = Some cs"
| "un_conditions _ = None"
fun un_configs where
  "un_configs (ConfigsCell cs) = Some cs"
| "un_configs _ = None"
fun un_driver where
  "un_driver (DriverCell x) = Some x"
| "un_driver _ = None"
fun un_plugin where
  "un_plugin (DevicePluginCell x) = Some x"
| "un_plugin _ = None"
fun un_exporter where
  "un_exporter (MetricsExporterCell x) = Some x"
| "un_exporter _ = None"
fun un_common where
  "un_common (CommonConfigCell x) = Some x"
| "un_common _ = None"
fun un_partition where
  "un_partition (ComputePartitionCell x) = Some x"
| "un_partition _ = None"
fun un_spec where
  "un_spec (SpecCell x) = Some x"
| "un_spec _ = None"
fun un_status where
  "un_status (StatusCell x) = Some x"
| "un_status _ = None"
fun un_config where
  "un_config (ConfigCell x) = Some x"
| "un_config _ = None"
fun un_list where
  "un_list (ListCell x) = Some x"
| "un_list _ = None"

text \<open>What is read through a pointer, a map or a slice; \<open>un\<close> checks the type of the cell.\<close>

definition deref :: "('c \<Rightarrow> 'a option) \<Rightarrow> 'c list \<Rightarrow> addr \<Rightarrow> 'a option" where
  "deref un h a = Option.bind (cell_at h a) un"

section \<open>The generated functions\<close>

text \<open>The zero values and copy functions the generated code calls.\<close>

record ('x, 'c, 'm, 'l) apimachinery =
  zeroMeta :: 'm
  copyMeta :: "'m \<Rightarrow> ('x, 'c, 'm, 'l) heap \<Rightarrow> ('m \<times> ('x, 'c, 'm, 'l) heap) option"
  zeroListMeta :: 'l
  copyListMeta :: "'l \<Rightarrow> ('x, 'c, 'm, 'l) heap \<Rightarrow> ('l \<times> ('x, 'c, 'm, 'l) heap) option"
  zeroCondition :: 'c
  copyCondition :: "'c \<Rightarrow> ('x, 'c, 'm, 'l) heap \<Rightarrow> ('c \<times> ('x, 'c, 'm, 'l) heap) option"

text \<open>\<open>if in.X != nil\<close>: a nil field of the shallow copy stays nil.\<close>

definition unless_nil :: "('p \<Rightarrow> 'h \<Rightarrow> ('p \<times> 'h) option) \<Rightarrow> 'p option \<Rightarrow> 'h \<Rightarrow> ('p option \<times> 'h) option" where
  "unless_nil copy p h = (case p of None \<Rightarrow> Some (None, h) | Some a \<Rightarrow> map_option (apfst Some) (copy a h))"

definition copy_bool :: "addr \<Rightarrow> ('x, 'c, 'm, 'l) heap \<Rightarrow> (addr \<times> ('x, 'c, 'm, 'l) heap) option" where
  "copy_bool a h =
     (let (out, h1) = alloc (BoolCell False) h in
      do { b \<leftarrow> deref un_bool h1 a; Some (out, h1[out := BoolCell b]) })"

text \<open>The loop over the entries of a map. Go leaves the order open; this is the order of the list.\<close>

fun copy_entries :: "labels \<Rightarrow> addr \<Rightarrow> ('x, 'c, 'm, 'l) heap \<Rightarrow> ('x, 'c, 'm, 'l) heap option" where
  "copy_entries [] out h = Some h"
| "copy_entries ((k, v) # kvs) out h =
     do { m \<leftarrow> deref un_map h out; copy_entries kvs out (h[out := MapCell (AList.update k v m)]) }"

definition copy_map :: "addr \<Rightarrow> ('x, 'c, 'm, 'l) heap \<Rightarrow> (addr \<times> ('x, 'c, 'm, 'l) heap) option" where
  "copy_map a h =
     (let (out, h1) = alloc (MapCell []) h in
      do { m \<leftarrow> deref un_map h1 a; h2 \<leftarrow> copy_entries m out h1; Some (out, h2) })"

text \<open>The loop over the elements of a slice from index \<open>i\<close> on, into the slice \<open>out\<close>.\<close>

fun copy_elements ::
  "('e list \<Rightarrow> 'c) \<Rightarrow> ('c \<Rightarrow> 'e list option) \<Rightarrow> ('e \<Rightarrow> 'c list \<Rightarrow> ('e \<times> 'c list) option) \<Rightarrow>
   'e list \<Rightarrow> nat \<Rightarrow> addr \<Rightarrow> 'c list \<Rightarrow> 'c list option" where
  "copy_elements mk un copy [] i out h = Some h"
| "copy_elements mk un copy (x # xs) i out h =
     do { (y, h1) \<leftarrow> copy x h; ys \<leftarrow> deref un h1 out;
          copy_elements mk un copy xs (Suc i) out (h1[out := mk (ys[i := y])]) }"

definition copy_slice ::
  "('e list \<Rightarrow> 'c) \<Rightarrow> ('c \<Rightarrow> 'e list option) \<Rightarrow> 'e \<Rightarrow> ('e \<Rightarrow> 'c list \<Rightarrow> ('e \<times> 'c list) option) \<Rightarrow>
   addr \<Rightarrow> 'c list \<Rightarrow> (addr \<times> 'c list) option" where
  "copy_slice mk un zero copy a h =
     do { xs \<leftarrow> deref un h a;
          let (out, h1) = alloc (mk (replicate (length xs) zero)) h;
          h2 \<leftarrow> copy_elements mk un copy xs 0 out h1;
          Some (out, h2) }"

text \<open>The functions \<open>DeepCopyInto\<close>: from the struct behind \<open>in\<close> to the struct stored through \<open>out\<close>.\<close>

definition DeepCopyInto_CommonConfigSpec :: "CommonConfigSpec \<Rightarrow> 'h \<Rightarrow> (CommonConfigSpec \<times> 'h) option" where
  "DeepCopyInto_CommonConfigSpec x h = Some (x, h)"

definition DeepCopyInto_ComputePartitionSpec ::
  "ComputePartitionSpec \<Rightarrow> 'h \<Rightarrow> (ComputePartitionSpec \<times> 'h) option" where
  "DeepCopyInto_ComputePartitionSpec x h = Some (x, h)"

definition DeepCopyInto_DriverSpec ::
  "addr DriverMem \<Rightarrow> ('x, 'c, 'm, 'l) heap \<Rightarrow> (addr DriverMem \<times> ('x, 'c, 'm, 'l) heap) option" where
  "DeepCopyInto_DriverSpec x h = do { (p, h1) \<leftarrow> unless_nil copy_bool (md_Enable x) h; Some (DriverMem p, h1) }"

definition DeepCopyInto_DevicePluginSpec ::
  "addr DevicePluginMem \<Rightarrow> ('x, 'c, 'm, 'l) heap \<Rightarrow> (addr DevicePluginMem \<times> ('x, 'c, 'm, 'l) heap) option" where
  "DeepCopyInto_DevicePluginSpec x h =
     do { (p, h1) \<leftarrow> unless_nil copy_bool (mp_Enable x) h; Some (DevicePluginMem p (mp_ImagePullPolicy x), h1) }"

definition DeepCopyInto_MetricsExporterSpec ::
  "addr MetricsExporterMem \<Rightarrow> ('x, 'c, 'm, 'l) heap \<Rightarrow> (addr MetricsExporterMem \<times> ('x, 'c, 'm, 'l) heap) option" where
  "DeepCopyInto_MetricsExporterSpec x h =
     do { (p, h1) \<leftarrow> unless_nil copy_bool (me_Enable_at x) h; Some (MetricsExporterMem p, h1) }"

definition DeepCopyInto_DeviceConfigSpec ::
  "(addr, addr) SpecMem \<Rightarrow> ('x, 'c, 'm, 'l) heap \<Rightarrow> ((addr, addr) SpecMem \<times> ('x, 'c, 'm, 'l) heap) option" where
  "DeepCopyInto_DeviceConfigSpec x h =
     do { (d, h1) \<leftarrow> DeepCopyInto_DriverSpec (ms_Driver x) h;
          (p, h2) \<leftarrow> DeepCopyInto_DevicePluginSpec (ms_DevicePlugin x) h1;
          (e, h3) \<leftarrow> DeepCopyInto_MetricsExporterSpec (ms_MetricsExporter x) h2;
          (s, h4) \<leftarrow> unless_nil copy_map (ms_NodeSelector x) h3;
          Some (SpecMem d p e s (ms_CommonConfig x) (ms_ComputePartition x), h4) }"

definition DeepCopyInto_DeviceConfigStatus ::
  "('x, 'c, 'm, 'l) apimachinery \<Rightarrow> addr StatusMem \<Rightarrow> ('x, 'c, 'm, 'l) heap \<Rightarrow>
   (addr StatusMem \<times> ('x, 'c, 'm, 'l) heap) option" where
  "DeepCopyInto_DeviceConfigStatus api x h =
     do { (p, h1) \<leftarrow> unless_nil (copy_slice ConditionsCell un_conditions (zeroCondition api) (copyCondition api))
                       (mt_Conditions x) h;
          Some (StatusMem (mt_DevicePluginReady x) (mt_MetricsExporterReady x) p, h1) }"

definition DeepCopyInto_DeviceConfig ::
  "('x, 'c, 'm, 'l) apimachinery \<Rightarrow> 'm config \<Rightarrow> ('x, 'c, 'm, 'l) heap \<Rightarrow>
   ('m config \<times> ('x, 'c, 'm, 'l) heap) option" where
  "DeepCopyInto_DeviceConfig api x h =
     do { (m, h1) \<leftarrow> copyMeta api (mc_ObjectMeta x) h;
          (s, h2) \<leftarrow> DeepCopyInto_DeviceConfigSpec (mc_Spec x) h1;
          (t, h3) \<leftarrow> DeepCopyInto_DeviceConfigStatus api (mc_Status x) h2;
          Some (ConfigMem (mc_TypeMeta x) m s t, h3) }"

definition zero_driver :: "addr DriverMem" where "zero_driver = DriverMem None"
definition zero_plugin :: "addr DevicePluginMem" where "zero_plugin = DevicePluginMem None []"
definition zero_exporter :: "addr MetricsExporterMem" where "zero_exporter = MetricsExporterMem None"
definition zero_common :: CommonConfigSpec where "zero_common = \<lparr>InitContainerImage = []\<rparr>"
definition zero_partition :: ComputePartitionSpec where "zero_partition = \<lparr>Mode = [], Count = 0\<rparr>"
definition zero_spec :: "(addr, addr) SpecMem" where
  "zero_spec = SpecMem zero_driver zero_plugin zero_exporter None zero_common zero_partition"
definition zero_status :: "addr StatusMem" where "zero_status = StatusMem False False None"
definition zero_config :: "('x, 'c, 'm, 'l) apimachinery \<Rightarrow> 'm config" where
  "zero_config api = ConfigMem ([], []) (zeroMeta api) zero_spec zero_status"

definition DeepCopyInto_DeviceConfigList ::
  "('x, 'c, 'm, 'l) apimachinery \<Rightarrow> ('l, addr) ListMem \<Rightarrow> ('x, 'c, 'm, 'l) heap \<Rightarrow>
   (('l, addr) ListMem \<times> ('x, 'c, 'm, 'l) heap) option" where
  "DeepCopyInto_DeviceConfigList api x h =
     do { (m, h1) \<leftarrow> copyListMeta api (ml_ListMeta x) h;
          (p, h2) \<leftarrow> unless_nil (copy_slice ConfigsCell un_configs (zero_config api) (DeepCopyInto_DeviceConfig api))
                       (ml_Items x) h1;
          Some (ListMem (ml_TypeMeta x) m p, h2) }"

text \<open>The common shape of the functions \<open>DeepCopy\<close>: a nil receiver, \<open>new\<close>, and the copy into the new struct.\<close>

definition deep_copy ::
  "('a \<Rightarrow> 'c) \<Rightarrow> ('c \<Rightarrow> 'a option) \<Rightarrow> 'a \<Rightarrow> ('a \<Rightarrow> 'c list \<Rightarrow> ('a \<times> 'c list) option) \<Rightarrow>
   addr option \<Rightarrow> 'c list \<Rightarrow> (addr option \<times> 'c list) option" where
  "deep_copy mk un zero into p h =
     (case p of
        None \<Rightarrow> Some (None, h)
      | Some a \<Rightarrow>
          let (out, h1) = alloc (mk zero) h in
          do { x \<leftarrow> deref un h1 a; (y, h2) \<leftarrow> into x h1; Some (Some out, h2[out := mk y]) })"

definition DeepCopy_CommonConfigSpec where
  "DeepCopy_CommonConfigSpec =
     deep_copy CommonConfigCell un_common zero_common DeepCopyInto_CommonConfigSpec"
definition DeepCopy_ComputePartitionSpec where
  "DeepCopy_ComputePartitionSpec =
     deep_copy ComputePartitionCell un_partition zero_partition DeepCopyInto_ComputePartitionSpec"
definition DeepCopy_DriverSpec where
  "DeepCopy_DriverSpec =
     deep_copy DriverCell un_driver zero_driver DeepCopyInto_DriverSpec"
definition DeepCopy_DevicePluginSpec where
  "DeepCopy_DevicePluginSpec =
     deep_copy DevicePluginCell un_plugin zero_plugin DeepCopyInto_DevicePluginSpec"
definition DeepCopy_MetricsExporterSpec where
  "DeepCopy_MetricsExporterSpec =
     deep_copy MetricsExporterCell un_exporter zero_exporter DeepCopyInto_MetricsExporterSpec"
definition DeepCopy_DeviceConfigSpec where
  "DeepCopy_DeviceConfigSpec =
     deep_copy SpecCell un_spec zero_spec DeepCopyInto_DeviceConfigSpec"
definition DeepCopy_DeviceConfigStatus where
  "DeepCopy_DeviceConfigStatus api =
     deep_copy StatusCell un_status zero_status (DeepCopyInto_DeviceConfigStatus api)"
definition DeepCopy_DeviceConfig where
  "DeepCopy_DeviceConfig api =
     deep_copy ConfigCell un_config (zero_config api) (DeepCopyInto_DeviceConfig api)"
definition DeepCopy_DeviceConfigList where
  "DeepCopy_DeviceConfigList api =
     deep_copy ListCell un_list (ListMem ([], []) (zeroListMeta api) None) (DeepCopyInto_DeviceConfigList api)"

text \<open>A \<open>runtime.Object\<close> is nil or one of the registered types behind a pointer.\<close>

datatype runtime_object = NilObject | DeviceConfigObject addr | DeviceConfigListObject addr

definition DeepCopyObject_DeviceConfig ::
  "('x, 'c, 'm, 'l) apimachinery \<Rightarrow> addr option \<Rightarrow> ('x, 'c, 'm, 'l) heap \<Rightarrow>
   (runtime_object \<times> ('x, 'c, 'm, 'l) heap) option" where
  "DeepCopyObject_DeviceConfig api p h =
     do { (q, h1) \<leftarrow> DeepCopy_DeviceConfig api p h;
          Some (case q of None \<Rightarrow> NilObject | Some c \<Rightarrow> DeviceConfigObject c, h1) }"

definition DeepCopyObject_DeviceConfigList ::
  "('x, 'c, 'm, 'l) apimachinery \<Rightarrow> addr option \<Rightarrow> ('x, 'c, 'm, 'l) heap \<Rightarrow>
   (runtime_object \<times> ('x, 'c, 'm, 'l) heap) option" where
  "DeepCopyObject_DeviceConfigList api p h =
     do { (q, h1) \<leftarrow> DeepCopy_DeviceConfigList api p h;
          Some (case q of None \<Rightarrow> NilObject | Some c \<Rightarrow> DeviceConfigListObject c, h1) }"

section \<open>What a struct denotes\<close>

definition points_to :: "('c \<Rightarrow> 'a option) \<Rightarrow> ('a \<Rightarrow> 'v \<Rightarrow> bool) \<Rightarrow> 'c list \<Rightarrow> addr \<Rightarrow> 'v \<Rightarrow> bool" where
  "points_to un den h a v \<longleftrightarrow> (\<exists>x. deref un h a = Some x \<and> den x v)"

text \<open>A map in memory has distinct keys.\<close>

definition same_map :: "labels \<Rightarrow> labels \<Rightarrow> bool" where
  "same_map m v \<longleftrightarrow> m = v \<and> distinct (map fst m)"

definition bool_at :: "('x, 'c, 'm, 'l) heap \<Rightarrow> addr \<Rightarrow> bool \<Rightarrow> bool" where
  "bool_at h = points_to un_bool (=) h"

definition map_at :: "('x, 'c, 'm, 'l) heap \<Rightarrow> addr \<Rightarrow> labels \<Rightarrow> bool" where
  "map_at h = points_to un_map same_map h"

type_synonym ('n, 'v) config_value = "('n, bool, labels, 'v list) ConfigMem"

definition spec_in :: "('x, 'c, 'm, 'l) heap \<Rightarrow> (addr, addr) SpecMem \<Rightarrow> (bool, labels) SpecMem \<Rightarrow> bool" where
  "spec_in h = rel_SpecMem (bool_at h) (map_at h)"

definition status_in ::
  "(('x, 'c, 'm, 'l) heap \<Rightarrow> 'c \<Rightarrow> 'v \<Rightarrow> bool) \<Rightarrow> ('x, 'c, 'm, 'l) heap \<Rightarrow> addr StatusMem \<Rightarrow>
   'v list StatusMem \<Rightarrow> bool" where
  "status_in cond h = rel_StatusMem (points_to un_conditions (list_all2 (cond h)) h)"

definition config_in ::
  "(('x, 'c, 'm, 'l) heap \<Rightarrow> 'm \<Rightarrow> 'n \<Rightarrow> bool) \<Rightarrow> (('x, 'c, 'm, 'l) heap \<Rightarrow> 'c \<Rightarrow> 'v \<Rightarrow> bool) \<Rightarrow>
   ('x, 'c, 'm, 'l) heap \<Rightarrow> 'm config \<Rightarrow> ('n, 'v) config_value \<Rightarrow> bool" where
  "config_in meta cond h c v \<longleftrightarrow>
     mc_TypeMeta c = mc_TypeMeta v \<and> meta h (mc_ObjectMeta c) (mc_ObjectMeta v) \<and>
     spec_in h (mc_Spec c) (mc_Spec v) \<and> status_in cond h (mc_Status c) (mc_Status v)"

definition list_in ::
  "(('x, 'c, 'm, 'l) heap \<Rightarrow> 'm \<Rightarrow> 'n \<Rightarrow> bool) \<Rightarrow> (('x, 'c, 'm, 'l) heap \<Rightarrow> 'l \<Rightarrow> 'k \<Rightarrow> bool) \<Rightarrow>
   (('x, 'c, 'm, 'l) heap \<Rightarrow> 'c \<Rightarrow> 'v \<Rightarrow> bool) \<Rightarrow> ('x, 'c, 'm, 'l) heap \<Rightarrow> ('l, addr) ListMem \<Rightarrow>
   ('k, ('n, 'v) config_value list) ListMem \<Rightarrow> bool" where
  "list_in meta lmeta cond h =
     rel_ListMem (lmeta h) (points_to un_configs (list_all2 (config_in meta cond h)) h)"

section \<open>The contract of a deep copy\<close>

text \<open>A later heap that still has the cells of \<open>h\<close> from address \<open>n\<close> on.\<close>

definition keeps :: "nat \<Rightarrow> 'c list \<Rightarrow> 'c list \<Rightarrow> bool" where
  "keeps n h h' \<longleftrightarrow> length h \<le> length h' \<and> (\<forall>i. n \<le> i \<longrightarrow> i < length h \<longrightarrow> h' ! i = h ! i)"

lemma keeps_append [simp]: "keeps n h (h @ ext)"
  by (simp add: keeps_def nth_append)

lemma keeps_trans: "keeps n h h1 \<Longrightarrow> keeps m h1 h2 \<Longrightarrow> m \<le> n \<Longrightarrow> keeps n h h2"
  by (force simp: keeps_def)

lemma keeps_deref: "keeps n h h' \<Longrightarrow> n \<le> a \<Longrightarrow> deref un h a = Some x \<Longrightarrow> deref un h' a = Some x"
  by (auto simp: keeps_def deref_def cell_at_def split: if_splits)

lemma deref_append: "deref un h a = Some x \<Longrightarrow> deref un (h @ ext) a = Some x"
  by (rule keeps_deref [OF keeps_append le0])

lemma deref_new: "deref un (h @ c # ext) (length h) = un c"
  by (simp add: deref_def cell_at_def)

text \<open>
  A copy of what denotes a value only allocates, what it returns denotes the value in every later heap that keeps the
  cells allocated for it, and denoting does not depend on anything but the cells there are.
\<close>

locale deep_copier =
  fixes copy :: "'a \<Rightarrow> 'c list \<Rightarrow> ('a \<times> 'c list) option" and den :: "'c list \<Rightarrow> 'a \<Rightarrow> 'v \<Rightarrow> bool"
  assumes copies: "den h x v \<Longrightarrow> \<exists>y ext. copy x h = Some (y, h @ ext) \<and>
      (\<forall>h'. keeps (length h) (h @ ext) h' \<longrightarrow> den h' y v)"
    and stable: "den h x v \<Longrightarrow> keeps 0 h h' \<Longrightarrow> den h' x v"
begin

lemma copies_later:
  assumes "den h x v"
  shows "\<exists>y ext. copy x (h @ e) = Some (y, h @ e @ ext) \<and>
    (\<forall>h'. keeps (length (h @ e)) (h @ e @ ext) h' \<longrightarrow> den h' y v)"
proof -
  have "den (h @ e) x v" by (rule stable [OF assms]) simp
  from copies [OF this] show ?thesis by (simp only: append_assoc)
qed

text \<open>A pointer field: nil stays nil, another pointer is copied.\<close>

lemma unless_nil_copies:
  assumes "rel_option (den h) p v"
  shows "\<exists>q ext. unless_nil copy p (h @ e) = Some (q, h @ e @ ext) \<and>
    (\<forall>h'. keeps (length (h @ e)) (h @ e @ ext) h' \<longrightarrow> rel_option (den h') q v)"
proof (cases p)
  case None
  with assms show ?thesis by (auto simp: unless_nil_def)
next
  case (Some x)
  with assms obtain w where v: "v = Some w" "den h x w" by (cases v) auto
  from copies_later [OF v(2), of e] v(1) Some show ?thesis
    by (fastforce simp: unless_nil_def)
qed

lemma pointer_stable:
  assumes "points_to un (den h) h p v" "keeps 0 h h'"
  shows "points_to un (den h') h' p v"
proof -
  from assms(1) obtain x where x: "deref un h p = Some x" "den h x v" by (auto simp: points_to_def)
  have "deref un h' p = Some x" by (rule keeps_deref [OF assms(2) le0 x(1)])
  moreover have "den h' x v" by (rule stable [OF x(2) assms(2)])
  ultimately show ?thesis by (auto simp: points_to_def)
qed

text \<open>The function \<open>DeepCopy\<close> of a type: a fresh pointer to an independent struct.\<close>

lemma deep_copy_copies:
  assumes un: "\<And>x. un (mk x) = Some x" and src: "points_to un (den h) h p v"
  shows "\<exists>ext. deep_copy mk un zero copy (Some p) h = Some (Some (length h), h @ ext) \<and>
    (\<forall>h'. keeps (length h) (h @ ext) h' \<longrightarrow> points_to un (den h') h' (length h) v)"
proof -
  from src obtain x where x: "deref un h p = Some x" "den h x v" by (auto simp: points_to_def)
  let ?h1 = "h @ [mk zero]"
  have d: "deref un ?h1 p = Some x" by (rule deref_append [OF x(1)])
  from copies_later [OF x(2), of "[mk zero]"] obtain y ext where
    c: "copy x ?h1 = Some (y, h @ [mk zero] @ ext)"
    and y: "\<And>h'. keeps (length ?h1) (h @ [mk zero] @ ext) h' \<Longrightarrow> den h' y v" by auto
  have "points_to un (den h') h' (length h) v" if k: "keeps (length h) (h @ mk y # ext) h'" for h'
  proof -
    have "deref un (h @ mk y # ext) (length h) = Some y" by (simp add: deref_new un)
    then have "deref un h' (length h) = Some y" by (rule keeps_deref [OF k order_refl])
    moreover have "keeps (length ?h1) (h @ [mk zero] @ ext) h'"
      using k by (auto simp: keeps_def nth_append nth_Cons split: nat.splits if_splits)
    ultimately show ?thesis using y unfolding points_to_def by blast
  qed
  then show ?thesis
    using c d by (auto simp: deep_copy_def alloc_def list_update_append)
qed

text \<open>A slice: the loop fills a fresh backing array element by element.\<close>

lemma copy_elements_copies:
  assumes un: "\<And>xs. un (mk xs) = Some xs" and "list_all2 (den base) xs vs"
    and "\<forall>h'. keeps (Suc (length base)) (base @ c # ext) h' \<longrightarrow> list_all2 (den h') ys us"
  shows "\<exists>zs ext2. copy_elements mk un copy xs (length ys) (length base)
        (base @ mk (ys @ replicate (length xs) zero) # ext) = Some (base @ mk zs # ext @ ext2) \<and>
    (\<forall>h'. keeps (Suc (length base)) (base @ c # ext @ ext2) h' \<longrightarrow> list_all2 (den h') zs (us @ vs))"
  using assms(2,3)
proof (induction xs vs arbitrary: ys us ext rule: list_all2_induct)
  case Nil
  have "base @ mk ys # ext = base @ mk ys # ext @ []" by simp
  with Nil show ?case by fastforce
next
  case (Cons x xs v vs)
  let ?cell = "mk (ys @ zero # replicate (length xs) zero)"
  from copies_later [OF Cons.hyps(1), of "?cell # ext"] obtain y e where
    y: "copy x (base @ ?cell # ext) = Some (y, base @ ?cell # ext @ e)"
    and dy: "\<And>h'. keeps (length (base @ ?cell # ext)) (base @ ?cell # ext @ e) h' \<Longrightarrow> den h' y v" by auto
  have "list_all2 (den h') (ys @ [y]) (us @ [v])" if k: "keeps (Suc (length base)) (base @ c # ext @ e) h'" for h'
  proof -
    have "keeps (Suc (length base)) (base @ c # ext) h'"
      using keeps_trans [OF keeps_append [of _ "base @ c # ext" e] _ order_refl] k by simp
    with Cons.prems have "list_all2 (den h') ys us" by blast
    moreover have "keeps (length (base @ ?cell # ext)) (base @ ?cell # ext @ e) h'"
      using k by (auto simp: keeps_def nth_append nth_Cons split: nat.splits if_splits)
    then have "den h' y v" by (rule dy)
    ultimately show ?thesis by (simp add: list_all2_appendI)
  qed
  then have "\<forall>h'. keeps (Suc (length base)) (base @ c # ext @ e) h' \<longrightarrow> list_all2 (den h') (ys @ [y]) (us @ [v])"
    by blast
  from Cons.IH [OF this] obtain zs ext2 where
    ih: "copy_elements mk un copy xs (Suc (length ys)) (length base)
        (base @ mk (ys @ y # replicate (length xs) zero) # ext @ e) = Some (base @ mk zs # ext @ e @ ext2)"
    "\<And>h'. keeps (Suc (length base)) (base @ c # ext @ e @ ext2) h' \<Longrightarrow> list_all2 (den h') zs (us @ v # vs)"
    by auto
  have "deref un (base @ ?cell # ext @ e) (length base) = Some (ys @ zero # replicate (length xs) zero)"
    by (simp add: deref_new un)
  then have "copy_elements mk un copy (x # xs) (length ys) (length base)
      (base @ mk (ys @ replicate (length (x # xs)) zero) # ext) = Some (base @ mk zs # ext @ e @ ext2)"
    using ih(1) y by (simp add: list_update_append)
  with ih(2) show ?case by (intro exI [of _ zs] exI [of _ "e @ ext2"]) simp
qed

lemma copy_slice_copies:
  assumes un: "\<And>xs. un (mk xs) = Some xs" and "points_to un (list_all2 (den h)) h p vs"
  shows "\<exists>q ext. copy_slice mk un zero copy p h = Some (q, h @ ext) \<and>
    (\<forall>h'. keeps (length h) (h @ ext) h' \<longrightarrow> points_to un (list_all2 (den h')) h' q vs)"
proof -
  from assms(2) obtain xs where xs: "deref un h p = Some xs" "list_all2 (den h) xs vs" by (auto simp: points_to_def)
  have "\<forall>h'. keeps (Suc (length h)) (h @ mk [] # []) h' \<longrightarrow> list_all2 (den h') [] []" by simp
  from copy_elements_copies [where zero = zero, OF un xs(2) this] obtain zs ext where
    c: "copy_elements mk un copy xs 0 (length h) (h @ [mk (replicate (length xs) zero)]) = Some (h @ mk zs # ext)"
    and z: "\<And>h'. keeps (Suc (length h)) (h @ mk [] # ext) h' \<Longrightarrow> list_all2 (den h') zs vs" by auto
  have "points_to un (list_all2 (den h')) h' (length h) vs" if k: "keeps (length h) (h @ mk zs # ext) h'" for h'
  proof -
    have "deref un (h @ mk zs # ext) (length h) = Some zs" by (simp add: deref_new un)
    then have "deref un h' (length h) = Some zs" by (rule keeps_deref [OF k order_refl])
    moreover have "keeps (Suc (length h)) (h @ mk [] # ext) h'"
      using k by (auto simp: keeps_def nth_append nth_Cons split: nat.splits if_splits)
    ultimately show ?thesis using z unfolding points_to_def by blast
  qed
  then show ?thesis using c xs(1) by (simp add: copy_slice_def alloc_def)
qed

lemma slice_stable:
  assumes "points_to un (list_all2 (den h)) h p vs" "keeps 0 h h'"
  shows "points_to un (list_all2 (den h')) h' p vs"
  using assms stable keeps_deref [OF assms(2) le0] unfolding points_to_def by (meson list_all2_mono)

text \<open>So slices and optional fields of copied things are copied.\<close>

lemma slice_copier:
  "(\<And>xs. un (mk xs) = Some xs) \<Longrightarrow>
   deep_copier (copy_slice mk un zero copy) (\<lambda>h. points_to un (list_all2 (den h)) h)"
  using copy_slice_copies slice_stable by unfold_locales blast+

lemma option_copier: "deep_copier (unless_nil copy) (\<lambda>h. rel_option (den h))"
proof unfold_locales
  fix h x v assume "rel_option (den h) x v"
  from unless_nil_copies [OF this, of "[]"]
  show "\<exists>y ext. unless_nil copy x h = Some (y, h @ ext) \<and>
      (\<forall>h'. keeps (length h) (h @ ext) h' \<longrightarrow> rel_option (den h') y v)" by simp
qed (use stable in \<open>blast intro: option.rel_mono_strong\<close>)

end

section \<open>The generated functions are deep copies\<close>

lemma copy_entries_fill:
  "distinct (map fst (m @ kvs)) \<Longrightarrow>
   copy_entries kvs (length base) (base @ MapCell m # ext) = Some (base @ MapCell (m @ kvs) # ext)"
proof (induction kvs arbitrary: m)
  case (Cons kv kvs)
  obtain k v where kv: "kv = (k, v)" by (cases kv)
  have "AList.update k v m = m @ [(k, v)]"
    using Cons.prems kv by (induction m) auto
  with Cons.IH [of "m @ [(k, v)]"] Cons.prems kv show ?case
    by (simp add: deref_def cell_at_def list_update_append)
qed simp

interpretation bools: deep_copier
  "copy_bool :: addr \<Rightarrow> ('x, 'c, 'm, 'l) heap \<Rightarrow> (addr \<times> ('x, 'c, 'm, 'l) heap) option" bool_at
proof unfold_locales
  fix h :: "('x, 'c, 'm, 'l) heap" and x v assume "bool_at h x v"
  then have "deref un_bool h x = Some v" by (simp add: bool_at_def points_to_def)
  then have "deref un_bool (h @ [BoolCell False]) x = Some v" by (rule deref_append)
  then have "copy_bool x h = Some (length h, h @ [BoolCell v])" by (simp add: copy_bool_def alloc_def)
  moreover have "deref un_bool (h @ [BoolCell v]) (length h) = Some v" by (simp add: deref_new)
  then have "bool_at h' (length h) v" if "keeps (length h) (h @ [BoolCell v]) h'" for h'
    using keeps_deref [OF that order_refl] by (simp add: bool_at_def points_to_def)
  ultimately show "\<exists>y ext. copy_bool x h = Some (y, h @ ext) \<and>
      (\<forall>h'. keeps (length h) (h @ ext) h' \<longrightarrow> bool_at h' y v)" by blast
qed (auto simp: bool_at_def points_to_def dest: keeps_deref [OF _ le0])

interpretation maps: deep_copier
  "copy_map :: addr \<Rightarrow> ('x, 'c, 'm, 'l) heap \<Rightarrow> (addr \<times> ('x, 'c, 'm, 'l) heap) option" map_at
proof unfold_locales
  fix h :: "('x, 'c, 'm, 'l) heap" and x v assume "map_at h x v"
  then have v: "deref un_map h x = Some v" "distinct (map fst v)" by (auto simp: map_at_def points_to_def same_map_def)
  from v(1) have "deref un_map (h @ [MapCell []]) x = Some v" by (rule deref_append)
  then have "copy_map x h = Some (length h, h @ [MapCell v])"
    using v(2) copy_entries_fill [of "[]" v h "[]"] by (simp add: copy_map_def alloc_def)
  moreover have "deref un_map (h @ [MapCell v]) (length h) = Some v" by (simp add: deref_new)
  then have "map_at h' (length h) v" if "keeps (length h) (h @ [MapCell v]) h'" for h'
    using keeps_deref [OF that order_refl] v(2) by (simp add: map_at_def points_to_def same_map_def)
  ultimately show "\<exists>y ext. copy_map x h = Some (y, h @ ext) \<and>
      (\<forall>h'. keeps (length h) (h @ ext) h' \<longrightarrow> map_at h' y v)" by blast
qed (auto simp: map_at_def points_to_def dest: keeps_deref [OF _ le0])

text \<open>Two copies in sequence, and a copy of the part of a struct that has pointers.\<close>

definition copy_both ::
  "('a \<Rightarrow> 'h \<Rightarrow> ('a \<times> 'h) option) \<Rightarrow> ('b \<Rightarrow> 'h \<Rightarrow> ('b \<times> 'h) option) \<Rightarrow> 'a \<times> 'b \<Rightarrow> 'h \<Rightarrow> (('a \<times> 'b) \<times> 'h) option" where
  "copy_both c1 c2 x h = do { (a, h1) \<leftarrow> c1 (fst x) h; (b, h2) \<leftarrow> c2 (snd x) h1; Some ((a, b), h2) }"

lemma both_copier:
  assumes "deep_copier c1 d1" "deep_copier c2 d2"
  shows "deep_copier (copy_both c1 c2) (\<lambda>h. rel_prod (d1 h) (d2 h))"
proof unfold_locales
  fix h x v assume d: "rel_prod (d1 h) (d2 h) x v"
  obtain a b where x: "x = (a, b)" by fastforce
  obtain v1 v2 where v: "v = (v1, v2)" by fastforce
  from d have d': "d1 h a v1" "d2 h b v2" by (simp_all add: x v)
  from deep_copier.copies [OF assms(1) d'(1)] obtain y e where
    1: "c1 a h = Some (y, h @ e)" "\<And>h'. keeps (length h) (h @ e) h' \<Longrightarrow> d1 h' y v1" by blast
  from deep_copier.copies_later [OF assms(2) d'(2), of e] obtain z e' where
    2: "c2 b (h @ e) = Some (z, h @ e @ e')"
    "\<And>h'. keeps (length (h @ e)) (h @ e @ e') h' \<Longrightarrow> d2 h' z v2" by blast
  have "rel_prod (d1 h') (d2 h') (y, z) v" if k: "keeps (length h) (h @ e @ e') h'" for h'
  proof -
    have "keeps (length h) (h @ e) h'" using keeps_trans [OF keeps_append [of _ "h @ e" e'] _ order_refl] k by simp
    moreover have "keeps (length (h @ e)) (h @ e @ e') h'" using k by (simp add: keeps_def)
    ultimately show ?thesis using 1(2) 2(2) by (simp add: v)
  qed
  with 1(1) 2(1) show "\<exists>y ext. copy_both c1 c2 x h = Some (y, h @ ext) \<and>
      (\<forall>h'. keeps (length h) (h @ ext) h' \<longrightarrow> rel_prod (d1 h') (d2 h') y v)"
    by (intro exI [of _ "(y, z)"] exI [of _ "e @ e'"]) (simp add: copy_both_def x)
qed (auto simp: rel_prod_sel intro: deep_copier.stable [OF assms(1)] deep_copier.stable [OF assms(2)])

lemma part_copier:
  assumes c: "deep_copier copy den"
    and "\<And>x h. copy' x h = map_option (apfst (build x)) (copy (part x) h)"
    and "\<And>h x v. den' h x v \<longleftrightarrow> same x v \<and> den h (part x) (vpart v)"
    and "\<And>x y. part (build x y) = y" and "\<And>x y v. same x v \<Longrightarrow> same (build x y) v"
  shows "deep_copier copy' den'"
proof unfold_locales
  fix h x v assume d: "den' h x v"
  then have "den h (part x) (vpart v)" "same x v" by (simp_all add: assms(3))
  with deep_copier.copies [OF c this(1)] show "\<exists>y ext. copy' x h = Some (y, h @ ext) \<and>
      (\<forall>h'. keeps (length h) (h @ ext) h' \<longrightarrow> den' h' y v)"
    by (fastforce simp: assms)
qed (use assms(3) deep_copier.stable [OF c] in blast)

lemma driver_copier: "deep_copier DeepCopyInto_DriverSpec (\<lambda>h. rel_DriverMem (bool_at h))"
  by (rule part_copier [where part = md_Enable and vpart = md_Enable and build = "\<lambda>x p. DriverMem p"
        and same = "\<lambda>x v. True", OF bools.option_copier])
    (auto simp: DeepCopyInto_DriverSpec_def DriverMem.rel_sel split: Option.bind_splits)

lemma plugin_copier: "deep_copier DeepCopyInto_DevicePluginSpec (\<lambda>h. rel_DevicePluginMem (bool_at h))"
  by (rule part_copier [where part = mp_Enable and vpart = mp_Enable
        and build = "\<lambda>x p. DevicePluginMem p (mp_ImagePullPolicy x)"
        and same = "\<lambda>x v. mp_ImagePullPolicy x = mp_ImagePullPolicy v", OF bools.option_copier])
    (auto simp: DeepCopyInto_DevicePluginSpec_def DevicePluginMem.rel_sel split: Option.bind_splits)

lemma exporter_copier: "deep_copier DeepCopyInto_MetricsExporterSpec (\<lambda>h. rel_MetricsExporterMem (bool_at h))"
  by (rule part_copier [where part = me_Enable_at and vpart = me_Enable_at and build = "\<lambda>x p. MetricsExporterMem p"
        and same = "\<lambda>x v. True", OF bools.option_copier])
    (auto simp: DeepCopyInto_MetricsExporterSpec_def MetricsExporterMem.rel_sel split: Option.bind_splits)

lemma spec_copier: "deep_copier DeepCopyInto_DeviceConfigSpec spec_in"
  by (rule part_copier [where part = "\<lambda>x. (ms_Driver x, ms_DevicePlugin x, ms_MetricsExporter x, ms_NodeSelector x)"
        and vpart = "\<lambda>x. (ms_Driver x, ms_DevicePlugin x, ms_MetricsExporter x, ms_NodeSelector x)"
        and build = "\<lambda>x (d, p, e, s). SpecMem d p e s (ms_CommonConfig x) (ms_ComputePartition x)"
        and same = "\<lambda>x v. ms_CommonConfig x = ms_CommonConfig v \<and> ms_ComputePartition x = ms_ComputePartition v",
        OF both_copier [OF driver_copier both_copier [OF plugin_copier both_copier [OF exporter_copier maps.option_copier]]]])
    (auto simp: DeepCopyInto_DeviceConfigSpec_def copy_both_def spec_in_def SpecMem.rel_sel split: Option.bind_splits)

lemma status_copier:
  assumes "deep_copier (copyCondition api) cond"
  shows "deep_copier (DeepCopyInto_DeviceConfigStatus api) (status_in cond)"
proof -
  have "deep_copier (copy_slice ConditionsCell un_conditions (zeroCondition api) (copyCondition api))
      (\<lambda>h. points_to un_conditions (list_all2 (cond h)) h)"
    by (rule deep_copier.slice_copier [OF assms]) simp
  from deep_copier.option_copier [OF this] show ?thesis
    by (rule part_copier [where part = mt_Conditions and vpart = mt_Conditions
          and build = "\<lambda>x p. StatusMem (mt_DevicePluginReady x) (mt_MetricsExporterReady x) p"
          and same = "\<lambda>x v. mt_DevicePluginReady x = mt_DevicePluginReady v \<and>
            mt_MetricsExporterReady x = mt_MetricsExporterReady v"])
      (auto simp: DeepCopyInto_DeviceConfigStatus_def status_in_def StatusMem.rel_sel split: Option.bind_splits)
qed

lemma config_copier:
  assumes "deep_copier (copyMeta api) meta" "deep_copier (copyCondition api) cond"
  shows "deep_copier (DeepCopyInto_DeviceConfig api) (config_in meta cond)"
  by (rule part_copier [where part = "\<lambda>x. (mc_ObjectMeta x, mc_Spec x, mc_Status x)"
        and vpart = "\<lambda>x. (mc_ObjectMeta x, mc_Spec x, mc_Status x)"
        and build = "\<lambda>x (m, s, t). ConfigMem (mc_TypeMeta x) m s t"
        and same = "\<lambda>x v. mc_TypeMeta x = mc_TypeMeta v",
        OF both_copier [OF assms(1) both_copier [OF spec_copier status_copier [OF assms(2)]]]])
    (auto simp: DeepCopyInto_DeviceConfig_def copy_both_def config_in_def split: Option.bind_splits)

lemma list_copier:
  assumes "deep_copier (copyMeta api) meta" "deep_copier (copyListMeta api) lmeta" "deep_copier (copyCondition api) cond"
  shows "deep_copier (DeepCopyInto_DeviceConfigList api) (list_in meta lmeta cond)"
proof -
  have "deep_copier (copy_slice ConfigsCell un_configs (zero_config api) (DeepCopyInto_DeviceConfig api))
      (\<lambda>h. points_to un_configs (list_all2 (config_in meta cond h)) h)"
    by (rule deep_copier.slice_copier [OF config_copier [OF assms(1,3)]]) simp
  from both_copier [OF assms(2) deep_copier.option_copier [OF this]] show ?thesis
    by (rule part_copier [where part = "\<lambda>x. (ml_ListMeta x, ml_Items x)" and vpart = "\<lambda>x. (ml_ListMeta x, ml_Items x)"
          and build = "\<lambda>x (m, p). ListMem (ml_TypeMeta x) m p" and same = "\<lambda>x v. ml_TypeMeta x = ml_TypeMeta v"])
      (auto simp: DeepCopyInto_DeviceConfigList_def copy_both_def list_in_def ListMem.rel_sel split: Option.bind_splits)
qed

section \<open>Copies are independent\<close>

text \<open>Later writes through any pointers.\<close>

definition mutate :: "(addr \<times> 'c) list \<Rightarrow> 'c list \<Rightarrow> 'c list" where
  "mutate ws h = fold (\<lambda>(a, c) h. h[a := c]) ws h"

lemma keeps_mutate:
  "list_all (\<lambda>(a, c). a < n \<or> length h \<le> a) ws \<Longrightarrow> keeps n h (mutate ws (h @ ext))"
proof (induction ws arbitrary: h ext)
  case (Cons w ws)
  obtain a c where w: "w = (a, c)" by (cases w)
  have k: "keeps n h (h[a := c])" if "a < n \<or> length h \<le> a" using that by (auto simp: keeps_def nth_list_update)
  show ?case
  proof (cases "a < length h")
    case True
    with Cons.prems w have "keeps n (h[a := c]) (mutate ws (h[a := c] @ ext))" by (intro Cons.IH) auto
    with k Cons.prems w True show ?thesis by (auto simp: mutate_def list_update_append intro: keeps_trans)
  next
    case False
    with Cons.prems w have "keeps n h (mutate ws (h @ ext[a - length h := c]))" by (intro Cons.IH) auto
    with w False show ?thesis by (simp add: mutate_def list_update_append)
  qed
qed (simp add: mutate_def)

definition config_at ::
  "(('x, 'c, 'm, 'l) heap \<Rightarrow> 'm \<Rightarrow> 'n \<Rightarrow> bool) \<Rightarrow> (('x, 'c, 'm, 'l) heap \<Rightarrow> 'c \<Rightarrow> 'v \<Rightarrow> bool) \<Rightarrow>
   ('x, 'c, 'm, 'l) heap \<Rightarrow> addr \<Rightarrow> ('n, 'v) config_value \<Rightarrow> bool" where
  "config_at meta cond h = points_to un_config (config_in meta cond h) h"

definition list_at ::
  "(('x, 'c, 'm, 'l) heap \<Rightarrow> 'm \<Rightarrow> 'n \<Rightarrow> bool) \<Rightarrow> (('x, 'c, 'm, 'l) heap \<Rightarrow> 'l \<Rightarrow> 'k \<Rightarrow> bool) \<Rightarrow>
   (('x, 'c, 'm, 'l) heap \<Rightarrow> 'c \<Rightarrow> 'v \<Rightarrow> bool) \<Rightarrow> ('x, 'c, 'm, 'l) heap \<Rightarrow> addr \<Rightarrow>
   ('k, ('n, 'v) config_value list) ListMem \<Rightarrow> bool" where
  "list_at meta lmeta cond h = points_to un_list (list_in meta lmeta cond h) h"

text \<open>
  An independent copy: it lies in new cells and denotes the value; writes to the new cells do not reach the original,
  and writes to the old ones do not reach the copy.
\<close>

definition independent_copy ::
  "('c list \<Rightarrow> addr \<Rightarrow> 'v \<Rightarrow> bool) \<Rightarrow> 'c list \<Rightarrow> addr \<Rightarrow> 'c list \<Rightarrow> addr \<Rightarrow> 'v \<Rightarrow> bool" where
  "independent_copy at h p h1 q v \<longleftrightarrow>
     length h \<le> q \<and> at h1 q v \<and>
     (\<forall>ws. list_all (\<lambda>(a, _). length h \<le> a) ws \<longrightarrow> at (mutate ws h1) p v) \<and>
     (\<forall>ws. list_all (\<lambda>(a, _). a < length h) ws \<longrightarrow> at (mutate ws h1) q v)"

lemma deep_copy_independent:
  assumes "deep_copier copy den" "\<And>x. un (mk x) = Some x" "points_to un (den h) h p v"
  shows "\<exists>q h1. deep_copy mk un zero copy (Some p) h = Some (Some q, h1) \<and>
    independent_copy (\<lambda>h. points_to un (den h) h) h p h1 q v"
proof -
  from deep_copier.deep_copy_copies [OF assms, of zero] obtain ext where
    c: "deep_copy mk un zero copy (Some p) h = Some (Some (length h), h @ ext)"
    and new: "\<And>h'. keeps (length h) (h @ ext) h' \<Longrightarrow> points_to un (den h') h' (length h) v" by blast
  have old: "points_to un (den h') h' p v" if "keeps 0 h h'" for h'
    by (rule deep_copier.pointer_stable [OF assms(1,3) that])
  have "keeps 0 h (mutate ws (h @ ext))" if "list_all (\<lambda>(a, _). length h \<le> a) ws" for ws
    using that by (intro keeps_mutate) (auto simp: list_all_iff)
  moreover have "keeps (length h) (h @ ext) (mutate ws (h @ ext))" if "list_all (\<lambda>(a, _). a < length h) ws" for ws
    using keeps_mutate [of "length h" "h @ ext" ws "[]"] that by (auto simp: list_all_iff)
  moreover have "points_to un (den (h @ ext)) (h @ ext) (length h) v" by (rule new) (simp add: keeps_def)
  ultimately show ?thesis using c old new unfolding independent_copy_def by blast
qed

text \<open>
  C17. The generated deep copies are independent of their originals. When the copy functions of the API machinery
  meet the contract, the copy of a DeviceConfig and the copy of a DeviceConfigList exist, lie in newly
  allocated cells and denote the same value, a nil pointer staying nil and a nil map staying nil. Whatever is
  later written through pointers into the copy, the original, for example the one in the controller's cache, still
  denotes the value, and the other way round.
\<close>

theorem deep_copies_are_independent:
  assumes "deep_copier (copyMeta api) meta" "deep_copier (copyListMeta api) lmeta" "deep_copier (copyCondition api) cond"
    and "config_at meta cond h p v" "list_at meta lmeta cond h l vs"
  shows "(\<exists>q h1. DeepCopyObject_DeviceConfig api (Some p) h = Some (DeviceConfigObject q, h1) \<and>
      independent_copy (config_at meta cond) h p h1 q v) \<and>
    (\<exists>q h1. DeepCopyObject_DeviceConfigList api (Some l) h = Some (DeviceConfigListObject q, h1) \<and>
      independent_copy (list_at meta lmeta cond) h l h1 q vs)"
proof (intro conjI)
  have "\<exists>q h1. DeepCopy_DeviceConfig api (Some p) h = Some (Some q, h1) \<and>
      independent_copy (config_at meta cond) h p h1 q v"
    unfolding DeepCopy_DeviceConfig_def config_at_def
    by (rule deep_copy_independent [OF config_copier [OF assms(1,3)] _ assms(4) [unfolded config_at_def]]) simp
  then show "\<exists>q h1. DeepCopyObject_DeviceConfig api (Some p) h = Some (DeviceConfigObject q, h1) \<and>
      independent_copy (config_at meta cond) h p h1 q v"
    by (fastforce simp: DeepCopyObject_DeviceConfig_def)
  have "\<exists>q h1. DeepCopy_DeviceConfigList api (Some l) h = Some (Some q, h1) \<and>
      independent_copy (list_at meta lmeta cond) h l h1 q vs"
    unfolding DeepCopy_DeviceConfigList_def list_at_def
    by (rule deep_copy_independent [OF list_copier [OF assms(1-3)] _ assms(5) [unfolded list_at_def]]) simp
  then show "\<exists>q h1. DeepCopyObject_DeviceConfigList api (Some l) h = Some (DeviceConfigListObject q, h1) \<and>
      independent_copy (list_at meta lmeta cond) h l h1 q vs"
    by (fastforce simp: DeepCopyObject_DeviceConfigList_def)
qed

text \<open>Metadata with a name and a label map, conditions as strings, and a list of one DeviceConfig.\<close>

type_synonym demo_meta = "string \<times> addr option"

definition demo_api :: "(unit, string, demo_meta, unit) apimachinery" where
  "demo_api =
     \<lparr>zeroMeta = ([], None), copyMeta = copy_both (\<lambda>s h. Some (s, h)) (unless_nil copy_map),
      zeroListMeta = (), copyListMeta = (\<lambda>u h. Some (u, h)), zeroCondition = [], copyCondition = (\<lambda>c h. Some (c, h))\<rparr>"

lemma pure_copier: "deep_copier (\<lambda>x h. Some (x, h)) (\<lambda>h. (=))"
  by unfold_locales simp_all

definition demo_struct :: "demo_meta config" where
  "demo_struct = ConfigMem (''DeviceConfig'', ''amd.com/v1alpha1'') (''default'', Some 0)
     (SpecMem (DriverMem None) (DevicePluginMem (Some 1) ''Always'') (MetricsExporterMem (Some 1)) (Some 0)
       \<lparr>InitContainerImage = ''busybox''\<rparr> \<lparr>Mode = ''cpx'', Count = 8\<rparr>)
     (StatusMem True False (Some 2))"

definition demo_heap :: "(unit, string, demo_meta, unit) heap" where
  "demo_heap =
     [MapCell [(''zone'', ''a'')], BoolCell True, ConditionsCell [''Ready''], ConfigCell demo_struct,
      ConfigsCell [demo_struct], ListCell (ListMem ([], []) () (Some 4))]"

definition demo_value :: "(string \<times> labels option, string) config_value" where
  "demo_value = ConfigMem (''DeviceConfig'', ''amd.com/v1alpha1'') (''default'', Some [(''zone'', ''a'')])
     (SpecMem (DriverMem None) (DevicePluginMem (Some True) ''Always'') (MetricsExporterMem (Some True))
       (Some [(''zone'', ''a'')]) \<lparr>InitContainerImage = ''busybox''\<rparr> \<lparr>Mode = ''cpx'', Count = 8\<rparr>)
     (StatusMem True False (Some [''Ready'']))"

theorem deep_copies_are_independent_witness:
  "\<exists>q h1. DeepCopyObject_DeviceConfig demo_api (Some 3) demo_heap = Some (DeviceConfigObject q, h1) \<and>
     config_at (\<lambda>h. rel_prod (=) (rel_option (map_at h))) (\<lambda>h. (=)) (mutate [(q, BoolCell False)] h1) 3 demo_value"
proof -
  let ?meta = "\<lambda>h :: (unit, string, demo_meta, unit) heap. rel_prod (=) (rel_option (map_at h))"
  let ?cond = "\<lambda>h :: (unit, string, demo_meta, unit) heap. (=)"
  have copiers: "deep_copier (copyMeta demo_api) ?meta" "deep_copier (copyListMeta demo_api) (\<lambda>h. (=))"
    "deep_copier (copyCondition demo_api) ?cond"
    unfolding demo_api_def apimachinery.simps
    by (rule both_copier [OF pure_copier maps.option_copier] pure_copier)+
  have struct: "config_in ?meta ?cond demo_heap demo_struct demo_value"
    by (auto simp: config_in_def spec_in_def status_in_def demo_struct_def demo_value_def demo_heap_def bool_at_def
        map_at_def points_to_def same_map_def deref_def cell_at_def)
  have at: "config_at ?meta ?cond demo_heap 3 demo_value"
    "list_at ?meta (\<lambda>h. (=)) ?cond demo_heap 5 (ListMem ([], []) () (Some [demo_value]))"
    using struct by (simp_all add: config_at_def list_at_def list_in_def points_to_def deref_def cell_at_def demo_heap_def)
  from deep_copies_are_independent [OF copiers at] obtain q h1 where
    "DeepCopyObject_DeviceConfig demo_api (Some 3) demo_heap = Some (DeviceConfigObject q, h1)"
    "independent_copy (config_at ?meta ?cond) demo_heap 3 h1 q demo_value" by blast
  moreover from this(2) have "config_at ?meta ?cond (mutate [(q, BoolCell False)] h1) 3 demo_value"
    unfolding independent_copy_def by (elim conjE allE [of _ "[(q, BoolCell False)]"]) simp
  ultimately show ?thesis by blast
qed

end
