(* ===== verification/Supervision.thy ===== *)
theory Supervision
  imports Prelude
begin

text \<open>
  How the operator processes run and stop. Each \<open>Run\<close> function with helpers starts goroutines, then waits in a
  \<open>select\<close> for the cancellation of its context (SIGTERM) or for an error on the buffered channel \<open>errCh\<close>. This
  theory has the part the processes share, as a step relation over the main goroutine, the channel, the helper
  goroutines and their world; what a goroutine does between two waits is a parameter. When \<open>main\<close> returns, the
  process ends and takes its goroutines with it.
\<close>

section \<open>Processes\<close>

datatype ('p, 'e) goroutine =
    Running 'p
  | Sending 'e \<comment> \<open>at \<open>errCh <- err\<close>\<close>
  | Ended

datatype 'e main_state =
    Selecting
  | ShuttingDown
  | RunReturned "'e option"
  | Exited "'e option"

text \<open>
  External steps are chosen by the environment: signals, timers, clients and failures of the host. Internal steps
  are those the program takes by itself.
\<close>

datatype step_kind = Internal | External

record ('p, 'e, 'w) code =
  errCh_cap :: nat
  moves :: "bool \<Rightarrow> 'p \<Rightarrow> 'w \<Rightarrow> step_kind \<Rightarrow> ('p, 'e) goroutine \<Rightarrow> 'w \<Rightarrow> bool" \<comment> \<open>the flag: the context is cancelled\<close>
  drifts :: "'w \<Rightarrow> 'w \<Rightarrow> bool" \<comment> \<open>what others do to the world\<close>
  clean :: "'e \<Rightarrow> bool" \<comment> \<open>errors that \<open>Run\<close> maps to nil\<close>
  on_cancel :: "'w \<Rightarrow> 'w" \<comment> \<open>the branch \<open>case <-ctx.Done()\<close> up to its return\<close>

record ('p, 'e, 'w) proc =
  cancelled :: bool
  errCh :: "'e list"
  main :: "'e main_state"
  workers :: "('p, 'e) goroutine list"
  world :: 'w

fun exited :: "'e main_state \<Rightarrow> bool" where
  "exited (Exited _) = True"
| "exited _ = False"

text \<open>The \<open>select\<close> of \<open>Run\<close>, its return, and the exit of \<open>main\<close>.\<close>

inductive proc_step ::
  "('p, 'e, 'w) code \<Rightarrow> step_kind \<Rightarrow> ('p, 'e, 'w) proc \<Rightarrow> ('p, 'e, 'w) proc \<Rightarrow> bool" for P where
  signal: "\<not> exited (main s) \<Longrightarrow> proc_step P External s (s\<lparr>cancelled := True\<rparr>)"
| environment: "\<not> exited (main s) \<Longrightarrow> drifts P (world s) w \<Longrightarrow> proc_step P External s (s\<lparr>world := w\<rparr>)"
| worker_moves: "\<not> exited (main s) \<Longrightarrow> i < length (workers s) \<Longrightarrow> workers s ! i = Running p \<Longrightarrow>
    moves P (cancelled s) p (world s) k g w \<Longrightarrow>
    proc_step P k s (s\<lparr>workers := (workers s)[i := g], world := w\<rparr>)"
| worker_sends: "\<not> exited (main s) \<Longrightarrow> i < length (workers s) \<Longrightarrow> workers s ! i = Sending e \<Longrightarrow>
    length (errCh s) < errCh_cap P \<Longrightarrow>
    proc_step P Internal s (s\<lparr>workers := (workers s)[i := Ended], errCh := errCh s @ [e]\<rparr>)"
| main_cancelled: "main s = Selecting \<Longrightarrow> cancelled s \<Longrightarrow>
    proc_step P Internal s (s\<lparr>main := ShuttingDown, world := on_cancel P (world s)\<rparr>)"
| main_stopped: "main s = ShuttingDown \<Longrightarrow> proc_step P Internal s (s\<lparr>main := RunReturned None\<rparr>)"
| main_failed: "main s = Selecting \<Longrightarrow> errCh s = e # es \<Longrightarrow>
    proc_step P Internal s (s\<lparr>main := RunReturned (if clean P e then None else Some e), errCh := es\<rparr>)"
| main_exits: "main s = RunReturned r \<Longrightarrow> proc_step P Internal s (s\<lparr>main := Exited r\<rparr>)"

inductive_cases proc_stepE: "proc_step P k s s'"

text \<open>A run, with the number of its internal and of its external steps.\<close>

inductive proc_run ::
  "('p, 'e, 'w) code \<Rightarrow> ('p, 'e, 'w) proc \<Rightarrow> nat \<Rightarrow> nat \<Rightarrow> ('p, 'e, 'w) proc \<Rightarrow> bool" for P s0 where
  run_start: "proc_run P s0 0 0 s0"
| run_internal: "proc_run P s0 i t s \<Longrightarrow> proc_step P Internal s s' \<Longrightarrow> proc_run P s0 (Suc i) t s'"
| run_external: "proc_run P s0 i t s \<Longrightarrow> proc_step P External s s' \<Longrightarrow> proc_run P s0 i (Suc t) s'"

definition launched :: "('p, 'e) goroutine list \<Rightarrow> 'w \<Rightarrow> ('p, 'e, 'w) proc" where
  "launched ws w = \<lparr>cancelled = False, errCh = [], main = Selecting, workers = ws, world = w\<rparr>"

lemma launched_fields [simp]:
  "cancelled (launched ws w) = False" "errCh (launched ws w) = []" "main (launched ws w) = Selecting"
  "workers (launched ws w) = ws" "world (launched ws w) = w"
  by (simp_all add: launched_def)

text \<open>The exit code of the binary: \<open>main\<close> prints an error and exits with 1.\<close>

fun exit_code :: "'e main_state \<Rightarrow> nat option" where
  "exit_code (Exited None) = Some 0"
| "exit_code (Exited (Some _)) = Some 1"
| "exit_code _ = None"

section \<open>Invariants and progress\<close>

lemma run_invariant:
  assumes "proc_run P s0 i t s" "I s0" "\<And>k s s'. proc_step P k s s' \<Longrightarrow> I s \<Longrightarrow> I s'"
  shows "I s"
  using assms(1,2)
proof induction
  case (run_internal i t s s')
  have "I s" by (rule run_internal.IH [OF run_internal.prems])
  with run_internal.hyps(2) show ?case by (rule assms(3))
next
  case (run_external i t s s')
  have "I s" by (rule run_external.IH [OF run_external.prems])
  with run_external.hyps(2) show ?case by (rule assms(3))
qed

lemma cancelled_stays: "proc_step P k s s' \<Longrightarrow> cancelled s \<Longrightarrow> cancelled s'"
  by (erule proc_step.cases) auto

text \<open>What the goroutines, the environment and the cancellation keep of the world holds in every run.\<close>

lemma world_invariant:
  assumes "proc_run P s0 i t s" "I (world s0)" "\<And>c p w k g w'. moves P c p w k g w' \<Longrightarrow> I w \<Longrightarrow> I w'"
    and "\<And>w w'. drifts P w w' \<Longrightarrow> I w \<Longrightarrow> I w'" "\<And>w. I w \<Longrightarrow> I (on_cancel P w)"
  shows "I (world s)"
  using assms(1,2)
proof (rule run_invariant [where I = "\<lambda>s. I (world s)"])
  fix k s s' assume "proc_step P k s s'" "I (world s)"
  then show "I (world s')" by (cases rule: proc_step.cases) (simp_all add: assms(3-5))
qed

text \<open>A cancelled process is never stuck: the main goroutine alone can always go on to the exit.\<close>

lemma cancelled_progress:
  assumes "cancelled s" "\<not> exited (main s)"
  shows "\<exists>s'. proc_step P Internal s s'"
proof (cases "main s")
  case Selecting
  from main_cancelled [OF this assms(1)] show ?thesis by (rule exI)
next
  case ShuttingDown
  from main_stopped [OF this] show ?thesis by (rule exI)
next
  case (RunReturned r)
  from main_exits [OF this] show ?thesis by (rule exI)
qed (use assms(2) in simp)

lemma run_trans:
  assumes "proc_run P s i' t' s'" "proc_run P s0 i t s"
  shows "proc_run P s0 (i + i') (t + t') s'"
  using assms by induction (auto intro: proc_run.intros)

text \<open>The signal can end a waiting process at once, whatever its goroutines have left to do.\<close>

lemma cancelled_exits:
  assumes "main s = Selecting" "cancelled s"
  shows "\<exists>s'. proc_run P s 3 0 s' \<and> exit_code (main s') = Some 0 \<and> world s' = on_cancel P (world s)"
proof -
  let ?b = "s\<lparr>main := ShuttingDown, world := on_cancel P (world s)\<rparr>"
  let ?c = "?b\<lparr>main := RunReturned None\<rparr>"
  have "proc_run P s (Suc 0) 0 ?b" by (rule run_internal [OF run_start main_cancelled [OF assms]])
  then have "proc_run P s (Suc (Suc 0)) 0 ?c" by (rule run_internal [OF _ main_stopped]) simp
  then have "proc_run P s (Suc (Suc (Suc 0))) 0 (?c\<lparr>main := Exited None\<rparr>)"
    by (rule run_internal [OF _ main_exits]) simp
  then show ?thesis by (intro exI [of _ "?c\<lparr>main := Exited None\<rparr>"]) (simp add: numeral_3_eq_3)
qed

lemma interrupted:
  assumes "proc_run P s0 i t s" "main s = Selecting"
  shows "\<exists>s'. proc_run P s0 (i + 3) (t + 1) s' \<and> exit_code (main s') = Some 0 \<and> world s' = on_cancel P (world s)"
proof -
  have "proc_run P s0 i (t + 1) (s\<lparr>cancelled := True\<rparr>)"
    using run_external [OF assms(1) signal] assms(2) by simp
  with cancelled_exits [of "s\<lparr>cancelled := True\<rparr>" P] assms(2) show ?thesis
    using run_trans by fastforce
qed

fun goroutine_rank :: "('p \<Rightarrow> nat) \<Rightarrow> ('p, 'e) goroutine \<Rightarrow> nat" where
  "goroutine_rank rank (Running p) = rank p + 2"
| "goroutine_rank rank (Sending e) = 1"
| "goroutine_rank rank Ended = 0"

fun main_rank :: "'e main_state \<Rightarrow> nat" where
  "main_rank Selecting = 3"
| "main_rank ShuttingDown = 2"
| "main_rank (RunReturned r) = 1"
| "main_rank (Exited r) = 0"

definition proc_rank :: "('p \<Rightarrow> nat) \<Rightarrow> ('p, 'e, 'w) proc \<Rightarrow> nat" where
  "proc_rank rank s = main_rank (main s) + sum_list (map (goroutine_rank rank) (workers s))"

fun may_send :: "('p \<Rightarrow> bool) \<Rightarrow> ('p, 'e) goroutine \<Rightarrow> bool" where
  "may_send sends (Running p) = sends p"
| "may_send sends (Sending e) = True"
| "may_send sends Ended = False"

definition pending :: "('p \<Rightarrow> bool) \<Rightarrow> ('p, 'e, 'w) proc \<Rightarrow> nat" where
  "pending sends s = length (errCh s) + sum_list (map (\<lambda>g. of_bool (may_send sends g)) (workers s))"

lemma sum_list_replace:
  fixes f :: "'a \<Rightarrow> nat"
  shows "i < length xs \<Longrightarrow> sum_list (map f (xs[i := g])) + f (xs ! i) = sum_list (map f xs) + f g"
proof (induction xs arbitrary: i)
  case (Cons x xs)
  then show ?case by (cases i) (auto simp: add_ac)
qed simp

lemma sum_list_bounded:
  fixes f :: "'a \<Rightarrow> nat"
  shows "(\<And>x. x \<in> set xs \<Longrightarrow> f x \<le> b) \<Longrightarrow> length xs \<le> n \<Longrightarrow> sum_list (map f xs) \<le> b * n"
proof (induction xs arbitrary: n)
  case (Cons x xs)
  then obtain m where n: "n = Suc m" "length xs \<le> m" by (cases n) auto
  with Cons have "sum_list (map f xs) \<le> b * m" "f x \<le> b" by auto
  with n(1) show ?case by simp
qed simp

lemma workers_length:
  assumes "proc_run P s0 i t s" shows "length (workers s) = length (workers s0)"
  using assms
proof (rule run_invariant [where I = "\<lambda>s. length (workers s) = length (workers s0)"])
  fix k s s' assume "proc_step P k s s'" "length (workers s) = length (workers s0)"
  then show "length (workers s') = length (workers s0)" by (cases rule: proc_step.cases) simp_all
qed simp

text \<open>What is known of an error that left a goroutine, and of a process that returned.\<close>

fun result_ok :: "('e \<Rightarrow> bool) \<Rightarrow> ('e \<Rightarrow> bool) \<Rightarrow> bool \<Rightarrow> 'e option \<Rightarrow> bool" where
  "result_ok fails clean_error c None = (c \<or> (\<exists>e. fails e \<and> clean_error e))"
| "result_ok fails clean_error c (Some e) = (fails e \<and> \<not> clean_error e)"

fun main_ok :: "('e \<Rightarrow> bool) \<Rightarrow> ('e \<Rightarrow> bool) \<Rightarrow> bool \<Rightarrow> 'e main_state \<Rightarrow> bool" where
  "main_ok fails clean_error c Selecting = True"
| "main_ok fails clean_error c ShuttingDown = c"
| "main_ok fails clean_error c (RunReturned r) = result_ok fails clean_error c r"
| "main_ok fails clean_error c (Exited r) = result_ok fails clean_error c r"

definition outcome_ok :: "('e \<Rightarrow> bool) \<Rightarrow> ('e \<Rightarrow> bool) \<Rightarrow> ('p, 'e, 'w) proc \<Rightarrow> bool" where
  "outcome_ok fails clean_error s \<longleftrightarrow>
     (\<forall>e \<in> set (errCh s). fails e) \<and> (\<forall>e. Sending e \<in> set (workers s) \<longrightarrow> fails e) \<and>
     main_ok fails clean_error (cancelled s) (main s)"

lemma main_ok_cancel: "main_ok fails clean_error c m \<Longrightarrow> main_ok fails clean_error True m"
proof (cases m)
  case (RunReturned r)
  then show "main_ok fails clean_error c m \<Longrightarrow> ?thesis" by (cases r) auto
next
  case (Exited r)
  then show "main_ok fails clean_error c m \<Longrightarrow> ?thesis" by (cases r) auto
qed simp_all

text \<open>
  The contract of the goroutines: \<open>rank\<close> bounds what is left of a goroutine once the context is cancelled, an external
  step adds at most one to it; only goroutines with \<open>sends\<close> send, and only errors with \<open>fails\<close>.
\<close>

locale supervised =
  fixes P :: "('p, 'e, 'w) code" and rank :: "'p \<Rightarrow> nat" and sends :: "'p \<Rightarrow> bool" and fails :: "'e \<Rightarrow> bool"
  assumes moves_down: "moves P True p w Internal g w' \<Longrightarrow> goroutine_rank rank g < rank p + 2"
    and moves_up: "moves P True p w External g w' \<Longrightarrow> goroutine_rank rank g \<le> rank p + 3"
    and moves_sends: "moves P c p w k g w' \<Longrightarrow> may_send sends g \<Longrightarrow> sends p"
    and moves_fails: "moves P c p w k (Sending e) w' \<Longrightarrow> fails e"
begin

lemma internal_rank:
  assumes "proc_step P Internal s s'" "cancelled s"
  shows "proc_rank rank s' < proc_rank rank s"
  using assms
proof (cases rule: proc_step.cases)
  case (worker_moves i p g w)
  with assms(2) have "goroutine_rank rank g < goroutine_rank rank (workers s ! i)" by (auto dest: moves_down)
  with sum_list_replace [of i "workers s" "goroutine_rank rank" g] worker_moves show ?thesis
    by (simp add: proc_rank_def)
next
  case (worker_sends i e)
  with sum_list_replace [of i "workers s" "goroutine_rank rank" Ended] show ?thesis by (simp add: proc_rank_def)
qed (simp_all add: proc_rank_def)

lemma external_rank:
  assumes "proc_step P External s s'" "cancelled s"
  shows "proc_rank rank s' \<le> proc_rank rank s + 1"
  using assms
proof (cases rule: proc_step.cases)
  case (worker_moves i p g w)
  with assms(2) have "goroutine_rank rank g \<le> goroutine_rank rank (workers s ! i) + 1" by (auto dest: moves_up)
  with sum_list_replace [of i "workers s" "goroutine_rank rank" g] worker_moves show ?thesis
    by (simp add: proc_rank_def)
qed (simp_all add: proc_rank_def)

text \<open>After the cancellation the internal steps are bounded by the rank and the number of external steps.\<close>

lemma shutdown_bounded:
  assumes "proc_run P s i t s'" "cancelled s"
  shows "cancelled s' \<and> proc_rank rank s' + i \<le> proc_rank rank s + t"
  using assms
proof induction
  case (run_internal i t s s')
  then show ?case using internal_rank [of s s'] cancelled_stays [of P Internal s s'] by fastforce
next
  case (run_external i t s s')
  then show ?case using external_rank [of s s'] cancelled_stays [of P External s s'] by fastforce
qed simp

text \<open>The messages in the channel and those still to come never become more.\<close>

lemma pending_step:
  assumes "proc_step P k s s'"
  shows "pending sends s' \<le> pending sends s"
  using assms
proof (cases rule: proc_step.cases)
  case (worker_moves i p g w)
  then have "of_bool (may_send sends g) \<le> (of_bool (may_send sends (workers s ! i)) :: nat)"
    by (auto dest: moves_sends)
  with sum_list_replace [of i "workers s" "\<lambda>g. of_bool (may_send sends g)" g] worker_moves show ?thesis
    by (cases "may_send sends g") (auto simp: pending_def)
next
  case (worker_sends i e)
  with sum_list_replace [of i "workers s" "\<lambda>g. of_bool (may_send sends g)" Ended] show ?thesis
    by (simp add: pending_def)
qed (simp_all add: pending_def)

lemma send_never_blocks:
  assumes "proc_run P s0 i t s" "pending sends s0 \<le> errCh_cap P" "Sending e \<in> set (workers s)"
  shows "length (errCh s) < errCh_cap P"
proof -
  have "pending sends s \<le> errCh_cap P"
    using assms(1,2) by (rule run_invariant [where I = "\<lambda>s. pending sends s \<le> errCh_cap P"])
      (rule order_trans [OF pending_step])
  moreover have "(1 :: nat) \<in> set (map (\<lambda>g. of_bool (may_send sends g)) (workers s))"
    using assms(3) by force
  then have "1 \<le> sum_list (map (\<lambda>g. of_bool (may_send sends g) :: nat) (workers s))"
    by (rule member_le_sum_list) simp
  ultimately show ?thesis by (simp add: pending_def)
qed

lemma outcome_step:
  assumes "proc_step P k s s'" "outcome_ok fails (clean P) s"
  shows "outcome_ok fails (clean P) s'"
  using assms
proof (cases rule: proc_step.cases)
  case (worker_moves i p g w)
  have "fails e" if "Sending e \<in> set ((workers s)[i := g])" for e
    using that set_update_subset_insert [of "workers s" i g] assms(2) moves_fails worker_moves(5)
    by (auto simp: outcome_ok_def)
  with assms(2) worker_moves(1) show ?thesis by (auto simp: outcome_ok_def)
next
  case (worker_sends i e)
  have "Sending x \<in> set (workers s)" if "Sending x \<in> set ((workers s)[i := Ended])" for x
    using that set_update_subset_insert [of "workers s" i Ended] by auto
  moreover have "Sending e \<in> set (workers s)" using worker_sends by (metis nth_mem)
  ultimately show ?thesis
    using assms(2) worker_sends(2) by (auto simp: outcome_ok_def)
qed (auto simp: outcome_ok_def intro: main_ok_cancel)

lemma outcome:
  assumes "proc_run P (launched ws w) i t s" "\<forall>e. Sending e \<notin> set ws"
  shows "outcome_ok fails (clean P) s"
  using assms(1)
proof (rule run_invariant [where I = "outcome_ok fails (clean P)"])
  show "outcome_ok fails (clean P) (launched ws w)" using assms(2) by (simp add: outcome_ok_def)
qed (rule outcome_step)

end

end
