(* ===== verification/Plugin_Process.thy ===== *)
theory Plugin_Process
  imports Supervision Processes
begin

text \<open>
  The device-plugin process from the start of its goroutines to its end (\<open>internal/deviceplugin/run.go\<close>, lines
  70 to 89): the annotator's loop (\<open>PodResourcesAnnotator.Run\<close>) and the server (\<open>Server.Run\<close>) beside the main
  goroutine. The server's calls to the host are those of \<open>Device_Plugin\<close>, one step each.
\<close>

section \<open>The goroutines\<close>

datatype server_item = Do sys_call | AwaitCancel

datatype plugin_error = ServerFailed server_error | AnnotatorFailed string

datatype plugin_work =
    ServerScript "server_item list" \<comment> \<open>what is left of \<open>Server.Run\<close>\<close>
  | AnnotatorDial
  | AnnotatorPass
  | AnnotatorSelect

record 'w plugin_world =
  calls :: "sys_call list"
  cluster :: 'w

text \<open>\<open>Server.Run\<close> as the calls of its parts with the wait for the cancellation between them.\<close>

definition server_script :: "string \<Rightarrow> outcomes \<Rightarrow> Server \<Rightarrow> server_item list \<times> server_error option" where
  "server_script version os s =
     (case start os s of
        (cs, Some e, s') \<Rightarrow> (map Do cs, Some e)
      | (cs, None, s') \<Rightarrow>
          (case register version os s' of
             (rcs, Some e) \<Rightarrow> (map Do (cs @ rcs @ fst (stop s')), Some e)
           | (rcs, None) \<Rightarrow> (map Do (cs @ rcs) @ AwaitCancel # map Do (fst (stop s')), None)))"

text \<open>What a device-plugin process was started with, and how its surroundings behave.\<close>

record 'w plugin_setting =
  ps_version :: string \<comment> \<open>the version constant of the kubelet API\<close>
  ps_outcomes :: outcomes
  ps_server :: Server
  ps_annotator :: "AnnotatorOptions option"
  ps_dial_ok :: bool \<comment> \<open>\<open>grpc.NewClient\<close> of the annotator\<close>
  ps_pass :: "string \<Rightarrow> 'w \<Rightarrow> 'w" \<comment> \<open>one \<open>reconcile\<close> for a resource, in the cluster of its time\<close>

definition setting_script :: "'w plugin_setting \<Rightarrow> server_item list \<times> server_error option" where
  "setting_script S = server_script (ps_version S) (ps_outcomes S) (ps_server S)"

inductive plugin_moves ::
  "'w plugin_setting \<Rightarrow> bool \<Rightarrow> plugin_work \<Rightarrow> 'w plugin_world \<Rightarrow> step_kind \<Rightarrow>
   (plugin_work, plugin_error) goroutine \<Rightarrow> 'w plugin_world \<Rightarrow> bool" for S c where
  server_calls: "plugin_moves S c (ServerScript (Do x # items)) w Internal
    (Running (ServerScript items)) (w\<lparr>calls := calls w @ [x]\<rparr>)"
| server_awaits: "c \<Longrightarrow> plugin_moves S c (ServerScript (AwaitCancel # items)) w Internal
    (Running (ServerScript items)) w"
| server_returns: "snd (setting_script S) = None \<Longrightarrow> plugin_moves S c (ServerScript []) w Internal Ended w"
| server_fails: "snd (setting_script S) = Some e \<Longrightarrow>
    plugin_moves S c (ServerScript []) w Internal (Sending (ServerFailed e)) w"
| annotator_dials: "ps_dial_ok S \<Longrightarrow> plugin_moves S c AnnotatorDial w Internal (Running AnnotatorPass) w"
| annotator_fails: "ps_annotator S = Some a \<Longrightarrow> \<not> ps_dial_ok S \<Longrightarrow>
    plugin_moves S c AnnotatorDial w Internal (Sending (AnnotatorFailed (an_SocketPath (annotator_defaults a)))) w"
| annotator_passes: "ps_annotator S = Some a \<Longrightarrow>
    plugin_moves S c AnnotatorPass w Internal (Running AnnotatorSelect)
      (w\<lparr>cluster := ps_pass S (an_ResourceName (annotator_defaults a)) (cluster w)\<rparr>)"
| annotator_ticks: "plugin_moves S c AnnotatorSelect w External (Running AnnotatorPass) w"
| annotator_ends: "c \<Longrightarrow> plugin_moves S c AnnotatorSelect w Internal Ended w"

inductive_cases plugin_movesE: "plugin_moves S c p w k g w'"

definition plugin_code :: "'w plugin_setting \<Rightarrow> (plugin_work, plugin_error, 'w plugin_world) code" where
  "plugin_code S =
     \<lparr>errCh_cap = 2, moves = plugin_moves S, drifts = (\<lambda>w w'. \<exists>x. w' = w\<lparr>cluster := x\<rparr>),
      clean = (\<lambda>_. False), on_cancel = (\<lambda>w. w)\<rparr>"

definition plugin_workers :: "'w plugin_setting \<Rightarrow> (plugin_work, plugin_error) goroutine list" where
  "plugin_workers S =
     (case ps_annotator S of None \<Rightarrow> [] | Some _ \<Rightarrow> [Running AnnotatorDial]) @
     [Running (ServerScript (fst (setting_script S)))]"

definition plugin_process :: "'w plugin_setting \<Rightarrow> 'w \<Rightarrow> (plugin_work, plugin_error, 'w plugin_world) proc" where
  "plugin_process S x = launched (plugin_workers S) \<lparr>calls = [], cluster = x\<rparr>"

section \<open>The contract of the goroutines\<close>

fun plugin_rank :: "plugin_work \<Rightarrow> nat" where
  "plugin_rank (ServerScript items) = length items"
| "plugin_rank AnnotatorDial = 2"
| "plugin_rank AnnotatorPass = 1"
| "plugin_rank AnnotatorSelect = 0"

fun plugin_fails :: "'w plugin_setting \<Rightarrow> plugin_error \<Rightarrow> bool" where
  "plugin_fails S (ServerFailed e) = (snd (setting_script S) = Some e)"
| "plugin_fails S (AnnotatorFailed p) = (ps_annotator S \<noteq> None \<and> \<not> ps_dial_ok S)"

text \<open>The calls of the part of the script that is done, and those still to come.\<close>

fun item_calls :: "server_item list \<Rightarrow> sys_call list" where
  "item_calls [] = []"
| "item_calls (Do x # items) = x # item_calls items"
| "item_calls (AwaitCancel # items) = item_calls items"

lemma item_calls_append [simp]: "item_calls (xs @ ys) = item_calls xs @ item_calls ys"
  by (induction xs rule: item_calls.induct) simp_all

lemma item_calls_Do [simp]: "item_calls (map Do cs) = cs"
  by (induction cs) simp_all

text \<open>The script is that of \<open>Server.Run\<close>.\<close>

lemma server_script_Run:
  "\<exists>s'. Run version os s = (item_calls (fst (server_script version os s)), snd (server_script version os s), s')"
  by (auto simp: server_script_def Run_def Let_def split: prod.splits option.splits)

lemma server_script_length: "length (fst (server_script version os s)) \<le> 9"
  by (auto simp: server_script_def start_def register_def stop_def Let_def split: prod.splits option.splits if_splits)

lemma plugin_code_fields [simp]:
  "errCh_cap (plugin_code S) = 2" "moves (plugin_code S) = plugin_moves S" "clean (plugin_code S) e = False"
  "on_cancel (plugin_code S) w = w" "drifts (plugin_code S) w w' = (\<exists>x. w' = w\<lparr>cluster := x\<rparr>)"
  by (simp_all add: plugin_code_def)

interpretation plugin: supervised "plugin_code S" plugin_rank "\<lambda>_. True" "plugin_fails S" for S :: "'w plugin_setting"
  by unfold_locales (auto elim: plugin_movesE)

section \<open>The calls of the process\<close>

text \<open>The server's goroutine is the last one; its calls and what is left of its script make up the script.\<close>

fun server_progress :: "'w plugin_setting \<Rightarrow> sys_call list \<Rightarrow> (plugin_work, plugin_error) goroutine \<Rightarrow> bool" where
  "server_progress S cs (Running (ServerScript items)) =
     (cs @ item_calls items = item_calls (fst (setting_script S)) \<and> length items \<le> 9)"
| "server_progress S cs (Running _) = False"
| "server_progress S cs _ = (cs = item_calls (fst (setting_script S)))"

definition is_annotator :: "(plugin_work, plugin_error) goroutine \<Rightarrow> bool" where
  "is_annotator g \<longleftrightarrow> (\<forall>items. g \<noteq> Running (ServerScript items))"

definition plugin_inv :: "'w plugin_setting \<Rightarrow> (plugin_work, plugin_error, 'w plugin_world) proc \<Rightarrow> bool" where
  "plugin_inv S s \<longleftrightarrow>
     (\<exists>as g. workers s = as @ [g] \<and> list_all is_annotator as \<and> length as \<le> 1 \<and>
       server_progress S (calls (world s)) g)"

lemma annotator_moves:
  "plugin_moves S c p w k g w' \<Longrightarrow> is_annotator (Running p) \<Longrightarrow> calls w' = calls w \<and> is_annotator g"
  by (auto simp: is_annotator_def elim: plugin_movesE)

lemma server_moves:
  "plugin_moves S c p w k g w' \<Longrightarrow> server_progress S (calls w) (Running p) \<Longrightarrow> server_progress S (calls w') g"
  by (auto elim: plugin_movesE)

lemma is_annotator_all_update: "list_all is_annotator as \<Longrightarrow> is_annotator g \<Longrightarrow> list_all is_annotator (as[i := g])"
  by (auto simp: list_all_iff dest: set_update_subset_insert [THEN subsetD])

lemma plugin_inv_step:
  assumes "proc_step (plugin_code S) k s s'" "plugin_inv S s"
  shows "plugin_inv S s'"
proof -
  from assms(2) obtain as h where h: "workers s = as @ [h]" "list_all is_annotator as" "length as \<le> 1"
    "server_progress S (calls (world s)) h" by (auto simp: plugin_inv_def)
  from assms(1) show ?thesis
  proof (cases rule: proc_step.cases)
    case (worker_moves i p g w)
    show ?thesis
    proof (cases "i < length as")
      case True
      with worker_moves h have "is_annotator (Running p)" by (auto simp: nth_append list_all_length)
      with worker_moves annotator_moves [of S _ p _ k g w] have "calls w = calls (world s)" "is_annotator g" by auto
      with True h worker_moves show ?thesis
        by (auto simp: plugin_inv_def list_update_append is_annotator_all_update)
    next
      case False
      with worker_moves h have "i = length as" "h = Running p" by (auto simp: nth_append)
      with worker_moves h server_moves [of S _ p _ k g w] show ?thesis by (auto simp: plugin_inv_def)
    qed
  next
    case (worker_sends i e)
    show ?thesis
    proof (cases "i < length as")
      case True
      with h worker_sends show ?thesis
        by (auto simp: plugin_inv_def list_update_append is_annotator_all_update is_annotator_def)
    next
      case False
      with worker_sends h have "i = length as" "h = Sending e" by (auto simp: nth_append)
      with worker_sends h show ?thesis by (auto simp: plugin_inv_def)
    qed
  qed (use h in \<open>auto simp: plugin_inv_def\<close>)
qed

lemma plugin_inv_start: "plugin_inv S (plugin_process S x)"
  using server_script_length [of "ps_version S" "ps_outcomes S" "ps_server S"]
  by (auto simp: plugin_inv_def plugin_process_def plugin_workers_def is_annotator_def setting_script_def
      split: option.splits)

lemma plugin_inv_run:
  assumes "proc_run (plugin_code S) (plugin_process S x) i t s"
  shows "plugin_inv S s"
  using assms plugin_inv_start by (rule run_invariant [where I = "plugin_inv S"]) (rule plugin_inv_step)

section \<open>Properties\<close>


text \<open>A server whose host grants everything, without an annotator.\<close>

definition quiet_setting :: "unit plugin_setting" where
  "quiet_setting =
     \<lparr>ps_version = ''v1beta1'', ps_outcomes = \<lparr>on_remove = NotExist, listen_ok = True, dial_ok = True, register_ok = True\<rparr>,
      ps_server = demo_server, ps_annotator = None, ps_dial_ok = True, ps_pass = (\<lambda>_ x. x)\<rparr>"


text \<open>
  C10. The device-plugin process stops when it is told to. From any state it can have reached when the signal has been
  delivered, the program can take at most 18 steps, plus one for every event the environment adds, such
  as a tick of the annotator's timer; and as long as the process has not exited it can take one. So a run
  with finitely many events after the signal ends, and it ends with the exit of the process.
\<close>

theorem plugin_stops_when_told:
  assumes "proc_run (plugin_code S) (plugin_process S x) i t s" "cancelled s"
    and "proc_run (plugin_code S) s i' t' s'"
  shows "i' \<le> 18 + t' \<and> (exited (main s') \<or> (\<exists>s''. proc_step (plugin_code S) Internal s' s''))"
proof -
  from plugin_inv_run [OF assms(1)] obtain as g where inv: "workers s = as @ [g]" "list_all is_annotator as"
    "length as \<le> 1" "server_progress S (calls (world s)) g" by (auto simp: plugin_inv_def)
  have "goroutine_rank plugin_rank g \<le> 11"
    using inv(4) by (cases "(S, calls (world s), g)" rule: server_progress.cases) auto
  moreover have "goroutine_rank plugin_rank a \<le> 4" if "is_annotator a" for a
  proof (cases a)
    case (Running p)
    with that show ?thesis by (cases p) (auto simp: is_annotator_def)
  qed auto
  then have "sum_list (map (goroutine_rank plugin_rank) as) \<le> 4"
    using inv(2,3) by (cases as) (auto simp: le_Suc_eq)
  moreover have "main_rank (main s) \<le> 3" by (cases "main s") auto
  ultimately have "proc_rank plugin_rank s \<le> 18" by (simp add: proc_rank_def inv(1))
  with plugin.shutdown_bounded [OF assms(3,2)] cancelled_progress show ?thesis by fastforce
qed

theorem plugin_stops_when_told_witness:
  "\<exists>i s'. proc_run (plugin_code quiet_setting) ((plugin_process quiet_setting ())\<lparr>cancelled := True\<rparr>) i 0 s' \<and>
     exit_code (main s') = Some 0 \<and> i \<le> 18"
proof -
  let ?s = "(plugin_process quiet_setting ())\<lparr>cancelled := True\<rparr>"
  have start: "proc_run (plugin_code quiet_setting) (plugin_process quiet_setting ()) 0 (Suc 0) ?s"
    by (rule run_external [OF run_start signal]) (simp add: plugin_process_def)
  obtain s' where s': "proc_run (plugin_code quiet_setting) ?s 3 0 s'" "exit_code (main s') = Some 0"
    using cancelled_exits [of ?s "plugin_code quiet_setting"] by (auto simp: plugin_process_def)
  moreover have "3 \<le> 18 + (0 :: nat)" using plugin_stops_when_told [OF start _ s'(1)] by simp
  ultimately show ?thesis by (intro exI [of _ 3] exI [of _ s']) simp
qed

text \<open>
  The teardown can be lost. \<open>Run\<close> does not wait for the server's goroutine: there is a run in which the server serves,
  the signal comes, and the process exits with code 0 before the server made a single call of its teardown;
  its socket file stays behind.
\<close>

lemma script_runs:
  assumes "proc_run (plugin_code S) s0 i t s" "\<not> exited (main s)" "n < length (workers s)"
    and "workers s ! n = Running (ServerScript (map Do cs @ rest))"
  shows "\<exists>i'. proc_run (plugin_code S) s0 i' t (s\<lparr>workers := (workers s)[n := Running (ServerScript rest)],
    world := (world s)\<lparr>calls := calls (world s) @ cs\<rparr>\<rparr>)"
  using assms
proof (induction cs arbitrary: i s)
  case Nil
  have "(workers s)[n := Running (ServerScript rest)] = workers s" using Nil(4) by (metis append_Nil list.simps(8) list_update_id)
  then show ?case using Nil(1) by auto
next
  case (Cons x cs)
  let ?s = "s\<lparr>workers := (workers s)[n := Running (ServerScript (map Do cs @ rest))],
    world := (world s)\<lparr>calls := calls (world s) @ [x]\<rparr>\<rparr>"
  have "proc_step (plugin_code S) Internal s ?s"
    using Cons.prems by (intro worker_moves) (auto intro: server_calls)
  with Cons.prems(1) have "proc_run (plugin_code S) s0 (Suc i) t ?s" by (rule run_internal)
  from Cons.IH [OF this] Cons.prems show ?case by simp
qed

lemma teardown_can_be_lost:
  "\<exists>i t s. proc_run (plugin_code quiet_setting) (plugin_process quiet_setting ()) i t s \<and>
     exit_code (main s) = Some 0 \<and> Serve \<in> set (calls (world s)) \<and>
     GracefulStop \<notin> set (calls (world s)) \<and> CloseListener \<notin> set (calls (world s)) \<and>
     (\<exists>pre. calls (world s) = pre @ [Register \<lparr>r_Version = ''v1beta1'', r_Endpoint = PluginSocketName,
        r_ResourceName = resourceName demo_server\<rparr>])"
proof -
  let ?S = quiet_setting and ?init = "plugin_process quiet_setting ()"
  let ?cs = "[Remove (SocketPath demo_server), Listen (SocketPath demo_server), Serve,
    Dial (path_join [socketDir demo_server, KubeletSocketName]),
    Register \<lparr>r_Version = ''v1beta1'', r_Endpoint = PluginSocketName, r_ResourceName = resourceName demo_server\<rparr>]"
  obtain rest where script: "fst (setting_script ?S) = map Do ?cs @ rest"
    by (simp add: setting_script_def server_script_def quiet_setting_def start_def register_def Let_def)
  have start: "workers ?init = [Running (ServerScript (map Do ?cs @ rest))]" "main ?init = Selecting"
    "world ?init = \<lparr>calls = [], cluster = ()\<rparr>"
    unfolding script [symmetric] by (simp_all add: plugin_process_def plugin_workers_def) (simp add: quiet_setting_def)
  let ?at = "?init\<lparr>workers := [Running (ServerScript rest)], world := \<lparr>calls = ?cs, cluster = ()\<rparr>\<rparr>"
  obtain i where s: "proc_run (plugin_code ?S) ?init i 0 ?at"
    using script_runs [OF run_start, of ?init 0 ?cs rest ?S] unfolding start by auto
  from interrupted [OF s] start(2) show ?thesis by (fastforce simp: launched_def)
qed

end
