(* ===== verification/Exporter_Process.thy ===== *)
theory Exporter_Process
  imports Supervision Processes
begin

text \<open>
  The two metrics exporters from the start of their goroutines to their end (\<open>internal/exporter/run.go\<close> of both
  operators): the HTTP server with its two routes, the goroutine that refreshes the cache, and the shutdown.
  Both processes are one definition over what differs: the cache, its refresh and the scrape. A request is served in one
  step while the server listens.
\<close>

section \<open>Serving\<close>

datatype 'm http_response = MetricsPage 'm | Ok200 string | NotFound404

datatype http_error = ServerClosed | ListenFailure | ServeFailure

datatype http_work = HttpListen | HttpServe | CacheRefresh | CacheSelect

record ('c, 'w, 'm) http_setting =
  hs_clusters :: "'w \<Rightarrow> bool" \<comment> \<open>the clusters that occur while the process runs\<close>
  hs_refresh :: "'w \<Rightarrow> 'c \<Rightarrow> 'c" \<comment> \<open>one \<open>Refresh\<close> in the cluster of its time\<close>
  hs_scrape :: "'c \<Rightarrow> rng \<Rightarrow> 'm" \<comment> \<open>sampler and collector\<close>
  hs_cached :: bool \<comment> \<open>whether the client could be built\<close>

record ('c, 'w, 'm) http_world =
  cache :: 'c
  api :: 'w
  listening :: bool
  shut :: bool
  served :: "(string \<times> 'm http_response) list"

text \<open>The two routes of the mux; other paths are not found.\<close>

definition mux :: "('c, 'w, 'm) http_setting \<Rightarrow> string \<Rightarrow> 'c \<Rightarrow> rng \<Rightarrow> 'm http_response" where
  "mux S path c rng =
     (if path = ''/metrics'' then MetricsPage (hs_scrape S c rng)
      else if path = ''/healthz'' then Ok200 (''ok'' @ [CHR 0x0A])
      else NotFound404)"

inductive http_moves ::
  "('c, 'w, 'm) http_setting \<Rightarrow> bool \<Rightarrow> http_work \<Rightarrow> ('c, 'w, 'm) http_world \<Rightarrow> step_kind \<Rightarrow>
   (http_work, http_error) goroutine \<Rightarrow> ('c, 'w, 'm) http_world \<Rightarrow> bool" for S c where
  listens: "\<not> shut w \<Longrightarrow> http_moves S c HttpListen w Internal (Running HttpServe) (w\<lparr>listening := True\<rparr>)"
| listen_fails: "http_moves S c HttpListen w External (Sending ListenFailure) w"
| listen_closed: "shut w \<Longrightarrow> http_moves S c HttpListen w Internal (Sending ServerClosed) w"
| serve_fails: "http_moves S c HttpServe w External (Sending ServeFailure) (w\<lparr>listening := False\<rparr>)"
| serve_closed: "shut w \<Longrightarrow> http_moves S c HttpServe w Internal (Sending ServerClosed) w"
| cache_refreshes: "http_moves S c CacheRefresh w Internal (Running CacheSelect)
    (w\<lparr>cache := hs_refresh S (api w) (cache w)\<rparr>)"
| cache_ticks: "http_moves S c CacheSelect w External (Running CacheRefresh) w"
| cache_ends: "c \<Longrightarrow> http_moves S c CacheSelect w Internal Ended w"

inductive_cases http_movesE: "http_moves S c p w k g w'"

text \<open>The environment: the cluster changes, and clients send requests while the server listens.\<close>

inductive http_drifts ::
  "('c, 'w, 'm) http_setting \<Rightarrow> ('c, 'w, 'm) http_world \<Rightarrow> ('c, 'w, 'm) http_world \<Rightarrow> bool" for S where
  cluster_changes: "hs_clusters S x \<Longrightarrow> http_drifts S w (w\<lparr>api := x\<rparr>)"
| request_served: "listening w \<Longrightarrow> rng_ok rng \<Longrightarrow>
    http_drifts S w (w\<lparr>served := served w @ [(path, mux S path (cache w) rng)]\<rparr>)"

text \<open>\<open>srv.Shutdown\<close> closes the listener; \<open>ListenAndServe\<close> then returns \<open>ErrServerClosed\<close>.\<close>

definition http_code :: "('c, 'w, 'm) http_setting \<Rightarrow> (http_work, http_error, ('c, 'w, 'm) http_world) code" where
  "http_code S =
     \<lparr>errCh_cap = 1, moves = http_moves S, drifts = http_drifts S, clean = (\<lambda>e. e = ServerClosed),
      on_cancel = (\<lambda>w. w\<lparr>listening := False, shut := True\<rparr>)\<rparr>"

definition http_process ::
  "('c, 'w, 'm) http_setting \<Rightarrow> 'c \<Rightarrow> 'w \<Rightarrow> (http_work, http_error, ('c, 'w, 'm) http_world) proc" where
  "http_process S c x =
     launched ((if hs_cached S then [Running CacheRefresh] else []) @ [Running HttpListen])
       \<lparr>cache = c, api = x, listening = False, shut = False, served = []\<rparr>"

text \<open>\<open>buildSampler\<close> of the metrics-exporter, for the process that \<open>exporter_Run\<close> starts.\<close>

definition exporter_setting ::
  "('w \<Rightarrow> bool) \<Rightarrow> ('w \<Rightarrow> 'e + Topology) \<Rightarrow> (key \<Rightarrow> 'w \<Rightarrow> api_error + Pod) \<Rightarrow> exporter_start \<Rightarrow>
   (worldState, 'w, Metric list) http_setting" where
  "exporter_setting clusters load get x =
     \<lparr>hs_clusters = clusters, hs_refresh = Refresh load get (xs_default_utilization x) (xs_hostname x),
      hs_scrape = (\<lambda>c rng. Collect NewCollector
        (if xs_refresh x = None then idleSampler (xs_gpus x) (xs_hostname x)
         else topologySampler c (xs_gpus x) (xs_hostname x) rng)),
      hs_cached = (xs_refresh x \<noteq> None)\<rparr>"

text \<open>\<open>buildSamplerOrIdle\<close> of the NVIDIA sidecar.\<close>

definition dcgm_setting ::
  "('w \<Rightarrow> bool) \<Rightarrow> (string \<Rightarrow> 'w \<Rightarrow> api_error + Pod list) \<Rightarrow> dcgm_start \<Rightarrow> (nodeAssignment list, 'w, Metric list) http_setting" where
  "dcgm_setting clusters list_pods x =
     \<lparr>hs_clusters = clusters, hs_refresh = dcgm_Refresh list_pods (ds_hostname x),
      hs_scrape = (\<lambda>c rng. dcgm_Collect NewDcgmCollector
        (if ds_refresh x = None then idleOnly (ds_gpus x) (ds_hostname x)
         else buildSampler c (ds_gpus x) (ds_hostname x) rng)),
      hs_cached = (ds_refresh x \<noteq> None)\<rparr>"

section \<open>The contract of the goroutines\<close>

fun http_rank :: "http_work \<Rightarrow> nat" where
  "http_rank HttpListen = 1"
| "http_rank HttpServe = 0"
| "http_rank CacheRefresh = 1"
| "http_rank CacheSelect = 0"

definition serves :: "http_work \<Rightarrow> bool" where
  "serves p \<longleftrightarrow> p = HttpListen \<or> p = HttpServe"

lemma http_code_fields [simp]:
  "errCh_cap (http_code S) = 1" "moves (http_code S) = http_moves S" "drifts (http_code S) = http_drifts S"
  "clean (http_code S) = (\<lambda>e. e = ServerClosed)" "on_cancel (http_code S) w = w\<lparr>listening := False, shut := True\<rparr>"
  by (simp_all add: http_code_def)

interpretation http: supervised "http_code S" http_rank serves "\<lambda>_. True" for S :: "('c, 'w, 'm) http_setting"
  by unfold_locales (auto simp: serves_def elim: http_movesE)

section \<open>What is served\<close>

text \<open>The cache is always the result of refreshes, and a response was computed from such a cache.\<close>

definition computed :: "('c, 'w, 'm) http_setting \<Rightarrow> 'c \<Rightarrow> string \<Rightarrow> 'm http_response \<Rightarrow> bool" where
  "computed S c path r \<longleftrightarrow> (\<exists>xs rng. list_all (hs_clusters S) xs \<and> rng_ok rng \<and> r = mux S path (fold (hs_refresh S) xs c) rng)"

lemma computedI: "list_all (hs_clusters S) xs \<Longrightarrow> rng_ok rng \<Longrightarrow> computed S c path (mux S path (fold (hs_refresh S) xs c) rng)"
  unfolding computed_def by blast

definition http_history :: "('c, 'w, 'm) http_setting \<Rightarrow> 'c \<Rightarrow> ('c, 'w, 'm) http_world \<Rightarrow> bool" where
  "http_history S c w \<longleftrightarrow>
     hs_clusters S (api w) \<and> (\<exists>xs. list_all (hs_clusters S) xs \<and> cache w = fold (hs_refresh S) xs c) \<and>
     (\<forall>(path, r) \<in> set (served w). computed S c path r)"

lemma refreshed_again:
  assumes "list_all P xs" "P x" shows "\<exists>ys. list_all P ys \<and> f x (fold f xs c) = fold f ys c"
  using assms by (intro exI [of _ "xs @ [x]"]) simp

lemma http_history_moves: "http_moves S c p w k g w' \<Longrightarrow> http_history S c0 w \<Longrightarrow> http_history S c0 w'"
  by (erule http_moves.cases) (auto simp: http_history_def intro: refreshed_again)

lemma http_history_drifts:
  assumes "http_drifts S w w'" "http_history S c0 w" shows "http_history S c0 w'"
  using assms by cases (auto simp: http_history_def intro: computedI)

lemma http_history_run:
  assumes "proc_run (http_code S) (http_process S c0 x) i t s" "hs_clusters S x"
  shows "http_history S c0 (world s)"
  using assms(1)
proof (rule world_invariant)
  show "http_history S c0 (world (http_process S c0 x))"
    using assms(2) by (auto simp: http_history_def http_process_def intro: exI [of _ "[]"])
  show "http_history S c0 (on_cancel (http_code S) w)" if "http_history S c0 w" for w
    using that by (simp add: http_history_def)
qed (auto intro: http_history_moves http_history_drifts)

lemma served_from_history:
  assumes "proc_run (http_code S) (http_process S c0 x) i t s" "hs_clusters S x"
    and "(path, r) \<in> set (served (world s))"
  obtains xs rng where "list_all (hs_clusters S) xs" "rng_ok rng" "r = mux S path (fold (hs_refresh S) xs c0) rng"
  using http_history_run [OF assms(1,2)] assms(3) by (auto simp: http_history_def computed_def)

text \<open>The same as the loops of the exporters' theories.\<close>

lemma run_cache_fold: "fold (Refresh load get d host) ws st = run_cache load get d host ws st"
  by (induction ws arbitrary: st) simp_all

lemma run_cache_nan:
  assumes "\<And>k w pod. P w \<Longrightarrow> get k w = Inr pod \<Longrightarrow> \<not> range_nan (pod_range d pod)" "list_all P ws"
    and "\<forall>k r. podRanges st k = Some r \<longrightarrow> \<not> range_nan r"
  shows "\<forall>k r. podRanges (run_cache load get d host ws st) k = Some r \<longrightarrow> \<not> range_nan r"
  using assms(2,3)
proof (induction ws arbitrary: st)
  case (Cons w ws)
  have "P w" using Cons.prems(1) by simp
  then have "\<forall>k r. podRanges (Refresh load get d host w st) k = Some r \<longrightarrow> \<not> range_nan r"
    using Cons.prems(2) assms(1) by (auto simp: Refresh_def split: sum.splits dest!: collect_ranges_origin)
  with Cons.IH Cons.prems(1) show ?case by simp
qed simp

section \<open>Properties\<close>


text \<open>A node with one GPU, a topology that cannot be read, and one request.\<close>

definition demo_exporter :: exporter_start where
  "demo_exporter =
     \<lparr>xs_listen = '':5000'', xs_hostname = ''n'', xs_gpus = [gpu_at ''n'' ''MI300X'' 64 ''spx'' 1 0 0],
      xs_topology_namespace = ''gpu-operator'', xs_default_utilization = ''5-15'', xs_refresh = Some five_seconds\<rparr>"

lemma one_request:
  assumes "hs_cached S" "rng_ok rng"
  shows "\<exists>s. proc_run (http_code S) (http_process S c x) 1 1 s \<and> served (world s) = [(path, mux S path c rng)]"
proof -
  let ?s = "http_process S c x"
  have w: "workers ?s = [Running CacheRefresh, Running HttpListen]" "main ?s = Selecting"
    "world ?s = \<lparr>cache = c, api = x, listening = False, shut = False, served = []\<rparr>"
    using assms(1) by (simp_all add: http_process_def)
  let ?w = "(world ?s)\<lparr>listening := True\<rparr>"
  let ?a = "?s\<lparr>workers := (workers ?s)[1 := Running HttpServe], world := ?w\<rparr>"
  have "http_moves S (cancelled ?s) HttpListen (world ?s) Internal (Running HttpServe) ?w"
    by (rule listens) (simp add: w)
  then have "proc_step (http_code S) Internal ?s ?a"
    by (intro worker_moves [where p = HttpListen]) (simp_all add: w)
  then have 1: "proc_run (http_code S) ?s (Suc 0) 0 ?a" by (rule run_internal [OF run_start])
  have "http_drifts S (world ?a) ((world ?a)\<lparr>served := served (world ?a) @ [(path, mux S path (cache (world ?a)) rng)]\<rparr>)"
    by (rule request_served) (simp_all add: assms(2))
  then have "proc_step (http_code S) External ?a
      (?a\<lparr>world := (world ?a)\<lparr>served := served (world ?a) @ [(path, mux S path (cache (world ?a)) rng)]\<rparr>\<rparr>)"
    by (intro environment) (simp_all add: w)
  from run_external [OF 1 this] show ?thesis by (auto simp: w intro!: exI)
qed



definition demo_sidecar :: dcgm_start where
  "demo_sidecar =
     \<lparr>ds_listen = '':9401'', ds_hostname = ''n'',
      ds_gpus = [\<lparr>Index = 0, UUID = ''u'', gi_Device = ''nvidia0'', ModelName = ''T4'', MigProfile = []\<rparr>],
      ds_refresh = Some five_seconds\<rparr>"


section \<open>The life of the process\<close>

definition http_inv :: "(http_work, http_error, ('c, 'w, 'm) http_world) proc \<Rightarrow> bool" where
  "http_inv s \<longleftrightarrow>
     (main s = Selecting \<longrightarrow> \<not> shut (world s)) \<and> (shut (world s) \<longrightarrow> cancelled s) \<and>
     (ServerClosed \<in> set (errCh s) \<longrightarrow> shut (world s)) \<and> (Sending ServerClosed \<in> set (workers s) \<longrightarrow> shut (world s)) \<and>
     (main s = ShuttingDown \<or> main s = RunReturned None \<or> main s = Exited None \<longrightarrow> cancelled s) \<and>
     main s \<noteq> RunReturned (Some ServerClosed) \<and> main s \<noteq> Exited (Some ServerClosed)"

lemma http_moves_shut:
  "http_moves S c p w k g w' \<Longrightarrow> shut w' = shut w \<and> (g = Sending ServerClosed \<longrightarrow> shut w)"
  by (auto elim: http_movesE)

lemma http_inv_step:
  assumes "proc_step (http_code S) k s s'" "http_inv s"
  shows "http_inv s'"
  using assms(1)
proof (cases rule: proc_step.cases)
  case (environment w)
  then have "shut w = shut (world s)" by (auto elim: http_drifts.cases)
  with environment assms(2) show ?thesis by (simp add: http_inv_def)
next
  case (worker_moves i p g w)
  then have "http_moves S (cancelled s) p (world s) k g w" by simp
  note http_moves_shut [OF this]
  with worker_moves(1) assms(2) set_update_subset_insert [of "workers s" i g] show ?thesis
    by (auto simp: http_inv_def)
next
  case (worker_sends i e)
  then have "Sending e \<in> set (workers s)" by (metis nth_mem)
  with worker_sends(2) assms(2) set_update_subset_insert [of "workers s" i Ended] show ?thesis
    by (auto simp: http_inv_def)
qed (use assms(2) in \<open>auto simp: http_inv_def\<close>)

lemma http_inv_run:
  assumes "proc_run (http_code S) (http_process S c x) i t s"
  shows "http_inv s"
  using assms
proof (rule run_invariant [where I = http_inv])
  show "http_inv (http_process S c x)" by (simp add: http_inv_def http_process_def)
qed (rule http_inv_step)

lemma http_goroutine_rank: "goroutine_rank http_rank g \<le> 3"
proof (cases g)
  case (Running p)
  then show ?thesis by (cases p) auto
qed auto



end
