(* ===== verification/Labeller_Process.thy ===== *)
theory Labeller_Process
  imports Processes
begin

text \<open>
  The node labeller after its start (\<open>internal/nodelabeller/run.go\<close>): one JSON merge patch, then a wait for the
  signal. A merge patch is applied by the API server as RFC 7396 says; the locale
  \<open>patch_store\<close> is that interface. The annotator's patch has the same shape.
\<close>

section \<open>JSON merge patches\<close>

text \<open>The members of an object in the order of the document; the first of two equal names counts.\<close>

datatype json =
    JNull
  | JBool bool
  | JNumber int
  | JString string
  | JArray "json list"
  | JObject "(string \<times> json) list"

fun members :: "json \<Rightarrow> (string \<times> json) list" where
  "members (JObject ms) = ms"
| "members _ = []"

definition member :: "json \<Rightarrow> string \<Rightarrow> json option" where
  "member x k = map_of (members x) k"

text \<open>The procedure \<open>MergePatch\<close> of RFC 7396.\<close>

function (sequential) merge_patch :: "json \<Rightarrow> json \<Rightarrow> json"
  and merge_members :: "(string \<times> json) list \<Rightarrow> (string \<times> json) list \<Rightarrow> (string \<times> json) list" where
  "merge_patch target (JObject ps) = JObject (merge_members (members target) ps)"
| "merge_patch target p = p"
| "merge_members ms [] = ms"
| "merge_members ms ((k, v) # ps) =
     merge_members
       (if v = JNull then AList.delete k ms
        else AList.update k (merge_patch (case map_of ms k of None \<Rightarrow> JNull | Some x \<Rightarrow> x) v) ms) ps"
  by pat_completeness auto
termination
  by (relation "measure (\<lambda>x. case x of Inl (_, p) \<Rightarrow> size p | Inr (_, ps) \<Rightarrow> size_list (size_prod (\<lambda>_. 0) size) ps)") auto

declare merge_patch.simps(1) [simp del]

text \<open>The patch \<open>{"metadata": {field: values}}\<close> that \<open>patchNodeLabels\<close> and \<open>annotatePod\<close> marshal.\<close>

definition string_object :: "(string \<times> string) list \<Rightarrow> json" where
  "string_object kvs = JObject (map (\<lambda>(k, v). (k, JString v)) kvs)"

definition metadata_patch :: "string \<Rightarrow> (string \<times> string) list \<Rightarrow> json" where
  "metadata_patch field kvs = JObject [(''metadata'', JObject [(field, string_object kvs)])]"

definition annotation_patch :: "string \<Rightarrow> json" where
  "annotation_patch v = metadata_patch ''annotations'' [(AssignedGPUsAnnotation, v)]"

locale patch_store = object_reader view get
  for view :: "'w \<Rightarrow> string \<Rightarrow> json option" and get :: "string \<Rightarrow> 'w \<Rightarrow> api_error + json" +
  fixes patch :: "string \<Rightarrow> json \<Rightarrow> 'w \<Rightarrow> api_error option \<times> 'w"
  assumes patch_None: "patch k p w = (None, w') \<Longrightarrow>
      \<exists>x. view w k = Some x \<and> view w' = (view w)(k \<mapsto> merge_patch x p)"
    and patch_Some: "patch k p w = (Some e, w') \<Longrightarrow> view w' = view w \<or>
      (\<exists>x. view w k = Some x \<and> view w' = (view w)(k \<mapsto> merge_patch x p))"
begin

text \<open>A patch that changes nothing can be repeated freely.\<close>

lemma repeated_patch:
  assumes "patch k p w = (None, w1)" "patch k p w1 = (r, w2)" "\<And>x. merge_patch (merge_patch x p) p = merge_patch x p"
  shows "view w2 = view w1"
  using patch_None [OF assms(1)] assms(2,3) patch_None [of k p w1 w2] patch_Some [of k p w1 _ w2]
  by (cases r) (fastforce simp: fun_eq_iff)+

end

definition srv_merge_patch ::
  "string \<Rightarrow> json \<Rightarrow> (string, json) server \<Rightarrow> api_error option \<times> (string, json) server" where
  "srv_merge_patch k p w =
     (if unreachable w k then (Some srv_error, w)
      else case objects w k of
        None \<Rightarrow> (Some NotFound, w)
      | Some x \<Rightarrow> (None, w\<lparr>objects := (objects w)(k \<mapsto> merge_patch x p)\<rparr>))"

interpretation json_server: patch_store objects srv_get srv_merge_patch
  by unfold_locales (auto simp: srv_merge_patch_def srv_get_def srv_error_def split: if_splits option.splits)

section \<open>The node labeller\<close>

text \<open>Marshalling a map of strings cannot fail, so the error of \<open>json.Marshal\<close> does not occur.\<close>

definition patchNodeLabels ::
  "(string \<Rightarrow> json \<Rightarrow> 'w \<Rightarrow> api_error option \<times> 'w) \<Rightarrow> string \<Rightarrow> labels \<Rightarrow> 'w \<Rightarrow> api_error option \<times> 'w" where
  "patchNodeLabels patch name labels w = patch name (metadata_patch ''labels'' labels) w"

datatype labeller_result = PatchNodeFailed api_error | AsleepUntilSignal | LabellerDone

text \<open>The rest of \<open>Run\<close> once the process has started; the flag tells whether the signal has come.\<close>

definition nodelabeller_main ::
  "(string \<Rightarrow> json \<Rightarrow> 'w \<Rightarrow> api_error option \<times> 'w) \<Rightarrow> string \<times> labels \<Rightarrow> bool \<Rightarrow> 'w \<Rightarrow> labeller_result \<times> 'w" where
  "nodelabeller_main patch started signalled w =
     (case patchNodeLabels patch (fst started) (snd started) w of
        (Some e, w') \<Rightarrow> (PatchNodeFailed e, w')
      | (None, w') \<Rightarrow> (if signalled then LabellerDone else AsleepUntilSignal, w'))"

section \<open>What the patch does\<close>

lemma update_known: "map_of ms k = Some v \<Longrightarrow> AList.update k v ms = ms"
  by (induction ms) auto

text \<open>A patch with a single member that is not null changes that member only.\<close>

definition present :: "json option \<Rightarrow> json" where
  "present x = (case x of None \<Rightarrow> JNull | Some y \<Rightarrow> y)"

lemma member_merge_one:
  "p \<noteq> JNull \<Longrightarrow> member (merge_patch x (JObject [(f, p)])) g =
     (if g = f then Some (merge_patch (present (member x f)) p) else member x g)"
  by (simp add: member_def present_def update_conv' merge_patch.simps(1))

lemma merge_one_again:
  assumes "p \<noteq> JNull" "\<And>x. merge_patch (merge_patch x p) p = merge_patch x p"
  shows "merge_patch (merge_patch x (JObject [(f, p)])) (JObject [(f, p)]) = merge_patch x (JObject [(f, p)])"
  using assms by (simp add: merge_patch.simps(1) update_conv' update_known)

text \<open>A patch of strings sets its names and leaves the others.\<close>

lemma merge_strings:
  "map_of (merge_members ms (map (\<lambda>(k, v). (k, JString v)) kvs)) k =
     (case map_of (rev kvs) k of Some v \<Rightarrow> Some (JString v) | None \<Rightarrow> map_of ms k)"
proof (induction kvs arbitrary: ms)
  case (Cons kv kvs)
  show ?case by (cases kv) (simp add: Cons.IH update_conv' map_add_def split: option.splits)
qed simp

lemma map_of_rev: "distinct (map fst kvs) \<Longrightarrow> map_of (rev kvs) = map_of kvs"
  by (induction kvs) (auto simp: map_add_def fun_eq_iff map_of_eq_None_iff [symmetric] split: option.splits)

lemma member_merge_strings:
  "distinct (map fst kvs) \<Longrightarrow> member (merge_patch x (string_object kvs)) k =
     (case map_of kvs k of Some v \<Rightarrow> Some (JString v) | None \<Rightarrow> member x k)"
  by (simp add: member_def string_object_def merge_patch.simps(1) merge_strings map_of_rev split: option.splits)

lemma merge_strings_known:
  "(\<And>k v. (k, v) \<in> set kvs \<Longrightarrow> map_of ms k = Some (JString v)) \<Longrightarrow>
   merge_members ms (map (\<lambda>(k, v). (k, JString v)) kvs) = ms"
proof (induction kvs)
  case (Cons kv kvs)
  then show ?case by (cases kv) (simp add: update_known)
qed simp

lemma merge_strings_again:
  assumes "distinct (map fst kvs)"
  shows "merge_patch (merge_patch x (string_object kvs)) (string_object kvs) = merge_patch x (string_object kvs)"
  unfolding string_object_def merge_patch.simps members.simps
  by (intro arg_cong [where f = JObject] merge_strings_known) (simp add: merge_strings map_of_rev [OF assms] assms)

text \<open>A member of the metadata, and an entry of a string map in it.\<close>

definition metadata :: "json \<Rightarrow> string \<Rightarrow> json option" where
  "metadata x f = member (present (member x ''metadata'')) f"

definition metadata_entry :: "json \<Rightarrow> string \<Rightarrow> string \<Rightarrow> json option" where
  "metadata_entry x f k = member (present (metadata x f)) k"

lemma patch_nonnull [simp]: "string_object kvs \<noteq> JNull"
  by (simp add: string_object_def)

lemma metadata_patch_metadata:
  "metadata (merge_patch x (metadata_patch f kvs)) g =
     (if g = f then Some (merge_patch (present (metadata x f)) (string_object kvs)) else metadata x g)"
  by (simp add: metadata_patch_def metadata_def member_merge_one) (simp add: present_def member_merge_one)

lemma metadata_patch_entry:
  "distinct (map fst kvs) \<Longrightarrow> metadata_entry (merge_patch x (metadata_patch f kvs)) f k =
     (case map_of kvs k of Some v \<Rightarrow> Some (JString v) | None \<Rightarrow> metadata_entry x f k)"
  by (simp add: metadata_entry_def metadata_patch_metadata)
    (simp add: present_def metadata_entry_def member_merge_strings split: option.splits)

lemma metadata_patch_other:
  "h \<noteq> ''metadata'' \<Longrightarrow> member (merge_patch x (metadata_patch f kvs)) h = member x h"
  using member_merge_one [of "JObject [(f, string_object kvs)]" x "''metadata''" h] by (simp add: metadata_patch_def)

lemma metadata_patch_again:
  "distinct (map fst kvs) \<Longrightarrow>
   merge_patch (merge_patch x (metadata_patch f kvs)) (metadata_patch f kvs) = merge_patch x (metadata_patch f kvs)"
  unfolding metadata_patch_def by (intro merge_one_again merge_strings_again) simp_all

section \<open>Properties\<close>

text \<open>
  C16. What the node labeller does to its node. When a process started on some command line has not failed to patch, its
  node exists and has exactly the labels the flags say on top of the labels it had; other metadata, such as
  annotations, and the other parts of the node are as before, no other node changed, and a restarted
  labeller with the same flags changes nothing.
\<close>

theorem labelled_node:
  assumes "patch_store view get patch" "nodelabeller_Run env args = Started (node, labels)"
    and "nodelabeller_main patch (node, labels) signalled w = (res, w1)" "res = AsleepUntilSignal \<or> res = LabellerDone"
    and "nodelabeller_main patch (node, labels) signalled' w1 = (res', w2)"
  shows "node = pe_NODE_NAME env \<and>
    (\<exists>old new. view w node = Some old \<and> view w1 = (view w)(node \<mapsto> new) \<and> view w2 = view w1 \<and>
      metadata_entry new ''labels'' = (\<lambda>k. case map_of labels k of
          Some v \<Rightarrow> Some (JString v) | None \<Rightarrow> metadata_entry old ''labels'' k) \<and>
      list_all (\<lambda>f. f = ''labels'' \<or> metadata new f = metadata old f) fs \<and>
      list_all (\<lambda>h. h = ''metadata'' \<or> member new h = member old h) hs)"
proof -
  have labels: "distinct (map fst labels)" "node = pe_NODE_NAME env"
    using assms(2) by (auto simp: nodelabeller_Run_def with_flags_def split: sum.splits if_splits)
  let ?p = "metadata_patch ''labels'' labels"
  have p: "patch node ?p w = (None, w1)"
    using assms(3,4) by (auto simp: nodelabeller_main_def patchNodeLabels_def split: prod.splits option.splits if_splits)
  obtain r where q: "patch node ?p w1 = (r, w2)"
    using assms(5) by (auto simp: nodelabeller_main_def patchNodeLabels_def split: prod.splits option.splits if_splits)
  from patch_store.patch_None [OF assms(1) p] obtain x where
    x: "view w node = Some x" "view w1 = (view w)(node \<mapsto> merge_patch x ?p)" by blast
  moreover have "view w2 = view w1"
    by (rule patch_store.repeated_patch [OF assms(1) p q metadata_patch_again [OF labels(1)]])
  moreover have "metadata_entry (merge_patch x ?p) ''labels'' = (\<lambda>k. case map_of labels k of
      Some v \<Rightarrow> Some (JString v) | None \<Rightarrow> metadata_entry x ''labels'' k)"
    by (rule ext) (rule metadata_patch_entry [OF labels(1)])
  moreover have "list_all (\<lambda>f. f = ''labels'' \<or> metadata (merge_patch x ?p) f = metadata x f) fs"
    by (simp add: list_all_iff metadata_patch_metadata)
  moreover have "list_all (\<lambda>h. h = ''metadata'' \<or> member (merge_patch x ?p) h = member x h) hs"
    unfolding list_all_iff using metadata_patch_other by blast
  ultimately show ?thesis using labels(2) by blast
qed

definition demo_node :: json where
  "demo_node = JObject [(''kind'', JString ''Node''),
     (''metadata'', JObject [(''name'', JString ''node-1''), (''labels'', JObject [(''zone'', JString ''a'')])])]"

definition demo_nodes :: "(string, json) server" where
  "demo_nodes = \<lparr>objects = [''node-1'' \<mapsto> demo_node], unreachable = (\<lambda>_. False)\<rparr>"

theorem labelled_node_witness:
  "\<exists>labels w1 new. nodelabeller_Run node_env [] = Started (''node-1'', labels) \<and>
     nodelabeller_main srv_merge_patch (''node-1'', labels) False demo_nodes = (AsleepUntilSignal, w1) \<and>
     objects w1 ''node-1'' = Some new \<and>
     metadata_entry new ''labels'' ''amd.com/gpu.product-name'' = Some (JString ''MI300X'') \<and>
     metadata_entry new ''labels'' ''zone'' = Some (JString ''a'')"
proof -
  obtain labels where run: "nodelabeller_Run node_env [] = Started (''node-1'', labels)"
    "map_of labels ''amd.com/gpu.product-name'' = Some ''MI300X''" "map_of labels ''zone'' = None"
    by (simp add: nodelabeller_Run_def with_flags_def nodelabeller_flags_def flag_getters)
  obtain w1 where main: "nodelabeller_main srv_merge_patch (''node-1'', labels) False demo_nodes = (AsleepUntilSignal, w1)"
    by (simp add: nodelabeller_main_def patchNodeLabels_def srv_merge_patch_def demo_nodes_def)
  obtain res' w2 where "nodelabeller_main srv_merge_patch (''node-1'', labels) False w1 = (res', w2)" by fastforce
  from labelled_node [OF json_server.patch_store_axioms run(1) main _ this, of "[]" "[]"] obtain old new where
    "objects demo_nodes ''node-1'' = Some old" "objects w1 = (objects demo_nodes)(''node-1'' \<mapsto> new)"
    "metadata_entry new ''labels'' = (\<lambda>k. case map_of labels k of
        Some v \<Rightarrow> Some (JString v) | None \<Rightarrow> metadata_entry old ''labels'' k)" by blast
  moreover from this(1) have "metadata_entry old ''labels'' ''zone'' = Some (JString ''a'')"
    by (auto simp: demo_nodes_def demo_node_def metadata_entry_def metadata_def member_def present_def)
  ultimately show ?thesis using run main by auto
qed

end
