(* ===== verification/Controller.thy ===== *)
theory Controller
  imports Workloads Kube_API
begin

text \<open>
  The DeviceConfig reconciler (\<open>pkg/controller/deviceconfig_controller.go\<close>). The client the
  reconciler embeds, and \<open>CreateOrUpdate\<close> and \<open>SetControllerReference\<close> of controllerutil, are not
  part of the repository: they are the record \<open>Client\<close>, a parameter of every definition, and the
  locale \<open>controller_client\<close> states their documented behaviour. A step of the reconciler takes the
  world and gives an error or a value together with the new world.
\<close>

section \<open>The client\<close>

record 'w Client =
  c_get_config :: "string \<Rightarrow> 'w \<Rightarrow> api_error + DeviceConfig"
  c_get :: "wkey \<Rightarrow> 'w \<Rightarrow> api_error + Workload"
  CreateOrUpdate :: "wkey \<Rightarrow> Workload \<Rightarrow> (Workload \<Rightarrow> api_error + Workload) \<Rightarrow> 'w \<Rightarrow> api_error option \<times> 'w"
  c_delete :: "wkey \<Rightarrow> 'w \<Rightarrow> api_error option \<times> 'w"
  c_update_status :: "DeviceConfig \<Rightarrow> 'w \<Rightarrow> api_error option \<times> 'w"
  SetControllerReference :: "string \<Rightarrow> ObjectMeta \<Rightarrow> api_error + ObjectMeta"

definition wkey_of :: "kind \<Rightarrow> Workload \<Rightarrow> wkey" where
  "wkey_of kd x = (kd, om_Namespace (w_Meta x), om_Name (w_Meta x))"

section \<open>Applying one child\<close>

text \<open>The closures passed to \<open>CreateOrUpdate\<close>: \<open>x\<close> is the object read from the server, or \<open>want\<close>
  itself when there is none.\<close>

definition own ::
  "(string \<Rightarrow> ObjectMeta \<Rightarrow> api_error + ObjectMeta) \<Rightarrow> string \<Rightarrow> Workload \<Rightarrow> api_error + Workload" where
  "own set_ref owner x =
     (case set_ref owner (w_Meta x) of Inl e \<Rightarrow> Inl e | Inr m \<Rightarrow> Inr (x\<lparr>w_Meta := m\<rparr>))"

definition overwrite :: "Workload \<Rightarrow> Workload \<Rightarrow> Workload" where
  "overwrite desired x =
     x\<lparr>w_Spec := w_Spec desired, w_Meta := (w_Meta x)\<lparr>om_Labels := om_Labels (w_Meta desired)\<rparr>\<rparr>"

definition cluster_ip :: "Workload \<Rightarrow> string" where
  "cluster_ip x = (case w_Spec x of ServiceSpecOf s \<Rightarrow> svc_ClusterIP s | _ \<Rightarrow> [])"

definition set_cluster_ip :: "string \<Rightarrow> Workload \<Rightarrow> Workload" where
  "set_cluster_ip ip x =
     (case w_Spec x of ServiceSpecOf s \<Rightarrow> x\<lparr>w_Spec := ServiceSpecOf (s\<lparr>svc_ClusterIP := ip\<rparr>)\<rparr> | _ \<Rightarrow> x)"

definition overwrite_owned :: "'w Client \<Rightarrow> DeviceConfig \<Rightarrow> Workload \<Rightarrow> Workload \<Rightarrow> api_error + Workload" where
  "overwrite_owned c owner desired x =
     own (SetControllerReference c) (dc_Name owner) (overwrite desired x)"

definition overwrite_service :: "'w Client \<Rightarrow> DeviceConfig \<Rightarrow> Workload \<Rightarrow> Workload \<Rightarrow> api_error + Workload" where
  "overwrite_service c owner desired x =
     own (SetControllerReference c) (dc_Name owner) (set_cluster_ip (cluster_ip x) (overwrite desired x))"

definition applyDaemonSet :: "'w Client \<Rightarrow> Workload \<Rightarrow> DeviceConfig \<Rightarrow> 'w \<Rightarrow> api_error option \<times> 'w" where
  "applyDaemonSet c want owner =
     CreateOrUpdate c (wkey_of KDaemonSet want) want (overwrite_owned c owner want)"

definition applyDeployment :: "'w Client \<Rightarrow> Workload \<Rightarrow> DeviceConfig \<Rightarrow> 'w \<Rightarrow> api_error option \<times> 'w" where
  "applyDeployment c want owner =
     CreateOrUpdate c (wkey_of KDeployment want) want (overwrite_owned c owner want)"

definition applyService :: "'w Client \<Rightarrow> Workload \<Rightarrow> DeviceConfig \<Rightarrow> 'w \<Rightarrow> api_error option \<times> 'w" where
  "applyService c want owner =
     CreateOrUpdate c (wkey_of KService want) want (overwrite_service c owner want)"

definition deleteIfExists :: "'w Client \<Rightarrow> wkey \<Rightarrow> 'w \<Rightarrow> api_error option \<times> 'w" where
  "deleteIfExists c k w =
     (case c_delete c k w of
        (None, w') \<Rightarrow> (None, w')
      | (Some e, w') \<Rightarrow> if e = NotFound then (None, w') else (Some e, w'))"

definition dsReady :: "'w Client \<Rightarrow> string \<Rightarrow> string \<Rightarrow> 'w \<Rightarrow> bool" where
  "dsReady c namespace name w =
     (case c_get c (KDaemonSet, namespace, name) w of
        Inl _ \<Rightarrow> False
      | Inr ds \<Rightarrow> NumberReady ds > 0 \<and> NumberReady ds = DesiredNumberScheduled ds)"

section \<open>Reconcile\<close>

datatype reconcile_error =
  GetDeviceConfig api_error | ApplyDevicePlugin api_error | ApplyExporter api_error
  | ApplyExporterService api_error | ApplyStatusUpdater api_error | ApplyNodeLabeller api_error
  | DeleteChild api_error

definition plugin_name :: string where "plugin_name = ''amd-device-plugin''"
definition exporter_name :: string where "exporter_name = ''amd-device-metrics-exporter''"
definition updater_name :: string where "updater_name = ''amd-status-updater''"
definition labeller_name :: string where "labeller_name = ''amd-node-labeller''"

definition effective_selector :: "Config \<Rightarrow> DeviceConfig \<Rightarrow> labels" where
  "effective_selector cfg cr =
     (if NodeSelector (Spec cr) = [] then DefaultNodeSelector cfg else NodeSelector (Spec cr))"

text \<open>The device-plugin block; the value is \<open>status.DevicePluginReady\<close>.\<close>

definition reconcile_plugin ::
  "'w Client \<Rightarrow> Config \<Rightarrow> DeviceConfig \<Rightarrow> labels \<Rightarrow> 'w \<Rightarrow> (reconcile_error + bool) \<times> 'w" where
  "reconcile_plugin c cfg cr sel w =
     (if enabled (dp_Enable (DevicePlugin (Spec cr))) True then
        let ds = buildDevicePluginDS cfg cr sel (dp_ImagePullPolicy (DevicePlugin (Spec cr))) in
        (case applyDaemonSet c ds cr w of
           (Some e, w1) \<Rightarrow> (Inl (ApplyDevicePlugin e), w1)
         | (None, w1) \<Rightarrow> (Inr (dsReady c (om_Namespace (w_Meta ds)) (om_Name (w_Meta ds)) w1), w1))
      else
        (case deleteIfExists c (KDaemonSet, Namespace cfg, plugin_name) w of
           (Some e, w1) \<Rightarrow> (Inl (DeleteChild e), w1)
         | (None, w1) \<Rightarrow> (Inr False, w1)))"

text \<open>The metrics-exporter block; the value is \<open>status.MetricsExporterReady\<close>.\<close>

definition reconcile_exporter ::
  "'w Client \<Rightarrow> Config \<Rightarrow> DeviceConfig \<Rightarrow> labels \<Rightarrow> 'w \<Rightarrow> (reconcile_error + bool) \<times> 'w" where
  "reconcile_exporter c cfg cr sel w =
     (if enabled (me_Enable (MetricsExporter (Spec cr))) True then
        let ds = buildMetricsExporterDS cfg cr sel; svc = buildMetricsExporterService cfg cr in
        (case applyDaemonSet c ds cr w of
           (Some e, w1) \<Rightarrow> (Inl (ApplyExporter e), w1)
         | (None, w1) \<Rightarrow>
             (case applyService c svc cr w1 of
                (Some e, w2) \<Rightarrow> (Inl (ApplyExporterService e), w2)
              | (None, w2) \<Rightarrow>
                  (Inr (dsReady c (om_Namespace (w_Meta ds)) (om_Name (w_Meta ds)) w2), w2)))
      else
        (case deleteIfExists c (KDaemonSet, Namespace cfg, exporter_name) w of
           (Some e, w1) \<Rightarrow> (Inl (DeleteChild e), w1)
         | (None, w1) \<Rightarrow>
             (case deleteIfExists c (KService, Namespace cfg, exporter_name) w1 of
                (Some e, w2) \<Rightarrow> (Inl (DeleteChild e), w2)
              | (None, w2) \<Rightarrow> (Inr False, w2))))"

text \<open>The status-updater Deployment and the node-labeller DaemonSet, which are always on.\<close>

definition reconcile_always ::
  "'w Client \<Rightarrow> Config \<Rightarrow> DeviceConfig \<Rightarrow> labels \<Rightarrow> 'w \<Rightarrow> reconcile_error option \<times> 'w" where
  "reconcile_always c cfg cr sel w =
     (case applyDeployment c (buildStatusUpdaterDeployment cfg cr sel) cr w of
        (Some e, w1) \<Rightarrow> (Some (ApplyStatusUpdater e), w1)
      | (None, w1) \<Rightarrow>
          (case applyDaemonSet c (buildNodeLabellerDS cfg cr sel) cr w1 of
             (Some e, w2) \<Rightarrow> (Some (ApplyNodeLabeller e), w2)
           | (None, w2) \<Rightarrow> (None, w2)))"

text \<open>The children of one DeviceConfig, and the status observed while applying them.\<close>

definition reconcile_children ::
  "'w Client \<Rightarrow> Config \<Rightarrow> DeviceConfig \<Rightarrow> 'w \<Rightarrow> (reconcile_error + DeviceConfigStatus) \<times> 'w" where
  "reconcile_children c cfg cr w =
     (let sel = effective_selector cfg cr in
      (case reconcile_plugin c cfg cr sel w of
         (Inl e, w1) \<Rightarrow> (Inl e, w1)
       | (Inr dp, w1) \<Rightarrow>
           (case reconcile_exporter c cfg cr sel w1 of
              (Inl e, w2) \<Rightarrow> (Inl e, w2)
            | (Inr me, w2) \<Rightarrow>
                (case reconcile_always c cfg cr sel w2 of
                   (Some e, w3) \<Rightarrow> (Inl e, w3)
                 | (None, w3) \<Rightarrow>
                     (Inr (empty_status\<lparr>DevicePluginReady := dp, MetricsExporterReady := me\<rparr>), w3)))))"

definition Reconcile :: "'w Client \<Rightarrow> Config \<Rightarrow> string \<Rightarrow> 'w \<Rightarrow> reconcile_error option \<times> 'w" where
  "Reconcile c cfg name w =
     (case c_get_config c name w of
        Inl e \<Rightarrow> if e = NotFound then (None, w) else (Some (GetDeviceConfig e), w)
      | Inr cr \<Rightarrow>
          (case reconcile_children c cfg cr w of
             (Inl e, w1) \<Rightarrow> (Some e, w1)
           | (Inr status, w1) \<Rightarrow> (None, snd (c_update_status c (cr\<lparr>Status := status\<rparr>) w1))))"

section \<open>The work of one reconcile as a list of actions\<close>

text \<open>
  What \<open>reconcile_children\<close> asks of the server, one action per child object. The list is the
  abstract reading of the reconciler: the lemmas below are proved once by induction over any list of
  actions with distinct keys, and \<open>reconcile_children_actions\<close> says that the code performs this list.
\<close>

datatype action = Upsert wkey Workload "Workload \<Rightarrow> api_error + Workload" | Remove wkey

fun action_key :: "action \<Rightarrow> wkey" where
  "action_key (Upsert k want f) = k"
| "action_key (Remove k) = k"

fun perform :: "'w Client \<Rightarrow> action \<Rightarrow> 'w \<Rightarrow> api_error option \<times> 'w" where
  "perform c (Upsert k want f) w = CreateOrUpdate c k want f w"
| "perform c (Remove k) w = deleteIfExists c k w"

fun perform_all :: "'w Client \<Rightarrow> action list \<Rightarrow> 'w \<Rightarrow> api_error option \<times> 'w" where
  "perform_all c [] w = (None, w)"
| "perform_all c (a # as) w =
     (case perform c a w of (None, w1) \<Rightarrow> perform_all c as w1 | (Some e, w1) \<Rightarrow> (Some e, w1))"

definition upsert_action :: "'w Client \<Rightarrow> DeviceConfig \<Rightarrow> kind \<Rightarrow> Workload \<Rightarrow> action" where
  "upsert_action c cr kd want =
     Upsert (wkey_of kd want) want
       (if kd = KService then overwrite_service c cr want else overwrite_owned c cr want)"

text \<open>The five child keys with the object desired there; \<open>None\<close> for a child that must be absent.\<close>

definition desired_children :: "Config \<Rightarrow> DeviceConfig \<Rightarrow> (wkey \<times> Workload option) list" where
  "desired_children cfg cr =
     (let sel = effective_selector cfg cr;
          dp = enabled (dp_Enable (DevicePlugin (Spec cr))) True;
          me = enabled (me_Enable (MetricsExporter (Spec cr))) True;
          ns = Namespace cfg
      in [((KDaemonSet, ns, plugin_name),
             if dp then Some (buildDevicePluginDS cfg cr sel (dp_ImagePullPolicy (DevicePlugin (Spec cr)))) else None),
          ((KDaemonSet, ns, exporter_name), if me then Some (buildMetricsExporterDS cfg cr sel) else None),
          ((KService, ns, exporter_name), if me then Some (buildMetricsExporterService cfg cr) else None),
          ((KDeployment, ns, updater_name), Some (buildStatusUpdaterDeployment cfg cr sel)),
          ((KDaemonSet, ns, labeller_name), Some (buildNodeLabellerDS cfg cr sel))])"

definition action_for :: "'w Client \<Rightarrow> DeviceConfig \<Rightarrow> wkey \<times> Workload option \<Rightarrow> action" where
  "action_for c cr kd =
     (case snd kd of None \<Rightarrow> Remove (fst kd) | Some want \<Rightarrow> upsert_action c cr (fst (fst kd)) want)"

definition actions :: "'w Client \<Rightarrow> Config \<Rightarrow> DeviceConfig \<Rightarrow> action list" where
  "actions c cfg cr = map (action_for c cr) (desired_children cfg cr)"

lemma builder_keys [simp]:
  "wkey_of kd (buildDevicePluginDS cfg cr sel pp) = (kd, Namespace cfg, plugin_name)"
  "wkey_of kd (buildMetricsExporterDS cfg cr sel) = (kd, Namespace cfg, exporter_name)"
  "wkey_of kd (buildMetricsExporterService cfg cr) = (kd, Namespace cfg, exporter_name)"
  "wkey_of kd (buildStatusUpdaterDeployment cfg cr sel) = (kd, Namespace cfg, updater_name)"
  "wkey_of kd (buildNodeLabellerDS cfg cr sel) = (kd, Namespace cfg, labeller_name)"
  by (simp_all add: wkey_of_def builder_names builder_namespaces plugin_name_def exporter_name_def
      updater_name_def labeller_name_def)

lemma action_key_upsert [simp]: "action_key (upsert_action c cr kd want) = wkey_of kd want"
  by (simp add: upsert_action_def)

lemma child_names_distinct: "distinct [plugin_name, exporter_name, updater_name, labeller_name]"
  by (simp add: plugin_name_def exporter_name_def updater_name_def labeller_name_def)

lemma desired_children_distinct: "distinct (map fst (desired_children cfg cr))"
  using child_names_distinct by (auto simp: desired_children_def Let_def)

lemma action_key_for:
  "kd \<in> set (desired_children cfg cr) \<Longrightarrow> action_key (action_for c cr kd) = fst kd"
  by (auto simp: desired_children_def action_for_def Let_def split: if_splits)

lemma action_keys: "map action_key (actions c cfg cr) = map fst (desired_children cfg cr)"
  by (simp add: actions_def action_key_for)

lemma perform_upsert_action:
  "perform c (upsert_action c cr KDaemonSet want) w = applyDaemonSet c want cr w"
  "perform c (upsert_action c cr KDeployment want) w = applyDeployment c want cr w"
  "perform c (upsert_action c cr KService want) w = applyService c want cr w"
  by (simp_all add: upsert_action_def applyDaemonSet_def applyDeployment_def applyService_def)

lemma perform_all_append:
  "perform_all c (as @ bs) w =
     (case perform_all c as w of (None, w1) \<Rightarrow> perform_all c bs w1 | (Some e, w1) \<Rightarrow> (Some e, w1))"
  by (induction as arbitrary: w) (auto split: prod.splits option.splits)

text \<open>A block of the reconciler performs the actions it stands for.\<close>

definition performs :: "'w Client \<Rightarrow> action list \<Rightarrow> 'w \<Rightarrow> ('e + 'a) \<times> 'w \<Rightarrow> bool" where
  "performs c as w r \<longleftrightarrow>
     snd (perform_all c as w) = snd r \<and> (fst (perform_all c as w) = None \<longleftrightarrow> (\<exists>x. fst r = Inr x))"

lemma plugin_performs:
  "performs c (map (action_for c cr) (take 1 (desired_children cfg cr))) w
     (reconcile_plugin c cfg cr (effective_selector cfg cr) w)"
  by (auto simp: performs_def desired_children_def action_for_def Let_def perform_upsert_action
      reconcile_plugin_def split: prod.splits option.splits)

lemma exporter_performs:
  "performs c (map (action_for c cr) (take 2 (drop 1 (desired_children cfg cr)))) w
     (reconcile_exporter c cfg cr (effective_selector cfg cr) w)"
  by (auto simp: performs_def desired_children_def action_for_def Let_def perform_upsert_action
      reconcile_exporter_def split: prod.splits option.splits)

lemma always_performs:
  "fst (perform_all c (map (action_for c cr) (drop 3 (desired_children cfg cr))) w) = None \<longleftrightarrow>
     fst (reconcile_always c cfg cr (effective_selector cfg cr) w) = None"
  "snd (perform_all c (map (action_for c cr) (drop 3 (desired_children cfg cr))) w) =
     snd (reconcile_always c cfg cr (effective_selector cfg cr) w)"
  by (auto simp: desired_children_def action_for_def Let_def perform_upsert_action
      reconcile_always_def split: prod.splits option.splits)

lemma actions_blocks:
  "actions c cfg cr =
     map (action_for c cr) (take 1 (desired_children cfg cr)) @
     map (action_for c cr) (take 2 (drop 1 (desired_children cfg cr))) @
     map (action_for c cr) (drop 3 (desired_children cfg cr))"
  by (simp add: actions_def desired_children_def Let_def)

lemma reconcile_children_actions:
  "performs c (actions c cfg cr) w (reconcile_children c cfg cr w)"
proof -
  let ?sel = "effective_selector cfg cr"
  obtain r1 w1 where p: "reconcile_plugin c cfg cr ?sel w = (r1, w1)" by fastforce
  obtain r2 w2 where x: "reconcile_exporter c cfg cr ?sel w1 = (r2, w2)" by fastforce
  obtain r3 w3 where a: "reconcile_always c cfg cr ?sel w2 = (r3, w3)" by fastforce
  from plugin_performs [of c cr cfg w] exporter_performs [of c cr cfg w1] always_performs [of c cr cfg w2]
  show ?thesis
    by (cases r1; cases r2; cases r3)
       (auto simp: performs_def reconcile_children_def p x a actions_blocks perform_all_append
         split: prod.splits option.splits)
qed

text \<open>The desired children depend on the specification and the name of the resource only.\<close>

lemma actions_cong:
  assumes "Spec cr' = Spec cr" "dc_Name cr' = dc_Name cr"
  shows "actions c cfg cr' = actions c cfg cr"
proof -
  have "buildDevicePluginDS cfg cr' sel pp = buildDevicePluginDS cfg cr sel pp"
    "buildMetricsExporterDS cfg cr' sel = buildMetricsExporterDS cfg cr sel"
    "buildMetricsExporterService cfg cr' = buildMetricsExporterService cfg cr"
    "buildStatusUpdaterDeployment cfg cr' sel = buildStatusUpdaterDeployment cfg cr sel"
    "buildNodeLabellerDS cfg cr' sel = buildNodeLabellerDS cfg cr sel" for sel pp
    using assms(1) by (simp_all only: builder_defs effectiveGPUs_def)
  with assms(1) have "desired_children cfg cr' = desired_children cfg cr"
    by (simp only: desired_children_def effective_selector_def)
  moreover have "overwrite_owned c cr' = overwrite_owned c cr" "overwrite_service c cr' = overwrite_service c cr"
    by (simp_all add: fun_eq_iff overwrite_owned_def overwrite_service_def assms(2))
  then have "upsert_action c cr' = upsert_action c cr" by (simp only: upsert_action_def [abs_def])
  then have "action_for c cr' = action_for c cr" by (simp only: action_for_def [abs_def])
  ultimately show ?thesis by (simp add: actions_def)
qed

section \<open>What the client promises\<close>

text \<open>
  \<open>children\<close> and \<open>configs\<close> are the stored objects; \<open>assign\<close> is what the server does to an object it
  admits: it fills in fields the request left out, and keeps those that were given.
  \<open>CreateOrUpdate\<close> reads the object, applies the closure, and writes unless nothing changed.
\<close>

locale controller_client =
  fixes c :: "'w Client"
    and children :: "'w \<Rightarrow> wkey \<Rightarrow> Workload option"
    and configs :: "'w \<Rightarrow> string \<Rightarrow> DeviceConfig option"
    and assign :: "Workload \<Rightarrow> Workload"
  assumes get_config_Inr: "c_get_config c n w = Inr cr \<Longrightarrow> configs w n = Some cr \<and> dc_Name cr = n"
    and get_config_NotFound: "c_get_config c n w = Inl NotFound \<Longrightarrow> configs w n = None"
    and get_child_Inr: "c_get c k w = Inr x \<Longrightarrow> children w k = Some x"
    and upsert_None: "CreateOrUpdate c k want f w = (None, w') \<Longrightarrow>
      \<exists>y. f (case children w k of None \<Rightarrow> want | Some x \<Rightarrow> x) = Inr y \<and>
          children w' = (children w)(k \<mapsto> (if children w k = Some y then y else assign y))"
    and upsert_refused: "f (case children w k of None \<Rightarrow> want | Some x \<Rightarrow> x) = Inl e \<Longrightarrow>
      CreateOrUpdate c k want f w = (r, w') \<Longrightarrow> children w' = children w"
    and upsert_frame: "CreateOrUpdate c k want f w = (r, w') \<Longrightarrow>
      configs w' = configs w \<and> (\<forall>k'. k' \<noteq> k \<longrightarrow> children w' k' = children w k')"
    and remove_None: "c_delete c k w = (None, w') \<Longrightarrow> children w' = (children w)(k := None)"
    and remove_NotFound: "c_delete c k w = (Some NotFound, w') \<Longrightarrow>
      children w k = None \<and> children w' = children w"
    and remove_frame: "c_delete c k w = (r, w') \<Longrightarrow>
      configs w' = configs w \<and> (\<forall>k'. k' \<noteq> k \<longrightarrow> children w' k' = children w k')"
    and update_status_children: "c_update_status c cr w = (r, w') \<Longrightarrow> children w' = children w"
    and update_status_configs: "c_update_status c cr w = (r, w') \<Longrightarrow>
      configs w' = configs w \<and> r \<noteq> None \<or>
      (\<exists>old. configs w (dc_Name cr) = Some old \<and>
             configs w' = (configs w)(dc_Name cr \<mapsto> old\<lparr>Status := Status cr\<rparr>))"
    and set_ref_Inr: "SetControllerReference c owner m = Inr m' \<Longrightarrow>
      m' = m\<lparr>om_controller := Some owner\<rparr> \<and> om_controller m \<in> {None, Some owner}"
    and assign_meta: "w_Meta (assign x) = w_Meta x"
    and assign_counters: "NumberReady (assign x) = NumberReady x \<and>
      DesiredNumberScheduled (assign x) = DesiredNumberScheduled x"
    and assign_args: "container_args (assign x) = container_args x"
    and assign_selector: "node_selector_of (assign x) = node_selector_of x"
    and assign_ip: "cluster_ip x \<noteq> [] \<Longrightarrow> cluster_ip (assign x) = cluster_ip x"
    and assign_stable: "assign (set_cluster_ip (cluster_ip (assign x)) x) = assign x"

text \<open>A stored object that carries what the builder asked for, under the given controller.\<close>

definition matches :: "string \<Rightarrow> Workload \<Rightarrow> Workload \<Rightarrow> bool" where
  "matches owner want x \<longleftrightarrow>
     om_controller (w_Meta x) = Some owner \<and> om_Labels (w_Meta x) = om_Labels (w_Meta want) \<and>
     container_args x = container_args want \<and> node_selector_of x = node_selector_of want"

definition agrees :: "string \<Rightarrow> Workload option \<Rightarrow> Workload option \<Rightarrow> bool" where
  "agrees owner want x =
     (case (want, x) of (None, None) \<Rightarrow> True | (Some d, Some y) \<Rightarrow> matches owner d y | _ \<Rightarrow> False)"

text \<open>A stored object that its closure leaves as it is, or whose result the server turns back into it.\<close>

definition settled :: "(Workload \<Rightarrow> Workload) \<Rightarrow> (Workload \<Rightarrow> api_error + Workload) \<Rightarrow> Workload \<Rightarrow> bool" where
  "settled assign f x \<longleftrightarrow> (\<forall>y. f x = Inr y \<longrightarrow> y = x \<or> assign y = x)"

fun achieved :: "(Workload \<Rightarrow> Workload) \<Rightarrow> (wkey \<Rightarrow> Workload option) \<Rightarrow> action \<Rightarrow> bool" where
  "achieved assign v (Upsert k want f) = (case v k of None \<Rightarrow> False | Some x \<Rightarrow> settled assign f x)"
| "achieved assign v (Remove k) = (v k = None)"

lemma set_cluster_ip_simps [simp]:
  "w_Meta (set_cluster_ip ip x) = w_Meta x"
  "container_args (set_cluster_ip ip x) = container_args x"
  "node_selector_of (set_cluster_ip ip x) = node_selector_of x"
  "set_cluster_ip ip (set_cluster_ip ip' x) = set_cluster_ip ip x"
  by (simp_all add: set_cluster_ip_def container_args_def node_selector_of_def split: WorkloadSpec.splits)

lemma overwrite_simps [simp]:
  "w_Spec (overwrite d x) = w_Spec d"
  "om_Labels (w_Meta (overwrite d x)) = om_Labels (w_Meta d)"
  "om_controller (w_Meta (overwrite d x)) = om_controller (w_Meta x)"
  "container_args (overwrite d x) = container_args d"
  "node_selector_of (overwrite d x) = node_selector_of d"
  by (simp_all add: overwrite_def container_args_def node_selector_of_def)

context controller_client
begin

lemma own_Inr:
  assumes "own (SetControllerReference c) owner x = Inr y"
  shows "y = x\<lparr>w_Meta := (w_Meta x)\<lparr>om_controller := Some owner\<rparr>\<rparr>"
    "om_controller (w_Meta x) \<in> {None, Some owner}"
  using assms set_ref_Inr by (auto simp: own_def split: sum.splits)

lemma own_simps:
  assumes "own (SetControllerReference c) owner x = Inr y"
  shows "om_controller (w_Meta y) = Some owner" "om_Labels (w_Meta y) = om_Labels (w_Meta x)"
    "container_args y = container_args x" "node_selector_of y = node_selector_of x"
    "w_Spec y = w_Spec x" "cluster_ip y = cluster_ip x"
  using own_Inr [OF assms]
  by (simp_all add: container_args_def node_selector_of_def cluster_ip_def)

lemma matches_assign [simp]: "matches owner want (assign y) = matches owner want y"
  by (simp add: matches_def assign_meta assign_args assign_selector)

lemma overwrite_matches:
  "overwrite_owned c cr want x = Inr y \<Longrightarrow> matches (dc_Name cr) want y"
  "overwrite_service c cr want x = Inr y \<Longrightarrow> matches (dc_Name cr) want y"
  by (auto simp: overwrite_owned_def overwrite_service_def matches_def dest: own_simps)

text \<open>Running a closure on its own result changes nothing.\<close>

lemma overwrite_twice:
  assumes "overwrite_owned c cr want x = Inr y" "overwrite_owned c cr want y' = Inr z"
    "w_Meta y' = w_Meta y" "NumberReady y' = NumberReady y"
    "DesiredNumberScheduled y' = DesiredNumberScheduled y"
  shows "z = y"
  using assms own_Inr(1) [of "dc_Name cr" "overwrite want x" y]
    own_Inr(1) [of "dc_Name cr" "overwrite want y'" z]
  by (simp add: overwrite_owned_def overwrite_def)

lemma overwrite_service_twice:
  assumes "overwrite_service c cr want x = Inr y" "overwrite_service c cr want y' = Inr z"
    "w_Meta y' = w_Meta y" "NumberReady y' = NumberReady y"
    "DesiredNumberScheduled y' = DesiredNumberScheduled y"
  shows "z = set_cluster_ip (cluster_ip y') y"
  using assms own_Inr(1) [of "dc_Name cr" "set_cluster_ip (cluster_ip x) (overwrite want x)" y]
    own_Inr(1) [of "dc_Name cr" "set_cluster_ip (cluster_ip y') (overwrite want y')" z]
  by (simp add: overwrite_service_def overwrite_def set_cluster_ip_def split: WorkloadSpec.splits)

lemma settled_owned:
  assumes "overwrite_owned c cr want x = Inr y"
  shows "settled assign (overwrite_owned c cr want) y"
    "settled assign (overwrite_owned c cr want) (assign y)"
  using overwrite_twice [OF assms, of y] overwrite_twice [OF assms, of "assign y"]
  by (auto simp: settled_def assign_meta assign_counters)

lemma set_cluster_ip_same: "set_cluster_ip (cluster_ip x) x = x"
  by (simp add: set_cluster_ip_def cluster_ip_def split: WorkloadSpec.splits)

lemma settled_service:
  assumes "overwrite_service c cr want x = Inr y"
  shows "settled assign (overwrite_service c cr want) y"
    "settled assign (overwrite_service c cr want) (assign y)"
  using overwrite_service_twice [OF assms, of y] overwrite_service_twice [OF assms, of "assign y"]
  by (auto simp: settled_def assign_meta assign_counters set_cluster_ip_same assign_stable)

lemma upsert_action_None:
  assumes "perform c (upsert_action c cr kd want) w = (None, w')"
  obtains x where "children w' = (children w)(wkey_of kd want \<mapsto> x)"
    "matches (dc_Name cr) want x" "achieved assign (children w') (upsert_action c cr kd want)"
proof -
  let ?f = "if kd = KService then overwrite_service c cr want else overwrite_owned c cr want"
  let ?k = "wkey_of kd want"
  obtain y where y: "?f (case children w ?k of None \<Rightarrow> want | Some x \<Rightarrow> x) = Inr y"
    "children w' = (children w)(?k \<mapsto> (if children w ?k = Some y then y else assign y))"
    using assms upsert_None by (fastforce simp: upsert_action_def)
  show thesis
    by (rule that [OF y(2)])
       (use y in \<open>auto simp: upsert_action_def settled_owned settled_service
          dest: overwrite_matches split: if_splits\<close>)
qed

lemma remove_action_None:
  assumes "perform c (Remove k) w = (None, w')"
  shows "children w' = (children w)(k := None)"
  using assms remove_None remove_NotFound [of k w w']
  by (auto simp: deleteIfExists_def fun_eq_iff split: prod.splits option.splits if_splits)

lemma delete_if_exists_frame:
  assumes "deleteIfExists c k w = (r, w')"
  shows "configs w' = configs w \<and> (\<forall>k'. k' \<noteq> k \<longrightarrow> children w' k' = children w k')"
proof -
  obtain r1 w1 where d: "c_delete c k w = (r1, w1)" by fastforce
  with assms have "w1 = w'" by (auto simp: deleteIfExists_def split: option.splits if_splits)
  with remove_frame [OF d] show ?thesis by simp
qed

lemma perform_frame:
  assumes "perform c a w = (r, w')"
  shows "configs w' = configs w" "k \<noteq> action_key a \<Longrightarrow> children w' k = children w k"
proof -
  have "configs w' = configs w \<and> (\<forall>k. k \<noteq> action_key a \<longrightarrow> children w' k = children w k)"
  proof (cases a)
    case (Upsert k want f)
    with assms show ?thesis by (simp add: upsert_frame del: split_paired_All)
  next
    case (Remove k)
    with assms show ?thesis by (simp add: delete_if_exists_frame del: split_paired_All)
  qed
  then show "configs w' = configs w" "k \<noteq> action_key a \<Longrightarrow> children w' k = children w k"
    by blast+
qed

lemma perform_all_frame:
  "perform_all c as w = (r, w') \<Longrightarrow>
     configs w' = configs w \<and> (k \<notin> action_key ` set as \<longrightarrow> children w' k = children w k)"
proof (induction as arbitrary: w)
  case (Cons a as)
  obtain r1 w1 where p: "perform c a w = (r1, w1)" by fastforce
  with Cons perform_frame(1) [OF p] perform_frame(2) [OF p, of k] show ?case
    by (cases r1) (auto simp del: split_paired_All)
qed simp

text \<open>Each action of a successful run with distinct keys runs once, on its own key.\<close>

lemma perform_all_split:
  assumes "perform_all c as w = (None, w')" "distinct (map action_key as)" "a \<in> set as"
  obtains w0 w1 where "perform c a w0 = (None, w1)"
    "children w0 (action_key a) = children w (action_key a)"
    "children w' (action_key a) = children w1 (action_key a)"
proof -
  from assms(3) obtain as1 as2 where as: "as = as1 @ a # as2" by (meson split_list)
  obtain w0 where w0: "perform_all c as1 w = (None, w0)" "perform_all c (a # as2) w0 = (None, w')"
    using assms(1) by (auto simp: as perform_all_append split: prod.splits option.splits)
  then obtain w1 where w1: "perform c a w0 = (None, w1)" "perform_all c as2 w1 = (None, w')"
    by (auto split: prod.splits option.splits)
  have "action_key a \<notin> action_key ` set as1" "action_key a \<notin> action_key ` set as2"
    using assms(2) by (auto simp: as)
  then show thesis
    using perform_all_frame [OF w0(1), of "action_key a"] perform_all_frame [OF w1(2), of "action_key a"]
    by (intro that [OF w1(1)]) auto
qed

text \<open>A run whose actions are all achieved already leaves the children as they are.\<close>

lemma perform_quiet:
  assumes "perform c a w = (None, w')" "achieved assign (children w) a"
  shows "children w' = children w"
proof (cases a)
  case (Upsert k want f)
  with assms obtain x where x: "children w k = Some x" "settled assign f x"
    by (auto split: option.splits)
  with assms Upsert obtain y where "f x = Inr y"
    "children w' = (children w)(k \<mapsto> (if children w k = Some y then y else assign y))"
    using upsert_None [of k want f w w'] by auto
  with x show ?thesis by (auto simp: settled_def fun_upd_idem)
next
  case (Remove k)
  with assms show ?thesis using remove_action_None by (auto simp: fun_upd_idem)
qed

lemma perform_all_quiet:
  "perform_all c as w = (None, w') \<Longrightarrow> (\<forall>a \<in> set as. achieved assign (children w) a) \<Longrightarrow>
     children w' = children w"
proof (induction as arbitrary: w)
  case (Cons a as)
  then obtain w1 where p: "perform c a w = (None, w1)" "perform_all c as w1 = (None, w')"
    by (auto split: prod.splits option.splits)
  with Cons perform_quiet [OF p(1)] show ?case by simp
qed simp

lemma Reconcile_found:
  assumes "Reconcile c cfg n w = (r, w')" "configs w n = Some cr"
  obtains e where "r = Some (GetDeviceConfig e)" "w' = w"
  | e w1 where "reconcile_children c cfg cr w = (Inl e, w')" "r = Some e"
  | status w1 where "reconcile_children c cfg cr w = (Inr status, w1)" "r = None"
    "w' = snd (c_update_status c (cr\<lparr>Status := status\<rparr>) w1)" "dc_Name cr = n"
proof (cases "c_get_config c n w")
  case (Inl e)
  with assms get_config_NotFound [of n w] that(1) show thesis
    by (auto simp: Reconcile_def split: if_splits)
next
  case (Inr cr')
  then have "configs w n = Some cr'" "dc_Name cr' = n" using get_config_Inr by auto
  with assms Inr that(2,3) show thesis
    by (auto simp: Reconcile_def split: prod.splits sum.splits)
qed

lemma Reconcile_None:
  assumes "Reconcile c cfg n w = (None, w')" "configs w n = Some cr"
  obtains w1 status where "perform_all c (actions c cfg cr) w = (None, w1)"
    "reconcile_children c cfg cr w = (Inr status, w1)"
    "w' = snd (c_update_status c (cr\<lparr>Status := status\<rparr>) w1)"
    "children w' = children w1" "dc_Name cr = n"
  using assms
proof (cases rule: Reconcile_found)
  case (3 status w1)
  from reconcile_children_actions [of c cfg cr w] 3(1)
  have "perform_all c (actions c cfg cr) w = (None, w1)"
    by (cases "perform_all c (actions c cfg cr) w") (simp add: performs_def)
  moreover have "children w' = children w1"
    using update_status_children [of "cr\<lparr>Status := status\<rparr>" w1] 3(3)
    by (metis prod.collapse)
  ultimately show thesis using that 3 by blast
qed simp_all

text \<open>After a successful reconcile every child is as desired.\<close>

lemma action_achieves:
  assumes "kd \<in> set (desired_children cfg cr)" "perform c (action_for c cr kd) w = (None, w')"
  shows "agrees (dc_Name cr) (snd kd) (children w' (fst kd)) \<and>
    achieved assign (children w') (action_for c cr kd)"
proof (cases "snd kd")
  case None
  with assms(2) remove_action_None show ?thesis by (simp add: action_for_def agrees_def)
next
  case (Some want)
  with assms(2) have "perform c (upsert_action c cr (fst (fst kd)) want) w = (None, w')"
    by (simp add: action_for_def)
  moreover have "wkey_of (fst (fst kd)) want = fst kd"
    using action_key_for [OF assms(1)] Some by (simp add: action_for_def)
  ultimately show ?thesis using Some
    by (elim upsert_action_None) (auto simp: action_for_def agrees_def)
qed

lemma achieved_cong: "v (action_key a) = v' (action_key a) \<Longrightarrow> achieved assign v a = achieved assign v' a"
  by (cases a) simp_all

lemma actions_achieved:
  assumes "perform_all c (actions c cfg cr) w = (None, w')" "kd \<in> set (desired_children cfg cr)"
  shows "agrees (dc_Name cr) (snd kd) (children w' (fst kd)) \<and>
    achieved assign (children w') (action_for c cr kd)"
proof -
  have "action_for c cr kd \<in> set (actions c cfg cr)"
    using assms(2) by (simp add: actions_def)
  then obtain w0 w1 where "perform c (action_for c cr kd) w0 = (None, w1)"
    "children w' (fst kd) = children w1 (fst kd)"
    using perform_all_split [OF assms(1)] action_keys desired_children_distinct
      action_key_for [OF assms(2)] by metis
  then show ?thesis
    using action_achieves [OF assms(2)] achieved_cong [of "children w'" "action_for c cr kd" "children w1"]
      action_key_for [OF assms(2)] by metis
qed

lemma Reconcile_desired:
  assumes "Reconcile c cfg n w = (None, w')" "configs w n = Some cr"
    "(k, want) \<in> set (desired_children cfg cr)"
  shows "agrees n want (children w' k)"
  using assms(1,2)
proof (rule Reconcile_None)
  fix w1 status assume "perform_all c (actions c cfg cr) w = (None, w1)"
    "children w' = children w1" "dc_Name cr = n"
  with actions_achieved [OF _ assms(3)] show ?thesis by auto
qed

text \<open>Whatever the outcome, only the five child keys are touched.\<close>

lemma Reconcile_frame:
  assumes "Reconcile c cfg n w = (r, w')" "k \<notin> (\<lambda>nm. (KDaemonSet, Namespace cfg, nm)) `
      {plugin_name, exporter_name, labeller_name}"
    "k \<noteq> (KService, Namespace cfg, exporter_name)" "k \<noteq> (KDeployment, Namespace cfg, updater_name)"
  shows "children w' k = children w k"
proof (cases "c_get_config c n w")
  case (Inl e)
  with assms(1) show ?thesis by (simp add: Reconcile_def split: if_splits)
next
  case (Inr cr)
  obtain r1 w1 where rc: "reconcile_children c cfg cr w = (r1, w1)" by fastforce
  have "children w' = children w1"
    using assms(1) Inr rc update_status_children
    by (auto simp: Reconcile_def split: sum.splits) (metis prod.collapse)
  moreover have "k \<notin> action_key ` set (actions c cfg cr)"
    using assms(2-4) action_keys [of c cfg cr] unfolding list.set_map [symmetric]
    by (auto simp: desired_children_def Let_def)
  then have "children w1 k = children w k"
    using perform_all_frame [of "actions c cfg cr" w] reconcile_children_actions [of c cfg cr w] rc
    by (metis performs_def prod.collapse snd_conv)
  ultimately show ?thesis by simp
qed

text \<open>A second reconcile leaves the children alone, as long as nobody else wrote in between.\<close>

lemma Reconcile_config:
  assumes "Reconcile c cfg n w = (None, w')" "configs w n = Some cr"
  obtains cr' where "configs w' n = Some cr'" "Spec cr' = Spec cr" "dc_Name cr' = dc_Name cr"
  using assms
proof (cases rule: Reconcile_None)
  case (1 w1 status)
  have "configs w1 = configs w" using perform_all_frame [OF 1(1)] by blast
  moreover obtain r where "c_update_status c (cr\<lparr>Status := status\<rparr>) w1 = (r, w')"
    using 1(3) by (metis prod.collapse)
  note update_status_configs [OF this]
  ultimately show thesis using that assms(2) 1(5) by auto
qed

lemma Reconcile_idem:
  assumes "Reconcile c cfg n w = (None, w1)" "configs w n = Some cr" "Reconcile c cfg n w1 = (None, w2)"
  shows "children w2 = children w1"
proof -
  obtain cr' where cr': "configs w1 n = Some cr'" "Spec cr' = Spec cr" "dc_Name cr' = dc_Name cr"
    using assms(1,2) by (rule Reconcile_config)
  obtain v1 where v1: "perform_all c (actions c cfg cr) w = (None, v1)" "children w1 = children v1"
    using assms(1,2) by (rule Reconcile_None)
  obtain v2 where "perform_all c (actions c cfg cr') w1 = (None, v2)" "children w2 = children v2"
    using assms(3) cr'(1) by (rule Reconcile_None)
  then have v2: "perform_all c (actions c cfg cr) w1 = (None, v2)" "children w2 = children v2"
    by (simp_all only: actions_cong [OF cr'(2,3)])
  have "\<forall>a \<in> set (actions c cfg cr). achieved assign (children w1) a"
    using actions_achieved [OF v1(1)] v1(2) by (auto simp: actions_def)
  from perform_all_quiet [OF v2(1) this] v2(2) show ?thesis by simp
qed

text \<open>The status never claims a workload ready that is not.\<close>

definition ready_in :: "'w \<Rightarrow> wkey \<Rightarrow> bool" where
  "ready_in w k \<longleftrightarrow> (\<exists>x. children w k = Some x \<and> 0 < NumberReady x \<and> NumberReady x = DesiredNumberScheduled x)"

lemma dsReady_ready: "dsReady c ns nm w \<Longrightarrow> ready_in w (KDaemonSet, ns, nm)"
  using get_child_Inr by (auto simp: dsReady_def ready_in_def split: sum.splits)

lemma performs_frame:
  assumes "performs c as w r" "k \<notin> action_key ` set as"
  shows "children (snd r) k = children w k"
  using assms perform_all_frame [of as w] by (metis performs_def prod.collapse)

lemma reconcile_children_status:
  assumes "reconcile_children c cfg cr w = (Inr st, w')"
  shows "DevicePluginReady st \<longrightarrow> ready_in w' (KDaemonSet, Namespace cfg, plugin_name)"
    "MetricsExporterReady st \<longrightarrow> ready_in w' (KDaemonSet, Namespace cfg, exporter_name)"
    "Conditions st = []"
proof -
  let ?sel = "effective_selector cfg cr"
  obtain r1 w1 where p: "reconcile_plugin c cfg cr ?sel w = (r1, w1)" by fastforce
  obtain r2 w2 where x: "reconcile_exporter c cfg cr ?sel w1 = (r2, w2)" by fastforce
  obtain r3 w3 where a: "reconcile_always c cfg cr ?sel w2 = (r3, w3)" by fastforce
  from assms p x a obtain dp me where st: "r1 = Inr dp" "r2 = Inr me" "w' = w3"
    "st = empty_status\<lparr>DevicePluginReady := dp, MetricsExporterReady := me\<rparr>"
    by (auto simp: reconcile_children_def Let_def split: sum.splits option.splits)
  have "dp \<longrightarrow> ready_in w1 (KDaemonSet, Namespace cfg, plugin_name)"
    using p st(1) dsReady_ready
    by (auto simp: reconcile_plugin_def Let_def builder_namespaces builder_names plugin_name_def
        split: if_splits prod.splits option.splits)
  moreover have "me \<longrightarrow> ready_in w2 (KDaemonSet, Namespace cfg, exporter_name)"
    using x st(2) dsReady_ready
    by (auto simp: reconcile_exporter_def Let_def builder_namespaces builder_names exporter_name_def
        split: if_splits prod.splits option.splits)
  moreover have "children w3 (KDaemonSet, Namespace cfg, nm) = children w2 (KDaemonSet, Namespace cfg, nm)"
    if "nm \<noteq> labeller_name" for nm
  proof -
    have "(KDaemonSet, Namespace cfg, nm) \<notin>
        action_key ` set (map (action_for c cr) (drop 3 (desired_children cfg cr)))"
      using that by (auto simp: desired_children_def Let_def action_for_def)
    with perform_all_frame [of "map (action_for c cr) (drop 3 (desired_children cfg cr))" w2]
      always_performs(2) [of c cr cfg w2] a show ?thesis by (metis prod.collapse snd_conv)
  qed
  moreover have "children w2 (KDaemonSet, Namespace cfg, plugin_name) =
      children w1 (KDaemonSet, Namespace cfg, plugin_name)"
    using performs_frame [OF exporter_performs [of c cr cfg w1]] x child_names_distinct
    by (force simp: desired_children_def Let_def action_for_def split: if_splits)
  ultimately show
    "DevicePluginReady st \<longrightarrow> ready_in w' (KDaemonSet, Namespace cfg, plugin_name)"
    "MetricsExporterReady st \<longrightarrow> ready_in w' (KDaemonSet, Namespace cfg, exporter_name)"
    "Conditions st = []"
    using st child_names_distinct by (auto simp: ready_in_def empty_status_def)
qed

text \<open>The address the server gave the exporter's Service survives.\<close>

lemma cluster_ip_overwrite_service:
  assumes "overwrite_service c cr want x = Inr y" "w_Spec want = ServiceSpecOf s"
  shows "cluster_ip y = cluster_ip x"
  using own_simps(6) [OF assms(1) [unfolded overwrite_service_def]] assms(2)
  by (simp add: set_cluster_ip_def) (simp add: cluster_ip_def)

lemma perform_service_ip:
  assumes "perform c (upsert_action c cr KService want) w = (None, w')"
    "children w (wkey_of KService want) = Some x" "cluster_ip x \<noteq> []" "w_Spec want = ServiceSpecOf s"
  shows "\<exists>x'. children w' (wkey_of KService want) = Some x' \<and> cluster_ip x' = cluster_ip x"
proof -
  obtain y where "overwrite_service c cr want x = Inr y"
    "children w' = (children w)(wkey_of KService want \<mapsto>
       (if children w (wkey_of KService want) = Some y then y else assign y))"
    using assms(1,2) upsert_None by (fastforce simp: upsert_action_def)
  with assms(3) cluster_ip_overwrite_service [OF _ assms(4)] show ?thesis
    by (auto simp: assign_ip)
qed

lemma Reconcile_cluster_ip:
  assumes "Reconcile c cfg n w = (None, w')" "configs w n = Some cr"
    "enabled (me_Enable (MetricsExporter (Spec cr))) True"
    "children w (KService, Namespace cfg, exporter_name) = Some x" "cluster_ip x \<noteq> []"
  shows "\<exists>x'. children w' (KService, Namespace cfg, exporter_name) = Some x' \<and>
    cluster_ip x' = cluster_ip x"
  using assms(1,2)
proof (rule Reconcile_None)
  fix w1 status
  let ?want = "buildMetricsExporterService cfg cr"
  let ?a = "upsert_action c cr KService ?want"
  assume pa: "perform_all c (actions c cfg cr) w = (None, w1)" and c1: "children w' = children w1"
  have "?a \<in> set (actions c cfg cr)"
    using assms(3) by (simp add: actions_def desired_children_def Let_def action_for_def)
  then obtain w0 w2 where s: "perform c ?a w0 = (None, w2)"
    "children w0 (action_key ?a) = children w (action_key ?a)"
    "children w1 (action_key ?a) = children w2 (action_key ?a)"
    using perform_all_split [OF pa] action_keys desired_children_distinct by metis
  obtain sp where "w_Spec ?want = ServiceSpecOf sp"
    by (simp add: buildMetricsExporterService_def new_workload_def)
  from perform_service_ip [OF s(1) _ assms(5) this] s(2,3) assms(4) c1 show ?thesis by simp
qed

text \<open>An object that another controller owns is not taken over: the reconcile fails instead.\<close>

lemma foreign_refused:
  assumes "om_controller (w_Meta x) = Some o'" "o' \<noteq> dc_Name cr"
  shows "\<exists>e. overwrite_owned c cr want x = Inl e" "\<exists>e. overwrite_service c cr want x = Inl e"
proof -
  have "\<exists>e. own (SetControllerReference c) (dc_Name cr) z = Inl e"
    if "om_controller (w_Meta z) = Some o'" for z
    using own_Inr(2) [of "dc_Name cr" z] that assms(2)
    by (cases "own (SetControllerReference c) (dc_Name cr) z") auto
  with assms(1) show "\<exists>e. overwrite_owned c cr want x = Inl e" "\<exists>e. overwrite_service c cr want x = Inl e"
    by (simp_all add: overwrite_owned_def overwrite_service_def)
qed

lemma perform_all_refused:
  assumes "perform_all c as w = (r, w')" "distinct (map action_key as)" "Upsert k want f \<in> set as"
    "children w k = Some x" "f x = Inl e"
  shows "children w' k = Some x \<and> r \<noteq> None"
  using assms
proof (induction as arbitrary: w)
  case (Cons a as)
  obtain r1 w1 where p: "perform c a w = (r1, w1)" by fastforce
  show ?case
  proof (cases "a = Upsert k want f")
    case True
    with p Cons.prems(4,5) have "children w1 = children w" "r1 \<noteq> None"
      using upsert_refused [where f = f and w = w and k = k and want = want] upsert_None [of k want f w w1] by auto
    with Cons.prems(1,4) p show ?thesis by auto
  next
    case False
    with Cons.prems(3) have m: "Upsert k want f \<in> set as" by simp
    then have "k \<in> action_key ` set as" by force
    with Cons.prems(2) m have k: "k \<noteq> action_key a" "Upsert k want f \<in> set as"
      by (metis distinct.simps(2) list.set_map list.simps(9), simp)
    with perform_frame(2) [OF p k(1)] Cons p show ?thesis by (cases r1) auto
  qed
qed simp

lemma Reconcile_foreign:
  assumes "Reconcile c cfg n w = (r, w')" "configs w n = Some cr"
    "(k, Some want) \<in> set (desired_children cfg cr)"
    "children w k = Some x" "om_controller (w_Meta x) = Some o'" "o' \<noteq> n"
  shows "children w' k = Some x \<and> r \<noteq> None"
proof (cases "c_get_config c n w")
  case (Inl e)
  with assms(1,2,4) get_config_NotFound [of n w] show ?thesis
    by (auto simp: Reconcile_def split: if_splits)
next
  case (Inr cr')
  then have cr': "cr' = cr" "dc_Name cr = n" using get_config_Inr [of n w cr'] assms(2) by auto
  have a: "action_for c cr (k, Some want) = upsert_action c cr (fst k) want"
    by (simp add: action_for_def)
  then have key: "wkey_of (fst k) want = k" using action_key_for [OF assms(3), of c] by simp
  obtain f e where f: "upsert_action c cr (fst k) want = Upsert k want f" "f x = Inl e"
    using foreign_refused [OF assms(5), of cr want] assms(6) cr'(2) key
    by (cases "fst k = KService") (auto simp: upsert_action_def)
  obtain rc w1 where rc: "reconcile_children c cfg cr w = (rc, w1)" by fastforce
  obtain r1 w2 where pa: "perform_all c (actions c cfg cr) w = (r1, w2)" by fastforce
  have "Upsert k want f \<in> set (actions c cfg cr)"
    using assms(3) a f(1) by (force simp: actions_def)
  then have "children w2 k = Some x \<and> r1 \<noteq> None"
    using perform_all_refused [where as = "actions c cfg cr" and w = w and f = f] pa assms(4) f(2)
      action_keys [of c cfg cr] desired_children_distinct by metis
  with reconcile_children_actions [of c cfg cr w] rc pa Inr cr' assms(1) show ?thesis
    by (auto simp: Reconcile_def performs_def split: sum.splits)
qed

end

section \<open>A reference cluster\<close>

record cluster =
  cl_children :: "(wkey, Workload) server"
  cl_configs :: "(string, DeviceConfig) server"

definition cl_view :: "cluster \<Rightarrow> wkey \<Rightarrow> Workload option" where
  "cl_view w = objects (cl_children w)"

definition cl_config_view :: "cluster \<Rightarrow> string \<Rightarrow> DeviceConfig option" where
  "cl_config_view w n = map_option (\<lambda>cr. cr\<lparr>dc_Name := n\<rparr>) (objects (cl_configs w) n)"

definition cl_assign :: "Workload \<Rightarrow> Workload" where
  "cl_assign x = (if cluster_ip x = [] then set_cluster_ip ''10.96.0.10'' x else x)"

definition cl_get_config :: "string \<Rightarrow> cluster \<Rightarrow> api_error + DeviceConfig" where
  "cl_get_config n w =
     (case srv_get n (cl_configs w) of Inl e \<Rightarrow> Inl e | Inr cr \<Rightarrow> Inr (cr\<lparr>dc_Name := n\<rparr>))"

definition cl_write :: "api_error option \<times> (wkey, Workload) server \<Rightarrow> cluster \<Rightarrow> api_error option \<times> cluster" where
  "cl_write r w = (fst r, w\<lparr>cl_children := snd r\<rparr>)"

definition cl_upsert ::
  "wkey \<Rightarrow> Workload \<Rightarrow> (Workload \<Rightarrow> api_error + Workload) \<Rightarrow> cluster \<Rightarrow> api_error option \<times> cluster" where
  "cl_upsert k want f w =
     (case srv_get k (cl_children w) of
        Inl e \<Rightarrow>
          if e \<noteq> NotFound then (Some e, w)
          else (case f want of
            Inl e' \<Rightarrow> (Some e', w)
          | Inr y \<Rightarrow> cl_write (srv_create k (cl_assign y) (cl_children w)) w)
      | Inr x \<Rightarrow>
          (case f x of
             Inl e' \<Rightarrow> (Some e', w)
           | Inr y \<Rightarrow>
               if y = x then (None, w)
               else cl_write (srv_update k (cl_assign y) (cl_children w)) w))"

definition cl_update_status :: "DeviceConfig \<Rightarrow> cluster \<Rightarrow> api_error option \<times> cluster" where
  "cl_update_status cr w =
     (case srv_get (dc_Name cr) (cl_configs w) of
        Inl e \<Rightarrow> (Some e, w)
      | Inr old \<Rightarrow>
          let r = srv_update (dc_Name cr) (old\<lparr>Status := Status cr\<rparr>) (cl_configs w)
          in (fst r, w\<lparr>cl_configs := snd r\<rparr>))"

definition cl_set_ref :: "string \<Rightarrow> ObjectMeta \<Rightarrow> api_error + ObjectMeta" where
  "cl_set_ref owner m =
     (if om_controller m \<in> {None, Some owner} then Inr (m\<lparr>om_controller := Some owner\<rparr>)
      else Inl (OtherError ''object is already owned by another controller''))"

definition cl_client :: "cluster Client" where
  "cl_client =
     \<lparr>c_get_config = cl_get_config, c_get = (\<lambda>k w. srv_get k (cl_children w)),
      CreateOrUpdate = cl_upsert, c_delete = (\<lambda>k w. cl_write (srv_delete k (cl_children w)) w),
      c_update_status = cl_update_status, SetControllerReference = cl_set_ref\<rparr>"

lemma cl_client_simps [simp]:
  "c_get_config cl_client = cl_get_config"
  "c_get cl_client k w = srv_get k (cl_children w)"
  "CreateOrUpdate cl_client = cl_upsert"
  "c_delete cl_client k w = cl_write (srv_delete k (cl_children w)) w"
  "c_update_status cl_client = cl_update_status"
  "SetControllerReference cl_client = cl_set_ref"
  by (simp_all add: cl_client_def)

lemmas cl_defs = cl_view_def [abs_def] cl_config_view_def [abs_def] cl_get_config_def cl_write_def cl_upsert_def
  cl_update_status_def cl_set_ref_def Let_def

lemma cl_assign_stable: "cl_assign (set_cluster_ip (cluster_ip (cl_assign x)) x) = cl_assign x"
  by (auto simp: cl_assign_def cluster_ip_def set_cluster_ip_def split: WorkloadSpec.splits)

lemma set_cluster_ip_counters [simp]:
  "NumberReady (set_cluster_ip ip x) = NumberReady x"
  "DesiredNumberScheduled (set_cluster_ip ip x) = DesiredNumberScheduled x"
  by (simp_all add: set_cluster_ip_def split: WorkloadSpec.splits)

lemma cl_assign_laws:
  "w_Meta (cl_assign x) = w_Meta x"
  "NumberReady (cl_assign x) = NumberReady x \<and> DesiredNumberScheduled (cl_assign x) = DesiredNumberScheduled x"
  "container_args (cl_assign x) = container_args x"
  "node_selector_of (cl_assign x) = node_selector_of x"
  "cluster_ip x \<noteq> [] \<Longrightarrow> cluster_ip (cl_assign x) = cluster_ip x"
  by (simp_all add: cl_assign_def)

lemma cl_upsert_None:
  assumes "cl_upsert k want f w = (None, w')"
  shows "\<exists>y. f (case cl_view w k of None \<Rightarrow> want | Some x \<Rightarrow> x) = Inr y \<and>
    cl_view w' = (cl_view w)(k \<mapsto> (if cl_view w k = Some y then y else cl_assign y))"
proof -
  let ?base = "case cl_view w k of None \<Rightarrow> want | Some x \<Rightarrow> x"
  obtain y where y: "f ?base = Inr y"
    using assms by (cases "f ?base")
      (auto simp: cl_upsert_def cl_view_def srv_get_def srv_error_def split: if_splits option.splits)
  with assms show ?thesis
    by (intro exI [of _ y])
       (auto simp: cl_defs srv_defs fun_upd_idem split: if_splits option.splits)
qed

interpretation cl: controller_client cl_client cl_view cl_config_view cl_assign
  by (unfold_locales; (unfold cl_client_simps)?;
      (rule cl_assign_laws cl_assign_stable cl_upsert_None | assumption)?)
     (auto simp: cl_defs srv_defs fun_upd_idem cl_assign_laws split: if_splits sum.splits option.splits)

section \<open>Properties\<close>

text \<open>A small cluster on which the properties are exercised.\<close>

definition demo_config :: Config where
  "demo_config =
     \<lparr>Image = ''sims/rocm:dev'', ImagePullPolicy = ''IfNotPresent'', GPUsPerNode = 8, ProductName = ''MI300X'',
      GPUMemoryBytes = 64, ResourceName = ''amd.com/gpu'',
      DefaultNodeSelector = [(''sims.io/gpu-vendor'', ''amd'')], DefaultUtilization = ''5-15'',
      Namespace = ''gpu-operator''\<rparr>"

definition demo_deviceconfig :: DeviceConfig where
  "demo_deviceconfig =
     \<lparr>dc_Name = ''default'',
      Spec = \<lparr>Driver = \<lparr>drv_Enable = Some False\<rparr>,
              DevicePlugin = \<lparr>dp_Enable = None, dp_ImagePullPolicy = []\<rparr>,
              MetricsExporter = \<lparr>me_Enable = Some True\<rparr>,
              NodeSelector = [], CommonConfig = \<lparr>InitContainerImage = []\<rparr>,
              ComputePartition = \<lparr>Mode = ''cpx'', Count = 8\<rparr>\<rparr>,
      Status = empty_status\<rparr>"

definition demo_cluster :: cluster where
  "demo_cluster =
     \<lparr>cl_children = \<lparr>objects = Map.empty, unreachable = (\<lambda>_. False)\<rparr>,
      cl_configs = \<lparr>objects = [''default'' \<mapsto> demo_deviceconfig], unreachable = (\<lambda>_. False)\<rparr>\<rparr>"

definition demo_after :: cluster where
  "demo_after = snd (Reconcile cl_client demo_config ''default'' demo_cluster)"

lemma demo_run: "Reconcile cl_client demo_config ''default'' demo_cluster = (None, demo_after)"
proof -
  have "fst (Reconcile cl_client demo_config ''default'' demo_cluster) = None" by code_simp
  then show ?thesis by (simp add: demo_after_def prod_eq_iff)
qed

lemma demo_rerun:
  "Reconcile cl_client demo_config ''default'' demo_after =
     (None, snd (Reconcile cl_client demo_config ''default'' demo_after))"
proof -
  have "fst (Reconcile cl_client demo_config ''default'' demo_after) = None"
    unfolding demo_after_def by code_simp
  then show ?thesis by (simp add: prod_eq_iff)
qed

text \<open>The same cluster with a node-labeller DaemonSet that belongs to somebody else.\<close>

definition foreign_child :: Workload where
  "foreign_child =
     (buildNodeLabellerDS demo_config demo_deviceconfig [])
       \<lparr>w_Meta := (child_meta demo_config labeller_name)\<lparr>om_controller := Some ''other''\<rparr>\<rparr>"

definition foreign_cluster :: cluster where
  "foreign_cluster = demo_cluster\<lparr>cl_children :=
     \<lparr>objects = [(KDaemonSet, ''gpu-operator'', ''amd-node-labeller'') \<mapsto> foreign_child],
      unreachable = (\<lambda>_. False)\<rparr>\<rparr>"

text \<open>The cluster after the pods of all DaemonSets came up: 2 of 2 nodes are ready.\<close>

definition ready_cluster :: cluster where
  "ready_cluster = demo_after\<lparr>cl_children := \<lparr>objects =
     (\<lambda>k. map_option (\<lambda>x. x\<lparr>NumberReady := 2, DesiredNumberScheduled := 2\<rparr>) (cl_view demo_after k)),
      unreachable = (\<lambda>_. False)\<rparr>\<rparr>"

lemma demo_config_view: "cl_config_view demo_cluster ''default'' = Some demo_deviceconfig"
  by (simp add: cl_config_view_def demo_cluster_def demo_deviceconfig_def)





text \<open>
  C12. Idempotence: a second successful reconcile, with no other writer in between, leaves every
  child object exactly as the first one left it.
\<close>

theorem reconcile_idempotent:
  assumes "controller_client c children configs assign"
    and "Reconcile c cfg n w = (None, w1)" "configs w n = Some cr"
    and "Reconcile c cfg n w1 = (None, w2)"
  shows "children w2 = children w1"
  using controller_client.Reconcile_idem [OF assms] .

theorem reconcile_idempotent_witness:
  "cl_view (snd (Reconcile cl_client demo_config ''default'' demo_after)) = cl_view demo_after"
  by (rule reconcile_idempotent [OF cl.controller_client_axioms demo_run, OF demo_config_view demo_rerun])

text \<open>
  The cluster address of the exporter's Service, once assigned by the server, survives every
  successful reconcile that keeps the exporter enabled.
\<close>

lemma reconcile_keeps_cluster_ip:
  assumes "controller_client c children configs assign"
    and "Reconcile c cfg n w = (None, w')" "configs w n = Some cr"
    and "enabled (me_Enable (MetricsExporter (Spec cr))) True"
    and "children w (KService, Namespace cfg, exporter_name) = Some x" "cluster_ip x \<noteq> []"
  shows "\<exists>x'. children w' (KService, Namespace cfg, exporter_name) = Some x' \<and> cluster_ip x' = cluster_ip x"
  using controller_client.Reconcile_cluster_ip [OF assms] .

lemma reconcile_keeps_cluster_ip_witness:
  "\<exists>x'. cl_view (snd (Reconcile cl_client demo_config ''default'' demo_after)) (KService, ''gpu-operator'', ''amd-device-metrics-exporter'') =
     Some x' \<and> cluster_ip x' = ''10.96.0.10''"
proof -
  let ?k = "(KService, ''gpu-operator'', ''amd-device-metrics-exporter'')"
  have "map_option cluster_ip (cl_view demo_after ?k) = Some ''10.96.0.10''"
    unfolding demo_after_def by code_simp
  then obtain x where x: "cl_view demo_after ?k = Some x" "cluster_ip x = ''10.96.0.10''" by auto
  obtain cr where cr: "cl_config_view demo_after ''default'' = Some cr" "Spec cr = Spec demo_deviceconfig"
    by (rule cl.Reconcile_config [OF demo_run, OF demo_config_view])
  from cr(2) have en: "enabled (me_Enable (MetricsExporter (Spec cr))) True"
    by (simp add: demo_deviceconfig_def enabled_def)
  have key: "?k = (KService, Namespace demo_config, exporter_name)"
    by (simp add: demo_config_def exporter_name_def)
  show ?thesis
    using reconcile_keeps_cluster_ip [OF cl.controller_client_axioms demo_rerun, OF cr(1) en] x
    unfolding key by auto
qed






end
