(* ===== verification/Controller_Loop.thy ===== *)
theory Controller_Loop
  imports Controller
begin

text \<open>
  The reconcile loop around \<open>Reconcile\<close>: the watches that \<open>SetupWithManager\<close> asks for
  (\<open>pkg/controller/deviceconfig_controller.go\<close>), the requests they make of a change in the cluster,
  and what follows for drift. The manager, its informers and its work queue are controller-runtime's
  and are not part of the repository: the locale \<open>controller_manager\<close> states the documented behaviour
  of its queue, which may hold more requests than the changes ask for but loses none.
\<close>

section \<open>Watches and requests\<close>

datatype watch = For | Owns kind

definition SetupWithManager :: "watch list" where
  "SetupWithManager = [For, Owns KDaemonSet, Owns KDeployment]"

text \<open>
  An event is a change of one stored object. A resource maps to the request for itself, an owned object
  to the request for its controlling owner, before the change and after it.
\<close>

datatype event =
  ConfigEvent string
| ChildEvent wkey "Workload option" "Workload option"

definition owner_of :: "Workload option \<Rightarrow> string list" where
  "owner_of x = (case x of None \<Rightarrow> [] | Some y \<Rightarrow> (case om_controller (w_Meta y) of None \<Rightarrow> [] | Some n \<Rightarrow> [n]))"

fun watch_requests :: "watch \<Rightarrow> event \<Rightarrow> string list" where
  "watch_requests For (ConfigEvent n) = [n]"
| "watch_requests (Owns kd) (ChildEvent k old new) = (if fst k = kd then owner_of old @ owner_of new else [])"
| "watch_requests _ _ = []"

definition requests :: "event \<Rightarrow> string list" where
  "requests e = concat (map (\<lambda>wt. watch_requests wt e) SetupWithManager)"

text \<open>The requests for everything that differs between two states of the cluster.\<close>

definition enqueued ::
  "('w \<Rightarrow> wkey \<Rightarrow> Workload option) \<Rightarrow> ('w \<Rightarrow> string \<Rightarrow> DeviceConfig option) \<Rightarrow> 'w \<Rightarrow> 'w \<Rightarrow> string set" where
  "enqueued children configs w w' =
     (\<Union>k \<in> {k. children w k \<noteq> children w' k}. set (requests (ChildEvent k (children w k) (children w' k)))) \<union>
     (\<Union>n \<in> {n. configs w n \<noteq> configs w' n}. set (requests (ConfigEvent n)))"

lemma requests_config [simp]: "requests (ConfigEvent n) = [n]"
  by (simp add: requests_def SetupWithManager_def)

lemma requests_child [simp]:
  "requests (ChildEvent k old new) = (if fst k = KService then [] else owner_of old @ owner_of new)"
  by (cases "fst k") (simp_all add: requests_def SetupWithManager_def)

lemma enqueued_same [simp]: "enqueued children configs w w = {}"
  by (simp add: enqueued_def)

lemma config_change_enqueued: "configs w n \<noteq> configs w' n \<Longrightarrow> n \<in> enqueued children configs w w'"
  by (auto simp: enqueued_def)

text \<open>Losing an object that agreed with what a resource wants asks for that resource.\<close>

lemma drift_enqueued:
  assumes "agrees n (Some want) (children w k)" "\<not> agrees n (Some want) (children w' k)"
    and "fst k \<noteq> KService"
  shows "n \<in> enqueued children configs w w'"
proof -
  from assms(1) obtain x where "children w k = Some x" "om_controller (w_Meta x) = Some n"
    by (auto simp: agrees_def matches_def split: option.splits)
  moreover from assms(1,2) have "children w k \<noteq> children w' k" by auto
  ultimately have "children w k \<noteq> children w' k"
    and "n \<in> set (requests (ChildEvent k (children w k) (children w' k)))"
    using assms(3) by (simp_all add: owner_of_def)
  then show ?thesis unfolding enqueued_def by blast
qed

lemma owned_change_enqueued:
  assumes "children w k \<noteq> children w' k" "n \<in> set (owner_of (children w' k))" "fst k \<noteq> KService"
  shows "n \<in> enqueued children configs w w'"
proof -
  from assms(2,3) have "n \<in> set (requests (ChildEvent k (children w k) (children w' k)))" by simp
  with assms(1) show ?thesis unfolding enqueued_def by blast
qed

text \<open>A change of Services only asks for nothing.\<close>

lemma service_change_silent:
  assumes "configs w' = configs w" "\<forall>k. fst k \<noteq> KService \<longrightarrow> children w' k = children w k"
  shows "enqueued children configs w w' = {}"
proof -
  have "requests (ChildEvent k (children w k) (children w' k)) = []" if "children w k \<noteq> children w' k" for k
    using that assms(2) by (metis requests_child)
  then show ?thesis by (simp add: enqueued_def assms(1))
qed

context controller_client
begin

text \<open>A reconcile writes no DeviceConfig but its own.\<close>

lemma Reconcile_other_configs:
  assumes "Reconcile c cfg n w = (None, w')" "configs w n = Some cr" "m \<noteq> n"
  shows "configs w' m = configs w m"
  using assms(1,2)
proof (cases rule: Reconcile_None)
  case (1 w1 status)
  have "configs w1 = configs w" using perform_all_frame [OF 1(1)] by blast
  moreover obtain r where "c_update_status c (cr\<lparr>Status := status\<rparr>) w1 = (r, w')"
    using 1(3) by (metis prod.collapse)
  note update_status_configs [OF this]
  ultimately show ?thesis using 1(5) assms(3) by auto
qed

end

section \<open>What the manager promises\<close>

text \<open>
  \<open>start\<close> are the states after the first listing, \<open>run\<close> one step of the loop or of anybody else in the
  cluster. A step either keeps every pending request, or takes one of them, reconciles it, and puts it
  back when the reconcile failed; in both cases the requests for what changed are added.
\<close>

locale controller_manager = controller_client c children configs assign
  for c :: "'w Client" and children :: "'w \<Rightarrow> wkey \<Rightarrow> Workload option"
    and configs :: "'w \<Rightarrow> string \<Rightarrow> DeviceConfig option" and assign :: "Workload \<Rightarrow> Workload" +
  fixes cfg :: Config
    and start :: "'m \<Rightarrow> bool"
    and run :: "'m \<Rightarrow> 'm \<Rightarrow> bool"
    and world :: "'m \<Rightarrow> 'w"
    and pending :: "'m \<Rightarrow> string set"
  assumes start_pending: "start m \<Longrightarrow> configs (world m) n \<noteq> None \<Longrightarrow> n \<in> pending m"
    and run_enqueues: "run m m' \<Longrightarrow> enqueued children configs (world m) (world m') \<subseteq> pending m'"
    and run_pending: "run m m' \<Longrightarrow> pending m \<subseteq> pending m' \<or>
      (\<exists>n r. n \<in> pending m \<and> Reconcile c cfg n (world m) = (r, world m') \<and>
         pending m - {n} \<subseteq> pending m' \<and> (r \<noteq> None \<longrightarrow> n \<in> pending m'))"
begin

definition caught_up :: "'m \<Rightarrow> bool" where
  "caught_up m \<longleftrightarrow> (\<forall>n cr k want. n \<notin> pending m \<longrightarrow> configs (world m) n = Some cr \<longrightarrow>
     (k, Some want) \<in> set (desired_children cfg cr) \<longrightarrow> fst k \<noteq> KService \<longrightarrow>
     agrees n (Some want) (children (world m) k))"

lemma caught_upD:
  assumes "caught_up m" "n \<notin> pending m" "configs (world m) n = Some cr"
    "(k, Some want) \<in> set (desired_children cfg cr)" "fst k \<noteq> KService"
  shows "agrees n (Some want) (children (world m) k)"
  using assms unfolding caught_up_def by blast

text \<open>A resource nobody reconciled and nobody enqueued keeps its children.\<close>

lemma undisturbed:
  assumes "caught_up m" "run m m'" "n \<notin> pending m" "n \<notin> pending m'"
    "configs (world m') n = Some cr" "(k, Some want) \<in> set (desired_children cfg cr)" "fst k \<noteq> KService"
  shows "agrees n (Some want) (children (world m') k)"
proof (rule ccontr)
  assume bad: "\<not> ?thesis"
  have out: "n \<notin> enqueued children configs (world m) (world m')"
    using run_enqueues [OF assms(2)] assms(4) by blast
  then have "configs (world m) n = Some cr"
    using config_change_enqueued [of configs "world m" n "world m'" children] assms(5) by metis
  with caught_upD [OF assms(1,3) _ assms(6,7)]
  have "agrees n (Some want) (children (world m) k)" by simp
  from drift_enqueued [where children = children, OF this bad assms(7)] out show False by blast
qed

lemma caught_up_step:
  assumes "caught_up m" "run m m'" shows "caught_up m'"
  unfolding caught_up_def
proof (intro allI impI)
  fix n cr k want
  assume n: "n \<notin> pending m'" and cr: "configs (world m') n = Some cr"
    and want: "(k, Some want) \<in> set (desired_children cfg cr)" "fst k \<noteq> KService"
  show "agrees n (Some want) (children (world m') k)"
  proof (cases "n \<in> pending m")
    case False
    from undisturbed [OF assms False n cr want] show ?thesis .
  next
    case True
    have "\<not> pending m \<subseteq> pending m'" using True n by blast
    with run_pending [OF assms(2)] obtain n' r where
      r: "Reconcile c cfg n' (world m) = (r, world m')" "pending m - {n'} \<subseteq> pending m'" "r \<noteq> None \<longrightarrow> n' \<in> pending m'"
      by (elim disjE exE conjE) simp_all
    with True n have "n' = n" by blast
    with r n have rec: "Reconcile c cfg n (world m) = (None, world m')" by simp
    have "n \<notin> enqueued children configs (world m) (world m')"
      using run_enqueues [OF assms(2)] n by blast
    then have "configs (world m) n = Some cr"
      using cr config_change_enqueued [of configs "world m" n "world m'" children] by metis
    from Reconcile_desired [OF rec this want(1)] show ?thesis .
  qed
qed

lemma caught_up_start:
  assumes "start m" shows "caught_up m"
  unfolding caught_up_def
proof (intro allI impI)
  fix n cr k want
  assume "n \<notin> pending m" "configs (world m) n = Some cr"
  with start_pending [OF assms, of n] have False by (simp only: option.distinct not_False_eq_True simp_thms True_implies_equals)
  then show "agrees n (Some want) (children (world m) k)" ..
qed

lemma caught_up_run: "run\<^sup>*\<^sup>* m m' \<Longrightarrow> caught_up m \<Longrightarrow> caught_up m'"
  by (induction rule: rtranclp_induct) (blast dest: caught_up_step)+

end

section \<open>A reference manager\<close>

text \<open>
  The reference cluster under a manager that reconciles one request at a time, and in which anybody
  may write any one object. The queue is a set of names.
\<close>

record manager =
  m_world :: cluster
  m_queue :: "string set"

inductive manager_step :: "Config \<Rightarrow> manager \<Rightarrow> manager \<Rightarrow> bool" for cfg where
  reconciles: "n \<in> m_queue m \<Longrightarrow> Reconcile cl_client cfg n (m_world m) = (r, w') \<Longrightarrow>
    manager_step cfg m
      \<lparr>m_world = w', m_queue = (m_queue m - {n}) \<union> (if r = None then {} else {n}) \<union>
         enqueued cl_view cl_config_view (m_world m) w'\<rparr>"
| child_written: "w' = (m_world m)\<lparr>cl_children := (cl_children (m_world m))\<lparr>objects := (cl_view (m_world m))(k := x)\<rparr>\<rparr> \<Longrightarrow>
    manager_step cfg m
      \<lparr>m_world = w', m_queue = m_queue m \<union> enqueued cl_view cl_config_view (m_world m) w'\<rparr>"
| config_written: "w' = (m_world m)\<lparr>cl_configs := (cl_configs (m_world m))\<lparr>objects := (objects (cl_configs (m_world m)))(n := cr)\<rparr>\<rparr> \<Longrightarrow>
    manager_step cfg m
      \<lparr>m_world = w', m_queue = m_queue m \<union> enqueued cl_view cl_config_view (m_world m) w'\<rparr>"

definition manager_start :: "manager \<Rightarrow> bool" where
  "manager_start m \<longleftrightarrow> {n. cl_config_view (m_world m) n \<noteq> None} \<subseteq> m_queue m"

interpretation mgr: controller_manager cl_client cl_view cl_config_view cl_assign cfg manager_start
    "manager_step cfg" m_world m_queue
  for cfg
proof unfold_locales
  fix m n assume "manager_start m" "cl_config_view (m_world m) n \<noteq> None"
  then show "n \<in> m_queue m" by (auto simp: manager_start_def)
next
  fix m m' assume "manager_step cfg m m'"
  then show "enqueued cl_view cl_config_view (m_world m) (m_world m') \<subseteq> m_queue m'"
    by cases simp_all
next
  fix m m' assume "manager_step cfg m m'"
  then show "m_queue m \<subseteq> m_queue m' \<or>
      (\<exists>n r. n \<in> m_queue m \<and> Reconcile cl_client cfg n (m_world m) = (r, m_world m') \<and>
         m_queue m - {n} \<subseteq> m_queue m' \<and> (r \<noteq> None \<longrightarrow> n \<in> m_queue m'))"
    by cases (auto split: if_splits)
qed

section \<open>Properties\<close>


text \<open>The demo cluster: after two reconciles no request of the resource is left.\<close>

definition demo_again :: cluster where
  "demo_again = snd (Reconcile cl_client demo_config ''default'' demo_after)"

definition demo_quiet :: manager where
  "demo_quiet = \<lparr>m_world = demo_again,
     m_queue = enqueued cl_view cl_config_view demo_cluster demo_after - {''default''}\<rparr>"

definition demo_initial :: manager where
  "demo_initial = \<lparr>m_world = demo_cluster, m_queue = {''default''}\<rparr>"

lemma demo_starts: "manager_start demo_initial"
  by (auto simp: manager_start_def demo_initial_def cl_config_view_def demo_cluster_def split: if_splits)

lemma demo_again_view: "cl_view demo_again = cl_view demo_after"
  unfolding demo_again_def using demo_rerun
  by (rule cl.Reconcile_idem [OF demo_run, OF demo_config_view])

lemma demo_again_configs: "cl_config_view demo_again = cl_config_view demo_after"
proof
  fix n
  obtain cr where cr: "cl_config_view demo_after ''default'' = Some cr"
    by (rule cl.Reconcile_config [OF demo_run, OF demo_config_view])
  show "cl_config_view demo_again n = cl_config_view demo_after n"
  proof (cases "n = ''default''")
    case True
    have "cl_config_view demo_again ''default'' = cl_config_view demo_after ''default''"
      unfolding demo_again_def demo_after_def by code_simp
    with True show ?thesis by simp
  next
    case False
    from cl.Reconcile_other_configs [OF demo_rerun, OF cr False] show ?thesis by (simp add: demo_again_def)
  qed
qed

lemma demo_settles: "(manager_step demo_config)\<^sup>*\<^sup>* demo_initial demo_quiet"
proof -
  let ?k = "(KDaemonSet, ''gpu-operator'', ''amd-node-labeller'')"
  let ?q = "enqueued cl_view cl_config_view demo_cluster demo_after"
  have "map_option (\<lambda>x. om_controller (w_Meta x)) (cl_view demo_after ?k) = Some (Some ''default'')"
    unfolding demo_after_def by code_simp
  then have owner: "''default'' \<in> set (owner_of (cl_view demo_after ?k))" by (auto simp: owner_of_def)
  moreover have "cl_view demo_cluster ?k = None" by (simp add: cl_view_def demo_cluster_def)
  ultimately have q: "''default'' \<in> ?q"
    by (intro owned_change_enqueued [of _ _ ?k]) (auto simp: owner_of_def)
  have same: "enqueued cl_view cl_config_view demo_after demo_again = {}"
    by (simp add: enqueued_def demo_again_view demo_again_configs)
  have one: "manager_step demo_config demo_initial \<lparr>m_world = demo_after, m_queue = ?q\<rparr>"
    using manager_step.reconciles [of "''default''" demo_initial demo_config None demo_after]
    by (simp add: demo_initial_def demo_run)
  have two: "manager_step demo_config \<lparr>m_world = demo_after, m_queue = ?q\<rparr> demo_quiet"
    using manager_step.reconciles [of "''default''" "\<lparr>m_world = demo_after, m_queue = ?q\<rparr>" demo_config None demo_again] q
      demo_rerun [folded demo_again_def] same
    by (simp add: demo_quiet_def)
  from one two show ?thesis by (meson converse_rtranclp_into_rtranclp rtranclp.rtrancl_refl)
qed


text \<open>
  The Service is owned, but a change of it asks for nothing: once it is deleted, it stays away without
  a pending request although the DeviceConfig wants it.
\<close>

theorem service_drift_missed:
  "\<exists>m cr want. (manager_step demo_config)\<^sup>*\<^sup>* demo_initial m \<and> ''default'' \<notin> m_queue m \<and>
     cl_config_view (m_world m) ''default'' = Some cr \<and>
     ((KService, ''gpu-operator'', ''amd-device-metrics-exporter''), Some want) \<in> set (desired_children demo_config cr) \<and>
     cl_view (m_world m) (KService, ''gpu-operator'', ''amd-device-metrics-exporter'') = None"
proof -
  let ?k = "(KService, ''gpu-operator'', ''amd-device-metrics-exporter'')"
  let ?w = "demo_again\<lparr>cl_children := (cl_children demo_again)\<lparr>objects := (cl_view demo_again)(?k := None)\<rparr>\<rparr>"
  have silent: "enqueued cl_view cl_config_view demo_again ?w = {}"
    by (rule service_change_silent) (simp_all add: cl_view_def cl_config_view_def [abs_def])
  have "manager_step demo_config demo_quiet \<lparr>m_world = ?w, m_queue = m_queue demo_quiet\<rparr>"
    using manager_step.child_written [of ?w demo_quiet ?k None demo_config]
    by (simp add: demo_quiet_def silent)
  with demo_settles have run:
    "(manager_step demo_config)\<^sup>*\<^sup>* demo_initial \<lparr>m_world = ?w, m_queue = m_queue demo_quiet\<rparr>"
    by (rule rtranclp.rtrancl_into_rtrancl)
  obtain cr where cr: "cl_config_view demo_after ''default'' = Some cr" "Spec cr = Spec demo_deviceconfig"
    by (rule cl.Reconcile_config [OF demo_run, OF demo_config_view])
  have "cl_config_view ?w = cl_config_view demo_again" by (simp add: cl_config_view_def [abs_def])
  then have "cl_config_view ?w ''default'' = Some cr" by (simp only: demo_again_configs cr(1))
  moreover have "(?k, Some (buildMetricsExporterService demo_config cr)) \<in> set (desired_children demo_config cr)"
    by (simp add: desired_children_def enabled_def cr(2) demo_config_def demo_deviceconfig_def
        exporter_name_def Let_def)
  moreover have "''default'' \<notin> m_queue demo_quiet" by (simp add: demo_quiet_def)
  moreover have "cl_view ?w ?k = None" by (simp add: cl_view_def)
  ultimately show ?thesis
    using run by (intro exI [of _ "\<lparr>m_world = ?w, m_queue = m_queue demo_quiet\<rparr>"] exI conjI) simp_all
qed

end
