(* ===== verification/Operator_Main.thy ===== *)
theory Operator_Main
  imports Plugin_Process Exporter_Process Labeller_Process Controller_Loop
begin

text \<open>
  The binaries of the operators from their command line to their exit status: the \<open>main\<close> of
  \<open>cmd/fake-rocm-gpu-operator\<close> and of \<open>cmd/fake-dcgm-extras\<close>, the loop of the status-updater, and the start of the
  controller's manager (\<open>internal/controller/run.go\<close>). A process is composed of what \<open>Processes\<close> says it starts
  with and of the model of its life: \<open>Exporter_Process\<close>, \<open>Plugin_Process\<close>, \<open>Labeller_Process\<close> and the loop here.
  \<open>sig\<close> is always whether SIGINT or SIGTERM has been delivered. The exit status of a panic is 2, that of Go's runtime.
\<close>

section \<open>The loop of the status-updater\<close>

text \<open>What ends the waits of the loop, in order: a tick, with what others did to the cluster before it, or the signal.\<close>

datatype 'w wakeup = Tick "'w \<Rightarrow> 'w" | Done

fun updater_waits :: "('w \<Rightarrow> 'w) \<Rightarrow> 'w wakeup list \<Rightarrow> 'w \<Rightarrow> bool \<times> 'w" where
  "updater_waits pass [] w = (False, w)"
| "updater_waits pass (Tick others # es) w = updater_waits pass es (pass (others w))"
| "updater_waits pass (Done # es) w = (True, w)"

text \<open>Whether \<open>Run\<close> has returned, and the cluster: a first pass at once, then one per tick.\<close>

definition updater_loop :: "('w \<Rightarrow> 'w) \<Rightarrow> 'w wakeup list \<Rightarrow> 'w \<Rightarrow> bool \<times> 'w" where
  "updater_loop pass es w = updater_waits pass es (pass w)"

lemma updater_returns: "fst (updater_waits pass es w) \<longleftrightarrow> Done \<in> set es"
  by (induction pass es w rule: updater_waits.induct) simp_all

lemma updater_waits_last:
  "Done \<notin> set es \<Longrightarrow> updater_waits pass (es @ [Tick others]) w = (False, pass (others (snd (updater_waits pass es w))))"
  by (induction pass es w rule: updater_waits.induct) simp_all

text \<open>
  While the loop runs, what is published is the view of its last tick: when that pass reported no error, whoever
  can read the ConfigMap loads the topology of the pods of that moment.
\<close>

lemma updater_loop_publishes:
  assumes "configmap_store view get create update delete"
    and "pass = (\<lambda>w. snd (updater_reconcile list_pods get create update marshal ns w))"
    and "Done \<notin> set es" "w = others (snd (updater_loop pass es w0))"
    and "fst (updater_reconcile list_pods get create update marshal ns w) = None" "list_pods w = Inr pods"
    and "marshal (build_topology pods) = Inr body" "body \<noteq> []" "unmarshal body = Inr (build_topology pods)"
    and "updater_loop pass (es @ [Tick others]) w0 = (running, w')" "get (ns, ConfigMapName) w' = Inr cm"
  shows "Load get unmarshal ns w' = Inr (build_topology pods)"
proof -
  have "w' = snd (updater_reconcile list_pods get create update marshal ns w)"
    using assms(2,3,4,10) by (simp add: updater_loop_def updater_waits_last)
  with assms(5) have "updater_reconcile list_pods get create update marshal ns w = (None, w')"
    by (simp add: prod_eq_iff)
  from assms(1) this assms(6-9) assms(11) show ?thesis by (rule updater_pass_Load)
qed

section \<open>The manager of the controller\<close>

text \<open>
  The answers of controller-runtime: whether a configuration was found (\<open>GetConfigOrDie\<close> exits with status 1
  otherwise), the errors of the steps, and what \<open>Start\<close> has returned, given the signal; \<open>None\<close> while it runs.
\<close>

record manager_answers =
  ma_config :: bool
  ma_new :: "string option"
  ma_setup :: "string option"
  ma_healthz :: "string option"
  ma_readyz :: "string option"
  ma_start :: "bool \<Rightarrow> string option option"

datatype controller_end =
    ConfigMissing
  | BuildManager string
  | SetupReconciler string
  | AddHealthz string
  | AddReadyz string
  | ManagerFailed string
  | ManagerStopped
  | ManagerRunning

definition controller_serve :: "manager_answers \<Rightarrow> bool \<Rightarrow> controller_end" where
  "controller_serve a sig =
     (if \<not> ma_config a then ConfigMissing
      else case ma_new a of Some e \<Rightarrow> BuildManager e
      | None \<Rightarrow> (case ma_setup a of Some e \<Rightarrow> SetupReconciler e
      | None \<Rightarrow> (case ma_healthz a of Some e \<Rightarrow> AddHealthz e
      | None \<Rightarrow> (case ma_readyz a of Some e \<Rightarrow> AddReadyz e
      | None \<Rightarrow> (case ma_start a sig of
                  None \<Rightarrow> ManagerRunning
                | Some (Some e) \<Rightarrow> ManagerFailed e
                | Some None \<Rightarrow> ManagerStopped)))))"

fun controller_status :: "controller_end \<Rightarrow> nat option" where
  "controller_status ManagerRunning = None"
| "controller_status ManagerStopped = Some 0"
| "controller_status _ = Some 1"

section \<open>Exit status\<close>

text \<open>The surroundings of a process: the cluster \<open>'w\<close>, the nodes \<open>'v\<close> the labeller patches, the kubelet, controller-runtime.\<close>

record ('w, 'v, 'e) surroundings =
  su_env :: process_env
  su_clusters :: "'w \<Rightarrow> bool"
  su_load :: "'w \<Rightarrow> 'e + Topology"
  su_get :: "key \<Rightarrow> 'w \<Rightarrow> api_error + Pod"
  su_list_pods :: "string \<Rightarrow> 'w \<Rightarrow> api_error + Pod list"
  su_version :: string
  su_outcomes :: outcomes
  su_dial_ok :: bool
  su_annotate :: "string \<Rightarrow> 'w \<Rightarrow> 'w"
  su_update :: "string \<Rightarrow> 'w \<Rightarrow> 'w"
  su_patch :: "string \<Rightarrow> json \<Rightarrow> 'v \<Rightarrow> api_error option \<times> 'v"
  su_manager :: manager_answers

definition exporter_exits :: "('w, 'v, 'e) surroundings \<Rightarrow> bool \<Rightarrow> nat \<Rightarrow> exporter_start \<Rightarrow> bool" where
  "exporter_exits E sig status x \<longleftrightarrow>
     (\<exists>w i t s. proc_run (http_code (exporter_setting (su_clusters E) (su_load E) (su_get E) x))
          (http_process (exporter_setting (su_clusters E) (su_load E) (su_get E) x) initial_state w) i t s \<and>
        exit_code (main s) = Some status \<and> cancelled s = sig)"

text \<open>The sidecar serves as the metrics-exporter does; only the sampler differs.\<close>

definition dcgm_process ::
  "('w, 'v, 'e) surroundings \<Rightarrow> dcgm_start \<Rightarrow> 'w \<Rightarrow> (http_work, http_error, (nodeAssignment list, 'w, Metric list) http_world) proc" where
  "dcgm_process E x w = http_process (dcgm_setting (su_clusters E) (su_list_pods E) x) [] w"

definition dcgm_exits :: "('w, 'v, 'e) surroundings \<Rightarrow> bool \<Rightarrow> nat \<Rightarrow> dcgm_start \<Rightarrow> bool" where
  "dcgm_exits E sig status x \<longleftrightarrow>
     (\<exists>w i t s. proc_run (http_code (dcgm_setting (su_clusters E) (su_list_pods E) x)) (dcgm_process E x w) i t s \<and>
        exit_code (main s) = Some status \<and> cancelled s = sig)"

definition plugin_setting_of :: "('w, 'v, 'e) surroundings \<Rightarrow> AnnotatorOptions option \<times> Server \<Rightarrow> 'w plugin_setting" where
  "plugin_setting_of E x =
     \<lparr>ps_version = su_version E, ps_outcomes = su_outcomes E, ps_server = snd x, ps_annotator = fst x,
      ps_dial_ok = su_dial_ok E, ps_pass = su_annotate E\<rparr>"

definition plugin_exits :: "('w, 'v, 'e) surroundings \<Rightarrow> bool \<Rightarrow> nat \<Rightarrow> AnnotatorOptions option \<times> Server \<Rightarrow> bool" where
  "plugin_exits E sig status x \<longleftrightarrow>
     (\<exists>w i t s. proc_run (plugin_code (plugin_setting_of E x)) (plugin_process (plugin_setting_of E x) w) i t s \<and>
        exit_code (main s) = Some status \<and> cancelled s = sig)"

definition updater_exits :: "('w, 'v, 'e) surroundings \<Rightarrow> bool \<Rightarrow> nat \<Rightarrow> string \<times> int \<Rightarrow> bool" where
  "updater_exits E sig status x \<longleftrightarrow>
     (\<exists>es w. fst (updater_loop (su_update E (fst x)) es w) \<and> sig = (Done \<in> set es) \<and> status = 0)"

definition labeller_exits :: "('w, 'v, 'e) surroundings \<Rightarrow> bool \<Rightarrow> nat \<Rightarrow> string \<times> labels \<Rightarrow> bool" where
  "labeller_exits E sig status x \<longleftrightarrow>
     (\<exists>w. (case fst (nodelabeller_main (su_patch E) x sig w) of
             PatchNodeFailed _ \<Rightarrow> status = 1 | AsleepUntilSignal \<Rightarrow> False | LabellerDone \<Rightarrow> status = 0))"

definition controller_exits :: "('w, 'v, 'e) surroundings \<Rightarrow> bool \<Rightarrow> nat \<Rightarrow> Config \<Rightarrow> bool" where
  "controller_exits E sig status x \<longleftrightarrow> controller_status (controller_serve (su_manager E) sig) = Some status"

fun launch_exits :: "nat \<Rightarrow> ('a \<Rightarrow> bool) \<Rightarrow> 'a launch \<Rightarrow> bool" where
  "launch_exits status runs HelpShown = (status = 0)"
| "launch_exits status runs (Refused e) = (status = 1)"
| "launch_exits status runs Panicked = (status = 2)"
| "launch_exits status runs (Started x) = runs x"

fun process_exits :: "('w, 'v, 'e) surroundings \<Rightarrow> bool \<Rightarrow> nat \<Rightarrow> process \<Rightarrow> bool" where
  "process_exits E sig status UsageError = (status = 2)"
| "process_exits E sig status UsageShown = (status = 0)"
| "process_exits E sig status (UnknownSubcommand _) = (status = 1)"
| "process_exits E sig status (MetricsExporterProc l) = launch_exits status (exporter_exits E sig status) l"
| "process_exits E sig status (DevicePluginProc l) = launch_exits status (plugin_exits E sig status) l"
| "process_exits E sig status (StatusUpdaterProc l) = launch_exits status (updater_exits E sig status) l"
| "process_exits E sig status (NodeLabellerProc l) = launch_exits status (labeller_exits E sig status) l"
| "process_exits E sig status (ControllerProc l) = launch_exits status (controller_exits E sig status) l"

definition operator_exits :: "('w, 'v, 'e) surroundings \<Rightarrow> string list \<Rightarrow> bool \<Rightarrow> nat \<Rightarrow> bool" where
  "operator_exits E args sig status = process_exits E sig status (run_main (su_env E) args)"

definition dcgm_main_exits :: "('w, 'v, 'e) surroundings \<Rightarrow> string list \<Rightarrow> bool \<Rightarrow> nat \<Rightarrow> bool" where
  "dcgm_main_exits E args sig status = launch_exits status (dcgm_exits E sig status) (dcgm_Run (su_env E) args)"

section \<open>Properties\<close>

lemma http_exit_code:
  assumes "proc_run (http_code S) (http_process S c x) i t s" "exit_code (main s) = Some n"
  shows "n = 0 \<and> cancelled s \<or> n = 1"
  using http_inv_run [OF assms(1)] assms(2)
  by (cases "main s" rule: exit_code.cases) (auto simp: http_inv_def)

lemma plugin_exit_code:
  assumes "proc_run (plugin_code S) (plugin_process S x) i t s" "exit_code (main s) = Some n"
  shows "n = 0 \<and> cancelled s \<or> n = 1"
proof -
  have "outcome_ok (plugin_fails S) (\<lambda>_. False) s"
    using plugin.outcome [of S "plugin_workers S" _ i t s] assms(1)
    by (auto simp: plugin_process_def plugin_workers_def plugin_code_def split: option.splits)
  with assms(2) show ?thesis
    by (cases "main s" rule: exit_code.cases) (auto simp: outcome_ok_def)
qed

lemma started_exits:
  "exporter_exits E sig n x \<Longrightarrow> n = 0 \<and> sig \<or> n = 1" "dcgm_exits E sig n y \<Longrightarrow> n = 0 \<and> sig \<or> n = 1"
  "plugin_exits E sig n p \<Longrightarrow> n = 0 \<and> sig \<or> n = 1"
  "updater_exits E sig n u \<Longrightarrow> n = 0 \<and> sig"
  by (auto simp: exporter_exits_def dcgm_exits_def dcgm_process_def plugin_exits_def updater_exits_def updater_loop_def updater_returns
      dest: http_exit_code plugin_exit_code)

lemma labeller_exit_code:
  assumes "labeller_exits E sig n l" shows "n = 0 \<and> sig \<or> n = 1"
proof -
  from assms obtain w where w: "case fst (nodelabeller_main (su_patch E) l sig w) of
      PatchNodeFailed _ \<Rightarrow> n = 1 | AsleepUntilSignal \<Rightarrow> False | LabellerDone \<Rightarrow> n = 0"
    by (auto simp: labeller_exits_def)
  obtain r w' where "patchNodeLabels (su_patch E) (fst l) (snd l) w = (r, w')" by fastforce
  with w show ?thesis by (cases r) (auto simp: nodelabeller_main_def split: if_splits)
qed

lemma controller_exit_code:
  assumes "controller_exits E sig n x" "ma_start (su_manager E) False \<noteq> Some None"
  shows "n = 0 \<and> sig \<or> n = 1"
  using assms by (cases sig) (auto simp: controller_exits_def controller_serve_def split: if_splits option.splits)

fun gives_help :: "process \<Rightarrow> bool" where
  "gives_help UsageShown = True"
| "gives_help (MetricsExporterProc l) = (l = HelpShown)"
| "gives_help (DevicePluginProc l) = (l = HelpShown)"
| "gives_help (StatusUpdaterProc l) = (l = HelpShown)"
| "gives_help (NodeLabellerProc l) = (l = HelpShown)"
| "gives_help (ControllerProc l) = (l = HelpShown)"
| "gives_help _ = False"

fun panics :: "process \<Rightarrow> bool" where
  "panics (MetricsExporterProc l) = (l = Panicked)"
| "panics (DevicePluginProc l) = (l = Panicked)"
| "panics (StatusUpdaterProc l) = (l = Panicked)"
| "panics (NodeLabellerProc l) = (l = Panicked)"
| "panics (ControllerProc l) = (l = Panicked)"
| "panics _ = False"

lemma launch_exit:
  assumes "launch_exits n runs l" "\<And>x. runs x \<Longrightarrow> n = 0 \<and> sig \<or> n = 1"
  shows "n = 0 \<and> (sig \<or> l = HelpShown) \<or> n = 1 \<or> n = 2 \<and> l = Panicked"
  using assms by (cases l) auto

text \<open>
  C13. What the exit status of an operator container says, for every subcommand and command line, and whatever cluster,
  kubelet and signal do. Status 0 means that help was asked for or that the signal had come: no
  subcommand ever ends by itself with success, so a container that does is not one that gave up. Status 2 means that no
  subcommand was given or that the start panicked; every other end has status 1. It is assumed that the
  manager of the controller returns nil only after its context is cancelled.
\<close>

theorem operator_exit_status:
  assumes "operator_exits E args sig status" "ma_start (su_manager E) False \<noteq> Some None"
  shows "status = 0 \<and> (sig \<or> gives_help (run_main (su_env E) args)) \<or> status = 1 \<or>
    status = 2 \<and> (args = [] \<or> panics (run_main (su_env E) args))"
proof -
  have usage: "run_main (su_env E) args = UsageError \<Longrightarrow> args = []"
    by (cases args) (auto simp: run_main_def split: if_splits)
  note controller = controller_exit_code [OF _ assms(2)]
  from assms(1) show ?thesis
    unfolding operator_exits_def
  proof (cases "run_main (su_env E) args")
    case (MetricsExporterProc l)
    with assms(1) launch_exit [of status "exporter_exits E sig status" l sig] started_exits(1)
    show ?thesis by (fastforce simp: operator_exits_def)
  next
    case (DevicePluginProc l)
    with assms(1) launch_exit [of status "plugin_exits E sig status" l sig] started_exits(3)
    show ?thesis by (fastforce simp: operator_exits_def)
  next
    case (StatusUpdaterProc l)
    with assms(1) launch_exit [of status "updater_exits E sig status" l sig] started_exits(4)
    show ?thesis by (fastforce simp: operator_exits_def)
  next
    case (NodeLabellerProc l)
    with assms(1) launch_exit [of status "labeller_exits E sig status" l sig] labeller_exit_code
    show ?thesis by (fastforce simp: operator_exits_def)
  next
    case (ControllerProc l)
    with assms(1) launch_exit [of status "controller_exits E sig status" l sig] controller
    show ?thesis by (fastforce simp: operator_exits_def)
  qed (use assms(1) usage in \<open>auto simp: operator_exits_def\<close>)
qed

text \<open>The same for the sidecar.\<close>

lemma dcgm_exit_status:
  assumes "dcgm_main_exits E args sig n"
  shows "n = 0 \<and> (sig \<or> dcgm_Run (su_env E) args = HelpShown) \<or> n = 1 \<or> n = 2 \<and> dcgm_Run (su_env E) args = Panicked"
  using launch_exit [OF assms [unfolded dcgm_main_exits_def], of sig] started_exits(2) by blast

text \<open>A node labeller that patched its node and was told to stop.\<close>

definition demo_surroundings :: "(unit, (string, json) server, unit) surroundings" where
  "demo_surroundings =
     \<lparr>su_env = node_env, su_clusters = (\<lambda>_. True), su_load = (\<lambda>_. Inl ()), su_get = (\<lambda>_ _. Inl NotFound),
      su_list_pods = (\<lambda>_ _. Inl NotFound), su_version = ''v1beta1'', su_outcomes = ps_outcomes quiet_setting,
      su_dial_ok = True, su_annotate = (\<lambda>_ w. w), su_update = (\<lambda>_ w. w), su_patch = srv_merge_patch,
      su_manager = \<lparr>ma_config = True, ma_new = None, ma_setup = None, ma_healthz = None, ma_readyz = None,
        ma_start = (\<lambda>sig. if sig then Some None else None)\<rparr>\<rparr>"

theorem operator_exit_status_witness:
  "operator_exits demo_surroundings [''node-labeller''] True 0 \<and>
   \<not> operator_exits demo_surroundings [''node-labeller''] False 0 \<and>
   \<not> operator_exits demo_surroundings [''node-labeller''] True 3"
proof -
  let ?E = demo_surroundings
  have m: "ma_start (su_manager ?E) False \<noteq> Some None" by (simp add: demo_surroundings_def)
  have env: "su_env ?E = node_env" "su_patch ?E = srv_merge_patch" by (simp_all add: demo_surroundings_def)
  obtain labels where run: "nodelabeller_Run node_env [] = Started (''node-1'', labels)"
    by (simp add: nodelabeller_Run_def with_flags_def nodelabeller_flags_def flag_getters)
  have "labeller_exits ?E True 0 (''node-1'', labels)"
    unfolding labeller_exits_def env
    by (intro exI [of _ demo_nodes])
      (simp add: nodelabeller_main_def patchNodeLabels_def srv_merge_patch_def demo_nodes_def)
  then have "operator_exits ?E [''node-labeller''] True 0"
    by (simp add: operator_exits_def env run)
  moreover have "\<not> operator_exits ?E [''node-labeller''] False 0" "\<not> operator_exits ?E [''node-labeller''] True 3"
    using operator_exit_status [OF _ m, of "[''node-labeller'']"] by (fastforce simp: env run)+
  ultimately show ?thesis by blast
qed

end
