(* ===== verification/Cache_Concurrency.thy ===== *)
theory Cache_Concurrency
  imports Exporter Dcgm_Extras
begin

text \<open>
  The caches of both exporters at the grain of their memory accesses (\<open>internal/exporter/cache.go\<close> and the
  samplers of \<open>run.go\<close> and \<open>sample.go\<close>). One goroutine refreshes the cache with many requests to the API
  server, each in the cluster of its time, and publishes the result under the write lock. Any number of scrapes
  take the published value under the read lock and go on reading it after they released the lock. The
  other theories treat a refresh and a scrape as one step each; the lemmas here say why a scrape may be.
\<close>

section \<open>The code of a cache and its readers\<close>

text \<open>
  \<open>'r\<close> is the local state of a refresh, \<open>'st\<close> the published value, \<open>'g\<close> an item of the sampler's loop and \<open>'o\<close> what
  it yields. \<open>begin_refresh\<close> is the first request, \<open>None\<close> when it failed; \<open>refresh_step\<close> is \<open>None\<close> at the end of the loop.
\<close>

record ('w, 'r, 'st, 'g, 'o) cache_code =
  cc_clusters :: "'w \<Rightarrow> bool" \<comment> \<open>the clusters that occur\<close>
  begin_refresh :: "'w \<Rightarrow> 'r option"
  refresh_step :: "'w \<Rightarrow> 'r \<Rightarrow> 'r option"
  built :: "'r \<Rightarrow> 'st"
  items :: "'g list"
  sample_one :: "'st \<Rightarrow> 'g \<Rightarrow> rng \<Rightarrow> 'o \<times> rng"

datatype 'r refresher =
    Waiting
  | Fetching 'r
  | Writing 'r \<comment> \<open>after \<open>c.mu.Lock()\<close>\<close>
  | Written \<comment> \<open>before \<open>c.mu.Unlock()\<close>\<close>

text \<open>
  A scrape: before and after \<open>c.mu.RLock()\<close>, in the loop of the sampler, and finished. It carries what was published when
  it arrived, the pointer it took and the generator it drew, which are for the statements only.
\<close>

datatype ('g, 'o) scraper =
    Arrived nat
  | ReadLocked nat
  | Sampling nat nat rng "'g list" rng "'o list"
  | Responded nat nat rng "'o list"

text \<open>Published values lie in cells that are allocated one after the other; \<open>current\<close> is the cache's field.\<close>

record ('w, 'r, 'st, 'g, 'o) cache_memory =
  cells :: "'st list"
  current :: nat
  refresher :: "'r refresher"
  scrapers :: "('g, 'o) scraper list"
  cluster_now :: 'w

fun write_locked :: "'r refresher \<Rightarrow> bool" where
  "write_locked (Writing _) = True"
| "write_locked Written = True"
| "write_locked _ = False"

fun read_locked :: "('g, 'o) scraper \<Rightarrow> bool" where
  "read_locked (ReadLocked _) = True"
| "read_locked _ = False"

inductive cache_step ::
  "('w, 'r, 'st, 'g, 'o) cache_code \<Rightarrow> ('w, 'r, 'st, 'g, 'o) cache_memory \<Rightarrow>
   ('w, 'r, 'st, 'g, 'o) cache_memory \<Rightarrow> bool" for S where
  cluster_moves: "cc_clusters S w \<Longrightarrow> cache_step S s (s\<lparr>cluster_now := w\<rparr>)"
| refresh_begins: "refresher s = Waiting \<Longrightarrow> begin_refresh S (cluster_now s) = Some r \<Longrightarrow>
    cache_step S s (s\<lparr>refresher := Fetching r\<rparr>)"
| refresh_fetches: "refresher s = Fetching r \<Longrightarrow> refresh_step S (cluster_now s) r = Some r' \<Longrightarrow>
    cache_step S s (s\<lparr>refresher := Fetching r'\<rparr>)"
| refresh_locks: "refresher s = Fetching r \<Longrightarrow> refresh_step S (cluster_now s) r = None \<Longrightarrow>
    list_all (\<lambda>p. \<not> read_locked p) (scrapers s) \<Longrightarrow> cache_step S s (s\<lparr>refresher := Writing r\<rparr>)"
| refresh_writes: "refresher s = Writing r \<Longrightarrow>
    cache_step S s (s\<lparr>cells := cells s @ [built S r], current := length (cells s), refresher := Written\<rparr>)"
| refresh_unlocks: "refresher s = Written \<Longrightarrow> cache_step S s (s\<lparr>refresher := Waiting\<rparr>)"
| scrape_arrives: "cache_step S s (s\<lparr>scrapers := scrapers s @ [Arrived (current s)]\<rparr>)"
| scrape_locks: "i < length (scrapers s) \<Longrightarrow> scrapers s ! i = Arrived b \<Longrightarrow> \<not> write_locked (refresher s) \<Longrightarrow>
    cache_step S s (s\<lparr>scrapers := (scrapers s)[i := ReadLocked b]\<rparr>)"
| scrape_takes: "i < length (scrapers s) \<Longrightarrow> scrapers s ! i = ReadLocked b \<Longrightarrow> rng_ok rng \<Longrightarrow>
    cache_step S s (s\<lparr>scrapers := (scrapers s)[i := Sampling b (current s) rng (items S) rng []]\<rparr>)"
| scrape_samples: "i < length (scrapers s) \<Longrightarrow> scrapers s ! i = Sampling b p rng0 (g # gs) rng out \<Longrightarrow>
    sample_one S (cells s ! p) g rng = (x, rng') \<Longrightarrow>
    cache_step S s (s\<lparr>scrapers := (scrapers s)[i := Sampling b p rng0 gs rng' (out @ [x])]\<rparr>)"
| scrape_responds: "i < length (scrapers s) \<Longrightarrow> scrapers s ! i = Sampling b p rng0 [] rng out \<Longrightarrow>
    cache_step S s (s\<lparr>scrapers := (scrapers s)[i := Responded b p rng0 out]\<rparr>)"

definition cache_start :: "'st \<Rightarrow> 'w \<Rightarrow> ('w, 'r, 'st, 'g, 'o) cache_memory" where
  "cache_start st w = \<lparr>cells = [st], current = 0, refresher = Waiting, scrapers = [], cluster_now = w\<rparr>"

section \<open>The sampler as one step\<close>

fun sample_all :: "('g \<Rightarrow> rng \<Rightarrow> 'o \<times> rng) \<Rightarrow> 'g list \<Rightarrow> rng \<Rightarrow> 'o list \<times> rng" where
  "sample_all one [] rng = ([], rng)"
| "sample_all one (g # gs) rng =
     (let (x, rng1) = one g rng; (xs, rng2) = sample_all one gs rng1 in (x # xs, rng2))"

lemma sample_all_snoc:
  "sample_all one gs rng = (out, rng1) \<Longrightarrow> one g rng1 = (x, rng2) \<Longrightarrow>
   sample_all one (gs @ [g]) rng = (out @ [x], rng2)"
  by (induction gs arbitrary: rng out) (auto simp: Let_def split: prod.splits)

text \<open>The local state of a refresh comes from requests in clusters that occurred.\<close>

inductive gathered :: "('w, 'r, 'st, 'g, 'o) cache_code \<Rightarrow> 'r \<Rightarrow> bool" for S where
  gather_begin: "cc_clusters S w \<Longrightarrow> begin_refresh S w = Some r \<Longrightarrow> gathered S r"
| gather_step: "gathered S r \<Longrightarrow> cc_clusters S w \<Longrightarrow> refresh_step S w r = Some r' \<Longrightarrow> gathered S r'"

definition publishable :: "('w, 'r, 'st, 'g, 'o) cache_code \<Rightarrow> 'r \<Rightarrow> bool" where
  "publishable S r \<longleftrightarrow> gathered S r \<and> (\<exists>w. cc_clusters S w \<and> refresh_step S w r = None)"

section \<open>The invariant\<close>

fun refresher_ok :: "('w, 'r, 'st, 'g, 'o) cache_code \<Rightarrow> 'r refresher \<Rightarrow> bool" where
  "refresher_ok S (Fetching r) = gathered S r"
| "refresher_ok S (Writing r) = publishable S r"
| "refresher_ok S _ = True"

text \<open>The scrape has what one call of the sampler on the cell it took gives for the items done so far.\<close>

fun scraper_ok :: "('w, 'r, 'st, 'g, 'o) cache_code \<Rightarrow> 'st list \<Rightarrow> ('g, 'o) scraper \<Rightarrow> bool" where
  "scraper_ok S cs (Arrived b) = (b < length cs)"
| "scraper_ok S cs (ReadLocked b) = (b < length cs)"
| "scraper_ok S cs (Sampling b p rng0 gs rng out) =
     (b \<le> p \<and> p < length cs \<and> rng_ok rng0 \<and>
      (\<exists>done. items S = done @ gs \<and> sample_all (sample_one S (cs ! p)) done rng0 = (out, rng)))"
| "scraper_ok S cs (Responded b p rng0 out) =
     (b \<le> p \<and> p < length cs \<and> rng_ok rng0 \<and> out = fst (sample_all (sample_one S (cs ! p)) (items S) rng0))"

definition cache_inv :: "('w, 'r, 'st, 'g, 'o) cache_code \<Rightarrow> 'st \<Rightarrow> ('w, 'r, 'st, 'g, 'o) cache_memory \<Rightarrow> bool" where
  "cache_inv S st s \<longleftrightarrow>
     cc_clusters S (cluster_now s) \<and> refresher_ok S (refresher s) \<and>
     (\<exists>rs. cells s = st # map (built S) rs \<and> list_all (publishable S) rs) \<and>
     Suc (current s) = length (cells s) \<and> list_all (scraper_ok S (cells s)) (scrapers s) \<and>
     (write_locked (refresher s) \<longrightarrow> list_all (\<lambda>p. \<not> read_locked p) (scrapers s))"

lemma scraper_ok_grow: "scraper_ok S cs p \<Longrightarrow> scraper_ok S (cs @ [x]) p"
  by (cases p) (auto simp: nth_append)

lemma list_all_update: "list_all P xs \<Longrightarrow> P x \<Longrightarrow> list_all P (xs[i := x])"
  using set_update_subset_insert [of xs i x] by (auto simp: list_all_iff)

lemma list_all_at: "list_all P xs \<Longrightarrow> i < length xs \<Longrightarrow> P (xs ! i)"
  by (simp add: list_all_length)

lemma cache_inv_start: "cc_clusters S w \<Longrightarrow> cache_inv S st (cache_start st w)"
  by (simp add: cache_inv_def cache_start_def)

lemma cache_inv_step:
  assumes "cache_step S s s'" "cache_inv S st s" shows "cache_inv S st s'"
  using assms
proof (cases rule: cache_step.cases)
  case (refresh_writes r)
  from assms(2) obtain rs where rs: "cells s = st # map (built S) rs" "list_all (publishable S) rs"
    by (auto simp: cache_inv_def)
  then have "cells s @ [built S r] = st # map (built S) (rs @ [r])" by simp
  moreover have "list_all (publishable S) (rs @ [r])"
    using rs(2) refresh_writes assms(2) by (simp add: cache_inv_def)
  moreover have "list_all (scraper_ok S (cells s @ [built S r])) (scrapers s)"
    using assms(2) by (auto simp: cache_inv_def list_all_iff intro: scraper_ok_grow)
  ultimately show ?thesis using refresh_writes assms(2)
    unfolding cache_inv_def by (intro conjI exI [of _ "rs @ [r]"]) simp_all
next
  case (scrape_samples i b p rng0 g gs rng out x rng')
  then have "scraper_ok S (cells s) (Sampling b p rng0 (g # gs) rng out)"
    using assms(2) list_all_at unfolding cache_inv_def by metis
  then have "scraper_ok S (cells s) (Sampling b p rng0 gs rng' (out @ [x]))"
    using sample_all_snoc [where one = "sample_one S (cells s ! p)", OF _ scrape_samples(4)] by fastforce
  with scrape_samples assms(2) show ?thesis by (simp add: cache_inv_def list_all_update)
next
  case (scrape_responds i b p rng0 rng out)
  then have "scraper_ok S (cells s) (Sampling b p rng0 [] rng out)"
    using assms(2) list_all_at unfolding cache_inv_def by metis
  then have "scraper_ok S (cells s) (Responded b p rng0 out)" by auto
  with scrape_responds assms(2) show ?thesis by (simp add: cache_inv_def list_all_update)
next
  case (scrape_locks i b)
  then have "scraper_ok S (cells s) (Arrived b)"
    using assms(2) list_all_at unfolding cache_inv_def by metis
  with scrape_locks assms(2) show ?thesis by (simp add: cache_inv_def list_all_update)
next
  case (scrape_takes i b rng)
  then have "scraper_ok S (cells s) (ReadLocked b)"
    using assms(2) list_all_at unfolding cache_inv_def by metis
  with scrape_takes assms(2) show ?thesis by (auto simp: cache_inv_def list_all_update)
qed (auto simp: cache_inv_def publishable_def intro: gathered.intros)

lemma cache_inv_run:
  assumes "(cache_step S)\<^sup>*\<^sup>* (cache_start st w) s" "cc_clusters S w"
  shows "cache_inv S st s"
  using assms(1)
  by (induction rule: rtranclp_induct) (auto intro: cache_inv_start assms(2) cache_inv_step)

text \<open>Nobody waits in vain for the refresher: once it holds the lock it can go on.\<close>

lemma writer_progress:
  assumes "write_locked (refresher s)"
  shows "\<exists>s'. cache_step S s s' \<and> refresher s' \<noteq> refresher s"
  using assms
  by (cases "refresher s") (force dest: refresh_writes [of s _ S] refresh_unlocks [of s S])+

section \<open>The two caches\<close>

text \<open>The metrics-exporter: the topology first, then one request per assignment of the node that is not yet known.\<close>

definition fetch_range ::
  "(key \<Rightarrow> 'w \<Rightarrow> api_error + Pod) \<Rightarrow> string \<Rightarrow> 'w \<Rightarrow> Assignment \<Rightarrow> (string \<rightharpoonup> Range) \<Rightarrow> (string \<rightharpoonup> Range)" where
  "fetch_range get defaultUtil w a m =
     (let key = range_key (PodNamespace a) (PodName a) in
      if m key \<noteq> None then m
      else case get (PodNamespace a, PodName a) w of Inl _ \<Rightarrow> m | Inr pod \<Rightarrow> m(key \<mapsto> pod_range defaultUtil pod))"

fun exporter_fetch ::
  "(key \<Rightarrow> 'w \<Rightarrow> api_error + Pod) \<Rightarrow> string \<Rightarrow> 'w \<Rightarrow> Topology \<times> Assignment list \<times> (string \<rightharpoonup> Range) \<Rightarrow>
   (Topology \<times> Assignment list \<times> (string \<rightharpoonup> Range)) option" where
  "exporter_fetch get d w (tp, [], m) = None"
| "exporter_fetch get d w (tp, a # as, m) = Some (tp, as, fetch_range get d w a m)"

definition gpu_snapshot :: "string \<Rightarrow> worldState \<Rightarrow> GPU \<Rightarrow> rng \<Rightarrow> Snapshot \<times> rng" where
  "gpu_snapshot hostname st g rng =
     (case FindAssignment (topo st) hostname (ID g) of
        None \<Rightarrow> (snapshotFromIdle g hostname, rng)
      | Some a \<Rightarrow>
          let (util, rng1) = Range_Sample (range_at st (range_key (PodNamespace a) (PodName a))) rng;
              (sample, rng2) = SampleLoaded g util rng1
          in (snapshotFromLoaded g hostname (PodNamespace a) (PodName a) (Container a) sample, rng2))"

definition exporter_cache ::
  "('w \<Rightarrow> bool) \<Rightarrow> ('w \<Rightarrow> 'e + Topology) \<Rightarrow> (key \<Rightarrow> 'w \<Rightarrow> api_error + Pod) \<Rightarrow> string \<Rightarrow> string \<Rightarrow> GPU list \<Rightarrow>
   ('w, Topology \<times> Assignment list \<times> (string \<rightharpoonup> Range), worldState, GPU, Snapshot) cache_code" where
  "exporter_cache clusters load get defaultUtil hostname gpus =
     \<lparr>cc_clusters = clusters,
      begin_refresh = (\<lambda>w. case load w of Inl _ \<Rightarrow> None | Inr tp \<Rightarrow> Some (tp, nodes_of tp hostname, Map.empty)),
      refresh_step = exporter_fetch get defaultUtil,
      built = (\<lambda>(tp, as, m). \<lparr>topo = tp, podRanges = m\<rparr>),
      items = gpus, sample_one = gpu_snapshot hostname\<rparr>"

text \<open>The sidecar: one request; the items are the GPUs with their slots.\<close>

definition slot_snapshot :: "string \<Rightarrow> nodeAssignment list \<Rightarrow> nat \<times> gpuIdentity \<Rightarrow> rng \<Rightarrow> DcgmSnapshot \<times> rng" where
  "slot_snapshot hostname assignments slot rng =
     (let i = fst slot; snap = identity_snapshot (snd slot) hostname in
      if i < length assignments then
        let a = assignments ! i; (util, rng1) = sampleUtil (na_Util a) rng
        in fillLoaded (snap\<lparr>dg_Pod := na_PodName a, dg_Namespace := na_Namespace a, dg_Container := na_Container a\<rparr>) util rng1
      else (Dcgm_Extras.fillIdle snap, rng))"

definition dcgm_cache ::
  "('w \<Rightarrow> bool) \<Rightarrow> (string \<Rightarrow> 'w \<Rightarrow> api_error + Pod list) \<Rightarrow> string \<Rightarrow> gpuIdentity list \<Rightarrow>
   ('w, Pod list, nodeAssignment list, nat \<times> gpuIdentity, DcgmSnapshot) cache_code" where
  "dcgm_cache clusters list_pods hostname gpus =
     \<lparr>cc_clusters = clusters,
      begin_refresh = (\<lambda>w. case list_pods hostname w of Inl _ \<Rightarrow> None | Inr pods \<Rightarrow> Some pods),
      refresh_step = (\<lambda>_ _. None), built = gpu_assignments,
      items = List.enumerate 0 gpus, sample_one = slot_snapshot hostname\<rparr>"

text \<open>The loops of the samplers are these steps.\<close>

lemma sample_all_Cons:
  "fst (sample_all one (g # gs) rng) = fst (one g rng) # fst (sample_all one gs (snd (one g rng)))"
  by (simp add: case_prod_beta Let_def)

lemma topologySampler_all: "fst (sample_all (gpu_snapshot hostname st) gs rng) = topologySampler st gs hostname rng"
proof (induction gs arbitrary: rng)
  case (Cons g gs)
  show ?case
    unfolding sample_all_Cons Cons.IH by (simp add: gpu_snapshot_def case_prod_beta Let_def split: option.split)
qed simp

lemma sample_slots_all:
  "fst (sample_all (slot_snapshot hostname as) (List.enumerate i gs) rng) = sample_slots as hostname i gs rng"
proof (induction gs arbitrary: i rng)
  case (Cons g gs)
  show ?case
    unfolding enumerate_simps sample_all_Cons Cons.IH by (simp add: slot_snapshot_def case_prod_beta Let_def)
qed simp

text \<open>In a cluster that does not change, the many requests of a refresh are the one step of \<open>Refresh\<close>.\<close>

lemma collect_ranges_by_fetch: "collect_ranges get d w (a # as) m = collect_ranges get d w as (fetch_range get d w a m)"
  by (auto simp: fetch_range_def Let_def split: sum.splits)

lemma exporter_fetches:
  "refresh_step (exporter_cache clusters load get d host gpus) w (tp, a # as, m) = Some (tp, as, fetch_range get d w a m)"
  by (simp add: exporter_cache_def)

lemma still_cluster_Refresh:
  assumes "load w = Inr tp"
  shows "begin_refresh (exporter_cache clusters load get d host gpus) w = Some (tp, nodes_of tp host, Map.empty)"
    "\<exists>m. (\<lambda>x y. refresh_step (exporter_cache clusters load get d host gpus) w x = Some y)\<^sup>*\<^sup>*
           (tp, nodes_of tp host, Map.empty) (tp, [], m) \<and>
         built (exporter_cache clusters load get d host gpus) (tp, [], m) = Refresh load get d host w st"
proof -
  let ?S = "exporter_cache clusters load get d host gpus"
  have run: "(\<lambda>x y. refresh_step ?S w x = Some y)\<^sup>*\<^sup>* (tp, as, m) (tp, [], collect_ranges get d w as m)" for as m
  proof (induction as arbitrary: m)
    case (Cons a as)
    show ?case
      unfolding collect_ranges_by_fetch
      by (rule converse_rtranclp_into_rtranclp [OF exporter_fetches Cons.IH])
  qed simp
  show "begin_refresh ?S w = Some (tp, nodes_of tp host, Map.empty)"
    using assms by (simp add: exporter_cache_def)
  show "\<exists>m. (\<lambda>x y. refresh_step ?S w x = Some y)\<^sup>*\<^sup>* (tp, nodes_of tp host, Map.empty) (tp, [], m) \<and>
      built ?S (tp, [], m) = Refresh load get d host w st"
    using run [of "nodes_of tp host" Map.empty] assms
    by (intro exI conjI) (simp_all add: exporter_cache_def Refresh_def)
qed

section \<open>Properties\<close>

text \<open>
  What a published value of the exporter goes back to: one topology that was loaded, and for every range a
  pod that one of its assignments names, read in some cluster of the time.
\<close>

definition published_from ::
  "('w \<Rightarrow> bool) \<Rightarrow> ('w \<Rightarrow> 'e + Topology) \<Rightarrow> (key \<Rightarrow> 'w \<Rightarrow> api_error + Pod) \<Rightarrow> string \<Rightarrow> string \<Rightarrow> worldState \<Rightarrow> bool" where
  "published_from clusters load get d host st \<longleftrightarrow>
     (\<exists>w. clusters w \<and> load w = Inr (topo st)) \<and>
     (\<forall>k r. podRanges st k = Some r \<longrightarrow>
        (\<exists>a \<in> set (nodes_of (topo st) host). \<exists>w pod. clusters w \<and> get (PodNamespace a, PodName a) w = Inr pod \<and>
           k = range_key (PodNamespace a) (PodName a) \<and> r = pod_range d pod))"

lemma fetch_range_origin:
  "fetch_range get d w a m k = Some r \<Longrightarrow> m k = Some r \<or>
     (\<exists>pod. get (PodNamespace a, PodName a) w = Inr pod \<and> k = range_key (PodNamespace a) (PodName a) \<and> r = pod_range d pod)"
  by (auto simp: fetch_range_def Let_def split: if_splits sum.splits)

lemma gathered_from:
  assumes "gathered (exporter_cache clusters load get d host gpus) r"
  shows "case r of (tp, as, m) \<Rightarrow> published_from clusters load get d host \<lparr>topo = tp, podRanges = m\<rparr> \<and>
    set as \<subseteq> set (nodes_of tp host)"
  using assms
proof induction
  case (gather_begin w r)
  then show ?case by (auto simp: exporter_cache_def published_from_def split: sum.splits)
next
  case (gather_step r w r')
  obtain tp as m where r: "r = (tp, as, m)" by (cases r)
  with gather_step obtain a as' where r': "as = a # as'" "r' = (tp, as', fetch_range get d w a m)"
    by (cases as) (auto simp: exporter_cache_def)
  have w: "clusters w" using gather_step by (simp add: exporter_cache_def)
  have a: "a \<in> set (nodes_of tp host)" using gather_step.IH by (simp add: r r')
  have "published_from clusters load get d host \<lparr>topo = tp, podRanges = fetch_range get d w a m\<rparr>"
    using gather_step.IH w a unfolding r r' published_from_def
    by (auto dest!: fetch_range_origin)
  with gather_step.IH show ?case by (simp add: r r')
qed

text \<open>
  C18. A scrape is atomic although its reads are not. In every interleaving of any number of scrapes with the refreshes and with
  changes of the cluster, a finished scrape has exactly what one call of the sampler gives on one
  published value, which was current at some moment between its arrival and its response: nothing published while it ran
  is mixed in, and it is not older than what was published when it arrived. That value is the initial one, or comes from one
  loaded topology and pods that were read while its refresh ran. Writer and readers are never in the
  lock together.
\<close>

theorem scrapes_are_atomic:
  assumes "(cache_step (exporter_cache clusters load get d host gpus))\<^sup>*\<^sup>* (cache_start initial_state w) s" "clusters w"
    and "Responded b p rng out \<in> set (scrapers s)"
  shows "b \<le> p \<and> p \<le> current s \<and> out = topologySampler (cells s ! p) gpus host rng \<and>
    (cells s ! p = initial_state \<or> published_from clusters load get d host (cells s ! p)) \<and>
    \<not> (write_locked (refresher s) \<and> list_ex read_locked (scrapers s))"
proof -
  let ?S = "exporter_cache clusters load get d host gpus"
  have inv: "cache_inv ?S initial_state s"
    by (rule cache_inv_run [OF assms(1)]) (simp add: exporter_cache_def assms(2))
  then have "scraper_ok ?S (cells s) (Responded b p rng out)" "Suc (current s) = length (cells s)"
    using assms(3) by (auto simp: cache_inv_def list_all_iff)
  moreover from this inv have "cells s ! p = initial_state \<or> published_from clusters load get d host (cells s ! p)"
  proof -
    from inv obtain rs where rs: "cells s = initial_state # map (built ?S) rs" "list_all (publishable ?S) rs"
      by (auto simp: cache_inv_def)
    have "published_from clusters load get d host (built ?S r)" if "r \<in> set rs" for r
    proof -
      obtain tp as m where r: "r = (tp, as, m)" by (cases r)
      have "gathered ?S r" using rs(2) that by (auto simp: list_all_iff publishable_def)
      from gathered_from [OF this] show ?thesis by (simp add: r exporter_cache_def)
    qed
    then have "\<forall>st \<in> set (cells s). st = initial_state \<or> published_from clusters load get d host st"
      by (auto simp: rs(1))
    with \<open>scraper_ok ?S (cells s) (Responded b p rng out)\<close> show ?thesis by simp
  qed
  ultimately show ?thesis
    using inv topologySampler_all by (auto simp: cache_inv_def exporter_cache_def list_all_iff list_ex_iff)
qed

lemma rtranclp_five: "r a b \<Longrightarrow> r b c \<Longrightarrow> r c d \<Longrightarrow> r d e \<Longrightarrow> r e f \<Longrightarrow> r\<^sup>*\<^sup>* a f"
  by (meson converse_rtranclp_into_rtranclp r_into_rtranclp)

theorem scrapes_are_atomic_witness:
  "\<exists>s out. (cache_step (exporter_cache (\<lambda>_ :: unit. True) (\<lambda>_. Inl ''down'' :: string + Topology) (\<lambda>_ _. Inl NotFound) ''5-15'' ''n''
       [gpu_at ''n'' ''MI300X'' 64 ''spx'' 1 0 0]))\<^sup>*\<^sup>* (cache_start initial_state ()) s \<and>
     Responded 0 0 (\<lambda>_. 1 / 2) out \<in> set (scrapers s) \<and>
     out = topologySampler initial_state [gpu_at ''n'' ''MI300X'' 64 ''spx'' 1 0 0] ''n'' (\<lambda>_. 1 / 2)"
proof -
  let ?g = "gpu_at ''n'' ''MI300X'' 64 ''spx'' 1 0 0" and ?rng = "\<lambda>_. 1 / 2"
  let ?S = "exporter_cache (\<lambda>_ :: unit. True) (\<lambda>_. Inl ''down'' :: string + Topology) (\<lambda>_ _. Inl NotFound) ''5-15'' ''n'' [?g]"
  let ?s = "\<lambda>p. (cache_start initial_state ())\<lparr>scrapers := [p]\<rparr>"
  obtain x rng' where x: "sample_one ?S initial_state ?g ?rng = (x, rng')" by fastforce
  have items: "items ?S = [?g]" by (simp add: exporter_cache_def)
  have "cache_step ?S (cache_start initial_state ()) (?s (Arrived 0))"
    using scrape_arrives [of ?S "cache_start initial_state ()"] by (simp add: cache_start_def)
  moreover have "cache_step ?S (?s (Arrived 0)) (?s (ReadLocked 0))"
    using scrape_locks [of 0 "?s (Arrived 0)" 0 ?S] by (simp add: cache_start_def)
  moreover have "cache_step ?S (?s (ReadLocked 0)) (?s (Sampling 0 0 ?rng [?g] ?rng []))"
    using scrape_takes [of 0 "?s (ReadLocked 0)" 0 ?rng ?S] by (simp add: cache_start_def items rng_ok_def)
  moreover have "cache_step ?S (?s (Sampling 0 0 ?rng [?g] ?rng [])) (?s (Sampling 0 0 ?rng [] rng' [x]))"
    using scrape_samples [of 0 "?s (Sampling 0 0 ?rng [?g] ?rng [])" 0 0 ?rng ?g "[]" ?rng "[]" ?S x rng'] x
    by (simp add: cache_start_def)
  moreover have "cache_step ?S (?s (Sampling 0 0 ?rng [] rng' [x])) (?s (Responded 0 0 ?rng [x]))"
    using scrape_responds [of 0 "?s (Sampling 0 0 ?rng [] rng' [x])" 0 0 ?rng rng' "[x]" ?S]
    by (simp add: cache_start_def)
  ultimately have run: "(cache_step ?S)\<^sup>*\<^sup>* (cache_start initial_state ()) (?s (Responded 0 0 ?rng [x]))"
    by (rule rtranclp_five)
  have "[x] = topologySampler initial_state [?g] ''n'' ?rng"
    using scrapes_are_atomic [OF run, of 0 0 ?rng "[x]"] by (simp add: cache_start_def)
  with run show ?thesis by (intro exI [of _ "?s (Responded 0 0 ?rng [x])"] exI [of _ "[x]"]) simp
qed

text \<open>The same for the sidecar.\<close>

lemma dcgm_scrapes_atomic:
  assumes "(cache_step (dcgm_cache clusters list_pods host gpus))\<^sup>*\<^sup>* (cache_start [] w) s" "clusters w"
    and "Responded b p rng out \<in> set (scrapers s)"
  shows "b \<le> p \<and> p \<le> current s \<and> out = buildSampler (cells s ! p) gpus host rng"
proof -
  let ?S = "dcgm_cache clusters list_pods host gpus"
  have inv: "cache_inv ?S [] s"
    by (rule cache_inv_run [OF assms(1)]) (simp add: dcgm_cache_def assms(2))
  then have "scraper_ok ?S (cells s) (Responded b p rng out)" "Suc (current s) = length (cells s)"
    using assms(3) by (auto simp: cache_inv_def list_all_iff)
  then show ?thesis
    by (auto simp: dcgm_cache_def sample_slots_all buildSampler_def)
qed

end
