(* ===== verification/Go_Slice.thy ===== *)
theory Go_Slice
  imports Main
begin

text \<open>
  Slices of Go on an explicit store, as far as the code uses them: \<open>make\<close>, \<open>append\<close>, \<open>copy\<close> and assignment by
  index. A slice is a reference to an array with a length; several slices may share one array. Nothing in the code slices a
  slice, so every slice starts at the first element of its array.
\<close>

type_synonym 'a arrays = "'a list list" \<comment> \<open>the arrays allocated so far; the address is the position\<close>

record slice =
  sl_array :: "nat option" \<comment> \<open>\<open>None\<close> is the nil slice's\<close>
  sl_len :: nat

definition nil_slice :: slice where "nil_slice = \<lparr>sl_array = None, sl_len = 0\<rparr>"

definition array_of :: "'a arrays \<Rightarrow> slice \<Rightarrow> 'a list" where
  "array_of h s = (case sl_array s of None \<Rightarrow> [] | Some a \<Rightarrow> if a < length h then h ! a else [])"

definition elems :: "'a arrays \<Rightarrow> slice \<Rightarrow> 'a list" where
  "elems h s = take (sl_len s) (array_of h s)"

definition slice_cap :: "'a arrays \<Rightarrow> slice \<Rightarrow> nat" where
  "slice_cap h s = length (array_of h s)"

definition slice_ok :: "'a arrays \<Rightarrow> slice \<Rightarrow> bool" where
  "slice_ok h s \<longleftrightarrow> sl_len s \<le> slice_cap h s \<and> (case sl_array s of None \<Rightarrow> True | Some a \<Rightarrow> a < length h)"

definition write_array :: "slice \<Rightarrow> 'a list \<Rightarrow> 'a arrays \<Rightarrow> 'a arrays" where
  "write_array s xs h = (case sl_array s of None \<Rightarrow> h | Some a \<Rightarrow> h[a := xs])"

text \<open>\<open>make([]T, n, c)\<close> for \<open>n \<le> c\<close>.\<close>

definition make_slice :: "'a \<Rightarrow> nat \<Rightarrow> nat \<Rightarrow> 'a arrays \<Rightarrow> slice \<times> 'a arrays" where
  "make_slice zero n c h = (\<lparr>sl_array = Some (length h), sl_len = n\<rparr>, h @ [replicate c zero])"

text \<open>\<open>append(s, x)\<close>. A full array is left alone and a new one allocated; Go chooses how much room that has, here \<open>spare\<close>.\<close>

definition append_slice :: "'a list \<Rightarrow> slice \<Rightarrow> 'a \<Rightarrow> 'a arrays \<Rightarrow> slice \<times> 'a arrays" where
  "append_slice spare s x h =
     (if sl_len s < slice_cap h s
      then (s\<lparr>sl_len := Suc (sl_len s)\<rparr>, write_array s ((array_of h s)[sl_len s := x]) h)
      else (\<lparr>sl_array = Some (length h), sl_len = Suc (sl_len s)\<rparr>, h @ [elems h s @ x # spare]))"

text \<open>\<open>copy(dst, src)\<close>.\<close>

definition slice_copy :: "slice \<Rightarrow> slice \<Rightarrow> 'a arrays \<Rightarrow> 'a arrays" where
  "slice_copy dst src h =
     (let n = min (sl_len dst) (sl_len src) in
      write_array dst (take n (elems h src) @ drop n (array_of h dst)) h)"

text \<open>\<open>s[i] = x\<close>; \<open>None\<close> is the panic of an index out of range.\<close>

definition assign_slice :: "slice \<Rightarrow> nat \<Rightarrow> 'a \<Rightarrow> 'a arrays \<Rightarrow> 'a arrays option" where
  "assign_slice s i x h = (if i < sl_len s then Some (write_array s ((array_of h s)[i := x]) h) else None)"

text \<open>\<open>out := make([]T, len(s)); copy(out, s)\<close>.\<close>

definition clone_slice :: "'a \<Rightarrow> slice \<Rightarrow> 'a arrays \<Rightarrow> slice \<times> 'a arrays" where
  "clone_slice zero s h =
     (let (out, h1) = make_slice zero (sl_len s) (sl_len s) h in (out, slice_copy out s h1))"

section \<open>Framing\<close>

text \<open>Two slices are apart when they do not share an array.\<close>

definition apart :: "slice \<Rightarrow> slice \<Rightarrow> bool" where
  "apart s t \<longleftrightarrow> sl_array s = None \<or> sl_array t = None \<or> sl_array s \<noteq> sl_array t"

lemma length_write_array [simp]: "length (write_array s xs h) = length h"
  by (simp add: write_array_def split: option.split)

lemma array_of_write: "slice_ok h s \<Longrightarrow> sl_array s \<noteq> None \<Longrightarrow> array_of (write_array s xs h) s = xs"
  by (auto simp: array_of_def write_array_def slice_ok_def)

lemma array_of_write_apart: "apart s t \<Longrightarrow> array_of (write_array s xs h) t = array_of h t"
  by (auto simp: array_of_def write_array_def apart_def split: option.split)

lemma array_of_grow: "slice_ok h s \<Longrightarrow> array_of (h @ xs) s = array_of h s"
  by (auto simp: array_of_def slice_ok_def nth_append split: option.split)

lemma slice_ok_grow: "slice_ok h s \<Longrightarrow> slice_ok (h @ xs) s"
  by (auto simp: slice_ok_def slice_cap_def array_of_grow split: option.splits)

lemma slice_ok_array: "slice_ok h s \<Longrightarrow> sl_array s = Some a \<Longrightarrow> a < length h"
  by (simp add: slice_ok_def)

lemma slice_ok_write:
  assumes "slice_ok h t" "apart s t \<or> t = s \<and> length xs = slice_cap h s"
  shows "slice_ok (write_array s xs h) t"
  using assms
proof (cases "apart s t")
  case True
  with assms(1) show ?thesis by (simp add: slice_ok_def slice_cap_def array_of_write_apart split: option.splits)
next
  case False
  with assms have "t = s" "length xs = slice_cap h s" "sl_array s \<noteq> None" by (auto simp: apart_def)
  with assms(1) show ?thesis
    by (auto simp: slice_ok_def slice_cap_def array_of_write [unfolded slice_ok_def] split: option.splits)
qed

lemma length_elems: "slice_ok h s \<Longrightarrow> length (elems h s) = sl_len s"
  by (simp add: elems_def slice_ok_def slice_cap_def)

lemma elems_grow: "slice_ok h s \<Longrightarrow> elems (h @ xs) s = elems h s"
  by (simp add: elems_def array_of_grow)

lemma elems_write_apart: "apart s t \<Longrightarrow> elems (write_array s xs h) t = elems h t"
  by (simp add: elems_def array_of_write_apart)

lemma apart_sym: "apart s t \<longleftrightarrow> apart t s"
  by (auto simp: apart_def)

lemma apart_fresh: "slice_ok h t \<Longrightarrow> sl_array s = Some (length h) \<Longrightarrow> apart s t"
  by (auto simp: apart_def dest: slice_ok_array)

lemma apart_same_array: "sl_array s = sl_array s' \<Longrightarrow> apart s t \<longleftrightarrow> apart s' t"
  by (simp add: apart_def)

section \<open>The operations\<close>

lemma make_slice_ok:
  assumes "make_slice zero n c h = (s, h')" "n \<le> c"
  shows "slice_ok h' s" "slice_cap h' s = c" "elems h' s = replicate n zero" "sl_len s = n"
    "sl_array s = Some (length h)" "h' = h @ [replicate c zero]"
  using assms by (auto simp: make_slice_def slice_ok_def slice_cap_def array_of_def elems_def min_def)

text \<open>Appending where there is room: in place, with one element more.\<close>

lemma append_slice_room:
  assumes "slice_ok h s" "sl_len s < slice_cap h s" "append_slice spare s x h = (s', h')"
  shows "h' = write_array s ((array_of h s)[sl_len s := x]) h" "sl_array s' = sl_array s" "slice_ok h' s'"
    "elems h' s' = elems h s @ [x]" "slice_cap h' s' = slice_cap h s" "sl_len s' = Suc (sl_len s)"
proof -
  have s': "s' = s\<lparr>sl_len := Suc (sl_len s)\<rparr>" and h': "h' = write_array s ((array_of h s)[sl_len s := x]) h"
    using assms(2,3) by (auto simp: append_slice_def)
  have a: "sl_array s \<noteq> None" using assms(2) by (auto simp: slice_cap_def array_of_def split: option.splits)
  have "array_of h' s' = array_of h' s" by (simp add: array_of_def s')
  also have "\<dots> = (array_of h s)[sl_len s := x]" unfolding h' by (rule array_of_write [OF assms(1) a])
  finally have arr: "array_of h' s' = (array_of h s)[sl_len s := x]" .
  show "slice_ok h' s'"
    using assms(1,2) by (auto simp: slice_ok_def slice_cap_def arr) (auto simp: s' h' split: option.splits)
  show "elems h' s' = elems h s @ [x]"
    using assms(2) by (simp add: elems_def arr slice_cap_def) (simp add: s' take_Suc_conv_app_nth)
  show "slice_cap h' s' = slice_cap h s" by (simp add: slice_cap_def arr)
qed (use assms(2,3) in \<open>auto simp: append_slice_def\<close>)

lemma assign_slice_elems:
  assumes "slice_ok h s" "assign_slice s i x h = Some h'"
  shows "elems h' s = (elems h s)[i := x]" "i < sl_len s" "slice_ok h' s"
    "h' = write_array s ((array_of h s)[i := x]) h"
proof -
  show i: "i < sl_len s" and h': "h' = write_array s ((array_of h s)[i := x]) h"
    using assms(2) by (auto simp: assign_slice_def split: if_splits)
  have "sl_array s \<noteq> None" using i assms(1) by (auto simp: slice_ok_def slice_cap_def array_of_def split: option.splits)
  then show "elems h' s = (elems h s)[i := x]"
    unfolding elems_def h' by (simp add: array_of_write [OF assms(1)] take_update_swap)
  show "slice_ok h' s"
    unfolding h' using assms(1) by (rule slice_ok_write) (simp add: slice_cap_def)
qed

text \<open>A clone is a fresh array with the same elements; no array that was there has changed.\<close>

lemma clone_slice_ok:
  assumes "clone_slice zero s h = (t, h')" "slice_ok h s"
  shows "slice_ok h' t" "elems h' t = elems h s" "sl_array t = Some (length h)" "h' = h @ [elems h s]" "sl_len t = sl_len s"
proof -
  obtain u h1 where mk: "make_slice zero (sl_len s) (sl_len s) h = (u, h1)" by fastforce
  note u = make_slice_ok [OF mk order_refl]
  have t: "t = u" and h': "h' = slice_copy u s h1" using assms(1) mk by (auto simp: clone_slice_def)
  have src: "elems h1 s = elems h s" unfolding u(6) using assms(2) by (rule elems_grow)
  have cap: "length (array_of h1 u) = sl_len s" using u(2) by (simp add: slice_cap_def)
  have "take (sl_len s) (elems h1 s) @ drop (sl_len s) (array_of h1 u) = elems h s"
    using src cap length_elems [OF assms(2)] by simp
  then show h'_eq: "h' = h @ [elems h s]"
    using u(4-6) by (simp add: h' slice_copy_def Let_def write_array_def)
  show "sl_array t = Some (length h)" "sl_len t = sl_len s" using u(4,5) t by simp_all
  then show "slice_ok h' t" "elems h' t = elems h s"
    using length_elems [OF assms(2)] by (simp_all add: h'_eq slice_ok_def slice_cap_def array_of_def elems_def)
qed

end
