(* ===== verification/Dcgm_Cache.thy ===== *)
theory Dcgm_Cache
  imports Go_Slice Dcgm_Extras
begin

text \<open>
  The cache of the NVIDIA sidecar in memory (\<open>internal/exporter/cache.go\<close>): \<open>Refresh\<close> appends to an array while
  scrapes copy the published one, and a caller of \<open>Snapshot\<close> owns the copy. \<open>Dcgm_Extras\<close> has the cache as a value;
  here it is a slice on a store, refreshed element by element beside its readers.
\<close>

section \<open>The container of a pod\<close>

text \<open>The sidecar has its own copy of these two functions; the AMD operator's are in \<open>Pods\<close>.\<close>

definition dcgm_hasGPURequest :: "PodContainer \<Rightarrow> bool" where
  "dcgm_hasGPURequest c =
     (if (case c_limits c gpuRequestName of Some q \<Rightarrow> q \<noteq> 0 | None \<Rightarrow> False) then True
      else case c_requests c gpuRequestName of Some q \<Rightarrow> q \<noteq> 0 | None \<Rightarrow> False)"

fun first_requesting :: "PodContainer list \<Rightarrow> string" where
  "first_requesting [] = []"
| "first_requesting (c # cs) = (if dcgm_hasGPURequest c then c_name c else first_requesting cs)"

definition dcgm_firstGPUContainer :: "Pod \<Rightarrow> string" where
  "dcgm_firstGPUContainer p = first_requesting (p_containers p)"

lemma dcgm_firstGPUContainer_eq: "dcgm_firstGPUContainer p = firstGPUContainer gpuRequestName p"
proof -
  have "dcgm_hasGPURequest = hasGPURequest gpuRequestName"
    by (simp add: fun_eq_iff dcgm_hasGPURequest_def hasGPURequest_def)
  then have "first_requesting cs = (case find (hasGPURequest gpuRequestName) cs of None \<Rightarrow> [] | Some c \<Rightarrow> c_name c)" for cs
    by (induction cs) simp_all
  then show ?thesis by (simp add: dcgm_firstGPUContainer_def firstGPUContainer_def)
qed

section \<open>The cache\<close>

definition no_assignment :: nodeAssignment where
  "no_assignment = \<lparr>na_PodName = [], na_Namespace = [], na_Container = [], na_Util = []\<rparr>"

text \<open>The mutable field of \<open>cache\<close> and the store; client, hostname and logger are parameters.\<close>

record dcgm_store =
  st_arrays :: "nodeAssignment arrays"
  assignments :: slice

definition newCache :: "nodeAssignment arrays \<Rightarrow> dcgm_store" where
  "newCache h = \<lparr>st_arrays = h, assignments = nil_slice\<rparr>"

definition cache_Snapshot :: "dcgm_store \<Rightarrow> slice \<times> dcgm_store" where
  "cache_Snapshot c = apsnd (\<lambda>h. c\<lparr>st_arrays := h\<rparr>) (clone_slice no_assignment (assignments c) (st_arrays c))"

text \<open>One iteration of the loop of \<open>Refresh\<close>. \<open>spare\<close> is the room an append would give a new array.\<close>

definition append_pod :: "nodeAssignment list \<Rightarrow> Pod \<Rightarrow> slice \<times> nodeAssignment arrays \<Rightarrow> slice \<times> nodeAssignment arrays" where
  "append_pod spare p out_h =
     (let container = dcgm_firstGPUContainer p in
      if container = [] then out_h
      else append_slice spare (fst out_h)
        \<lparr>na_PodName = p_name p, na_Namespace = p_namespace p, na_Container = container,
         na_Util = map_get (p_annotations p) dcgm_utilizationAnnotation\<rparr> (snd out_h))"

fun append_pods :: "nodeAssignment list \<Rightarrow> Pod list \<Rightarrow> slice \<times> nodeAssignment arrays \<Rightarrow> slice \<times> nodeAssignment arrays" where
  "append_pods spare [] out_h = out_h"
| "append_pods spare (p # pods) out_h = append_pods spare pods (append_pod spare p out_h)"

definition cache_Refresh ::
  "nodeAssignment list \<Rightarrow> (string \<Rightarrow> 'w \<Rightarrow> api_error + Pod list) \<Rightarrow> string \<Rightarrow> 'w \<Rightarrow> dcgm_store \<Rightarrow> dcgm_store" where
  "cache_Refresh spare list_pods hostname w c =
     (case list_pods hostname w of
        Inl _ \<Rightarrow> c
      | Inr pods \<Rightarrow>
          let (out, h) = append_pods spare pods (make_slice no_assignment 0 (length pods) (st_arrays c))
          in c\<lparr>st_arrays := h, assignments := out\<rparr>)"

section \<open>A refresh refines the abstract one\<close>

lemma gpu_assignments_append: "gpu_assignments (xs @ ys) = gpu_assignments xs @ gpu_assignments ys"
  by (induction xs) (simp_all add: Let_def)

lemma length_gpu_assignments: "length (gpu_assignments pods) \<le> length pods"
  by (induction pods) (simp_all add: Let_def)

text \<open>The slice \<open>out\<close> after the pods \<open>pods\<close> of a list of \<open>n\<close>: it never leaves the array that \<open>make\<close> gave it.\<close>

definition filled :: "nodeAssignment arrays \<Rightarrow> slice \<Rightarrow> Pod list \<Rightarrow> nat \<Rightarrow> bool" where
  "filled h out pods n \<longleftrightarrow> slice_ok h out \<and> elems h out = gpu_assignments pods \<and> slice_cap h out = n"

lemma append_pod_filled:
  assumes "filled h out pods n" "length pods < n" "append_pod spare p (out, h) = (out', h')"
  shows "filled h' out' (pods @ [p]) n" "sl_array out' = sl_array out"
    "h' = h \<or> (\<exists>xs. h' = write_array out xs h)"
proof -
  let ?x = "\<lparr>na_PodName = p_name p, na_Namespace = p_namespace p, na_Container = firstGPUContainer gpuRequestName p,
    na_Util = map_get (p_annotations p) dcgm_utilizationAnnotation\<rparr>"
  have "filled h' out' (pods @ [p]) n \<and> sl_array out' = sl_array out \<and> (h' = h \<or> (\<exists>xs. h' = write_array out xs h))"
  proof (cases "firstGPUContainer gpuRequestName p = []")
    case True
    with assms show ?thesis by (simp add: append_pod_def dcgm_firstGPUContainer_eq filled_def gpu_assignments_append)
  next
    case False
    then have app: "append_slice spare out ?x h = (out', h')" using assms(3) by (simp add: append_pod_def dcgm_firstGPUContainer_eq)
    have ok: "slice_ok h out" using assms(1) by (simp add: filled_def)
    have "sl_len out = length (gpu_assignments pods)"
      using assms(1) length_elems [OF ok] by (simp add: filled_def)
    then have "sl_len out < slice_cap h out"
      using assms(1,2) length_gpu_assignments [of pods] by (simp add: filled_def)
    note room = append_slice_room [OF ok this app]
    have "elems h' out' = gpu_assignments (pods @ [p])"
      using room(4) assms(1) False by (simp add: filled_def gpu_assignments_append)
    with room assms(1) show ?thesis by (auto simp: filled_def)
  qed
  then show "filled h' out' (pods @ [p]) n" "sl_array out' = sl_array out" "h' = h \<or> (\<exists>xs. h' = write_array out xs h)"
    by blast+
qed

lemma append_pods_filled:
  assumes "filled h out done (length (done @ pods))" "append_pods spare pods (out, h) = (out', h')"
  shows "filled h' out' (done @ pods) (length (done @ pods))" "sl_array out' = sl_array out"
    "apart out s \<Longrightarrow> elems h' s = elems h s"
proof -
  have "filled h' out' (done @ pods) (length (done @ pods)) \<and> sl_array out' = sl_array out \<and>
      (apart out s \<longrightarrow> elems h' s = elems h s)"
    using assms
  proof (induction pods arbitrary: "done" out h)
    case (Cons p pods)
    obtain out1 h1 where step: "append_pod spare p (out, h) = (out1, h1)" by fastforce
    have "length done < length (done @ p # pods)" by simp
    note first = append_pod_filled [OF Cons.prems(1) this step]
    have "filled h1 out1 (done @ [p]) (length ((done @ [p]) @ pods))" using first(1) by simp
    from Cons.IH [OF this] Cons.prems(2) step
    have rest: "filled h' out' (done @ p # pods) (length (done @ p # pods)) \<and> sl_array out' = sl_array out1 \<and>
        (apart out1 s \<longrightarrow> elems h' s = elems h1 s)" by simp
    have "apart out s \<Longrightarrow> elems h1 s = elems h s" using first(3) elems_write_apart by blast
    with rest first(2) apart_same_array [OF first(2), of s] show ?case by auto
  qed simp
  then show "filled h' out' (done @ pods) (length (done @ pods))" "sl_array out' = sl_array out"
    "apart out s \<Longrightarrow> elems h' s = elems h s" by blast+
qed

text \<open>
  A refresh publishes what the abstract refresh says, and no slice that anyone had before shows a difference:
  neither the slice published until then nor an earlier snapshot.
\<close>

lemma cache_Refresh_refines:
  assumes "slice_ok (st_arrays c) (assignments c)" "c' = cache_Refresh spare list_pods hostname w c"
  shows "slice_ok (st_arrays c') (assignments c')"
    "elems (st_arrays c') (assignments c') =
      dcgm_Refresh list_pods hostname w (elems (st_arrays c) (assignments c))"
    "slice_ok (st_arrays c) s \<Longrightarrow> elems (st_arrays c') s = elems (st_arrays c) s"
proof -
  have "slice_ok (st_arrays c') (assignments c') \<and>
      elems (st_arrays c') (assignments c') = dcgm_Refresh list_pods hostname w (elems (st_arrays c) (assignments c)) \<and>
      (slice_ok (st_arrays c) s \<longrightarrow> elems (st_arrays c') s = elems (st_arrays c) s)"
  proof (cases "list_pods hostname w")
    case (Inl e)
    with assms show ?thesis by (simp add: cache_Refresh_def dcgm_Refresh_def)
  next
    case (Inr pods)
    obtain out h where mk: "make_slice no_assignment 0 (length pods) (st_arrays c) = (out, h)" by fastforce
    obtain out' h' where app: "append_pods spare pods (out, h) = (out', h')" by fastforce
    note made = make_slice_ok [OF mk le0]
    have "filled h out [] (length ([] @ pods))" using made(1-3) by (simp add: filled_def)
    note f = append_pods_filled [OF this app]
    have c': "c' = c\<lparr>st_arrays := h', assignments := out'\<rparr>"
      using Inr mk app by (simp add: assms(2) cache_Refresh_def)
    have "elems h' s = elems (st_arrays c) s" if "slice_ok (st_arrays c) s"
      using f(3) [of s] apart_fresh [OF that made(5)] elems_grow [OF that] made(6) by simp
    with f(1) Inr show ?thesis by (simp add: c' filled_def dcgm_Refresh_def)
  qed
  then show "slice_ok (st_arrays c') (assignments c')"
    "elems (st_arrays c') (assignments c') = dcgm_Refresh list_pods hostname w (elems (st_arrays c) (assignments c))"
    "slice_ok (st_arrays c) s \<Longrightarrow> elems (st_arrays c') s = elems (st_arrays c) s" by blast+
qed

section \<open>Refreshes beside readers\<close>

text \<open>
  The refreshing goroutine and its readers. \<open>building\<close> is what \<open>Refresh\<close> holds between its steps: the pods that were
  listed, those to come, and \<open>out\<close>. \<open>taken\<close> are the snapshots handed out. For the statements only: \<open>listed\<close> is the list
  the published slice was built from, and each snapshot carries what its owner should see in it. The copy under
  the read lock is one step; the steps of \<open>Refresh\<close> that fill \<open>out\<close> take no lock.
\<close>

record dcgm_memory = dcgm_store +
  listed :: "Pod list"
  building :: "(Pod list \<times> Pod list \<times> slice) option"
  taken :: "(slice \<times> nodeAssignment list) list"

inductive memory_step :: "nodeAssignment list \<Rightarrow> dcgm_memory \<Rightarrow> dcgm_memory \<Rightarrow> bool" for spare where
  refresh_lists: "building m = None \<Longrightarrow> make_slice no_assignment 0 (length pods) (st_arrays m) = (out, h) \<Longrightarrow>
    memory_step spare m (m\<lparr>st_arrays := h, building := Some (pods, pods, out)\<rparr>)"
| refresh_appends: "building m = Some (pods, p # ps, out) \<Longrightarrow> append_pod spare p (out, st_arrays m) = (out', h) \<Longrightarrow>
    memory_step spare m (m\<lparr>st_arrays := h, building := Some (pods, ps, out')\<rparr>)"
| refresh_publishes: "building m = Some (pods, [], out) \<Longrightarrow>
    memory_step spare m (m\<lparr>assignments := out, listed := pods, building := None\<rparr>)"
| reader_copies: "clone_slice no_assignment (assignments m) (st_arrays m) = (s, h) \<Longrightarrow>
    memory_step spare m (m\<lparr>st_arrays := h, taken := (s, elems (st_arrays m) (assignments m)) # taken m\<rparr>)"
| reader_assigns: "taken m = before @ (s, xs) # after \<Longrightarrow> assign_slice s i x (st_arrays m) = Some h \<Longrightarrow>
    memory_step spare m (m\<lparr>st_arrays := h, taken := before @ (s, xs[i := x]) # after\<rparr>)"

definition memory_start :: dcgm_memory where
  "memory_start = dcgm_store.extend (newCache []) \<lparr>listed = [], building = None, taken = []\<rparr>"

text \<open>The slices that are in use, and the invariant: they are valid, share no array, and show what they should.\<close>

definition building_slices :: "dcgm_memory \<Rightarrow> slice list" where
  "building_slices m = (case building m of None \<Rightarrow> [] | Some (_, _, out) \<Rightarrow> [out])"

definition live_slices :: "dcgm_memory \<Rightarrow> slice list" where
  "live_slices m = assignments m # building_slices m @ map fst (taken m)"

definition building_ok :: "dcgm_memory \<Rightarrow> bool" where
  "building_ok m \<longleftrightarrow> (\<forall>pods rest out. building m = Some (pods, rest, out) \<longrightarrow>
     (\<exists>done. pods = done @ rest \<and> filled (st_arrays m) out done (length pods)))"

definition shows_all :: "nodeAssignment arrays \<Rightarrow> (slice \<times> nodeAssignment list) list \<Rightarrow> bool" where
  "shows_all h ts \<longleftrightarrow> list_all (\<lambda>(s, xs). elems h s = xs) ts"

definition memory_inv :: "dcgm_memory \<Rightarrow> bool" where
  "memory_inv m \<longleftrightarrow> list_all (slice_ok (st_arrays m)) (live_slices m) \<and> sorted_wrt apart (live_slices m) \<and>
     elems (st_arrays m) (assignments m) = gpu_assignments (listed m) \<and> building_ok m \<and> shows_all (st_arrays m) (taken m)"

text \<open>What a change of the store leaves valid and unchanged: growth, and writes to an array that is apart.\<close>

definition store_keeps :: "nodeAssignment arrays \<Rightarrow> nodeAssignment arrays \<Rightarrow> slice \<Rightarrow> bool" where
  "store_keeps h h' s \<longleftrightarrow> slice_ok h' s \<and> elems h' s = elems h s \<and> slice_cap h' s = slice_cap h s"

lemma store_keeps_grow: "slice_ok h s \<Longrightarrow> store_keeps h (h @ xs) s"
  by (simp add: store_keeps_def slice_ok_grow elems_grow slice_cap_def array_of_grow)

lemma store_keeps_write: "slice_ok h s \<Longrightarrow> apart t s \<Longrightarrow> store_keeps h (write_array t xs h) s"
  by (simp add: store_keeps_def slice_ok_write elems_write_apart slice_cap_def array_of_write_apart)

lemma store_keeps_refl: "slice_ok h s \<Longrightarrow> store_keeps h h s"
  by (simp add: store_keeps_def)

lemma shows_all_keeps: "list_all (store_keeps h h') (map fst ts) \<Longrightarrow> shows_all h ts \<Longrightarrow> shows_all h' ts"
  unfolding shows_all_def store_keeps_def list_all_iff by fastforce

lemma filled_keeps: "store_keeps h h' out \<Longrightarrow> filled h out ps n \<Longrightarrow> filled h' out ps n"
  by (simp add: store_keeps_def filled_def)

lemma store_keeps_ok: "list_all (store_keeps h h') ss \<Longrightarrow> list_all (slice_ok h') ss"
  by (simp add: list_all_iff store_keeps_def)

lemma memory_inv_start: "memory_inv memory_start"
  by (simp add: memory_inv_def memory_start_def newCache_def live_slices_def building_slices_def building_ok_def
      shows_all_def dcgm_store.defs nil_slice_def slice_ok_def elems_def array_of_def)

lemma memory_inv_lists:
  assumes "memory_inv m" "building m = None" "make_slice no_assignment 0 (length pods) (st_arrays m) = (out, h)"
  shows "memory_inv (m\<lparr>st_arrays := h, building := Some (pods, pods, out)\<rparr>)"
proof -
  let ?h = "st_arrays m"
  note made = make_slice_ok [OF assms(3) le0]
  have ok: "list_all (slice_ok ?h) (assignments m # map fst (taken m))"
    and ap: "sorted_wrt apart (assignments m # map fst (taken m))"
    using assms(1,2) by (simp_all add: memory_inv_def live_slices_def building_slices_def)
  have kept: "list_all (store_keeps ?h h) (assignments m # map fst (taken m))"
    using ok unfolding made(6) list_all_iff by (blast intro: store_keeps_grow)
  have fresh: "list_all (\<lambda>s. apart out s \<and> apart s out) (assignments m # map fst (taken m))"
    using ok apart_fresh [OF _ made(5)] unfolding list_all_iff by (metis apart_sym)
  have "filled h out [] (length pods)" using made(1-3) by (simp add: filled_def)
  moreover have "elems h (assignments m) = gpu_assignments (listed m)"
    using kept assms(1) by (simp add: store_keeps_def memory_inv_def)
  moreover have "shows_all h (taken m)"
    by (rule shows_all_keeps [of ?h]) (use kept assms(1) in \<open>simp_all add: memory_inv_def\<close>)
  ultimately show ?thesis
    using store_keeps_ok [OF kept] ap fresh made(1)
    by (simp add: memory_inv_def live_slices_def building_slices_def building_ok_def list_all_iff)
qed

lemma memory_inv_appends:
  assumes "memory_inv m" "building m = Some (pods, p # ps, out)" "append_pod spare p (out, st_arrays m) = (out', h)"
  shows "memory_inv (m\<lparr>st_arrays := h, building := Some (pods, ps, out')\<rparr>)"
proof -
  let ?h = "st_arrays m"
  have ok: "list_all (slice_ok ?h) (assignments m # map fst (taken m))"
    and ap: "sorted_wrt apart (assignments m # out # map fst (taken m))"
    using assms(1,2) by (simp_all add: memory_inv_def live_slices_def building_slices_def)
  obtain "done" where part: "pods = done @ p # ps" "filled ?h out done (length pods)"
    using assms(1,2) by (auto simp: memory_inv_def building_ok_def)
  then have "length done < length pods" by simp
  note app = append_pod_filled [OF part(2) this assms(3)]
  have kept: "list_all (store_keeps ?h h) (assignments m # map fst (taken m))"
    using app(3) ok ap unfolding list_all_iff
    by (auto simp: apart_sym [of "assignments m"] intro: store_keeps_refl store_keeps_write)
  have "sorted_wrt apart (assignments m # out' # map fst (taken m))"
    using ap app(2) by (simp add: apart_def)
  moreover have "\<exists>done. pods = done @ ps \<and> filled h out' done (length pods)"
    using part(1) app(1) by (intro exI [of _ "done @ [p]"]) simp
  moreover have "elems h (assignments m) = gpu_assignments (listed m)"
    using kept assms(1) by (simp add: store_keeps_def memory_inv_def)
  moreover have "shows_all h (taken m)"
    by (rule shows_all_keeps [of ?h]) (use kept assms(1) in \<open>simp_all add: memory_inv_def\<close>)
  ultimately show ?thesis
    using store_keeps_ok [OF kept] app(1)
    by (simp add: memory_inv_def live_slices_def building_slices_def building_ok_def list_all_iff filled_def)
qed

lemma memory_inv_publishes:
  assumes "memory_inv m" "building m = Some (pods, [], out)"
  shows "memory_inv (m\<lparr>assignments := out, listed := pods, building := None\<rparr>)"
  using assms by (auto simp: memory_inv_def live_slices_def building_slices_def building_ok_def filled_def)

lemma memory_inv_copies:
  assumes "memory_inv m" "clone_slice no_assignment (assignments m) (st_arrays m) = (s, h)"
  shows "memory_inv (m\<lparr>st_arrays := h, taken := (s, elems (st_arrays m) (assignments m)) # taken m\<rparr>)"
proof -
  let ?h = "st_arrays m"
  have ok: "list_all (slice_ok ?h) (live_slices m)" and ap: "sorted_wrt apart (live_slices m)"
    using assms(1) by (simp_all add: memory_inv_def)
  have "slice_ok ?h (assignments m)" using ok by (simp add: live_slices_def)
  note cl = clone_slice_ok [OF assms(2) this]
  have kept: "list_all (store_keeps ?h h) (live_slices m)"
    using ok unfolding cl(4) list_all_iff by (blast intro: store_keeps_grow)
  have fresh: "list_all (\<lambda>t. apart s t \<and> apart t s) (live_slices m)"
    using ok apart_fresh [OF _ cl(3)] unfolding list_all_iff by (metis apart_sym)
  have "elems h (assignments m) = gpu_assignments (listed m)"
    using kept assms(1) by (simp add: store_keeps_def memory_inv_def live_slices_def)
  moreover have "shows_all h (taken m)"
    by (rule shows_all_keeps [of ?h]) (use kept assms(1) in \<open>simp_all add: memory_inv_def live_slices_def\<close>)
  moreover have "building_ok (m\<lparr>st_arrays := h, taken := (s, elems ?h (assignments m)) # taken m\<rparr>)"
    using assms(1) kept filled_keeps
    by (auto simp: memory_inv_def building_ok_def live_slices_def building_slices_def)
  ultimately show ?thesis
    using store_keeps_ok [OF kept] ap fresh cl(1,2)
    by (auto simp: memory_inv_def live_slices_def building_slices_def shows_all_def list_all_iff sorted_wrt_append)
qed

lemma memory_inv_assigns:
  assumes "memory_inv m" "taken m = before @ (s, xs) # after" "assign_slice s i x (st_arrays m) = Some h"
  shows "memory_inv (m\<lparr>st_arrays := h, taken := before @ (s, xs[i := x]) # after\<rparr>)"
proof -
  let ?h = "st_arrays m" and ?others = "assignments m # building_slices m @ map fst before @ map fst after"
  have ok: "list_all (slice_ok ?h) ?others" "slice_ok ?h s" and ap: "sorted_wrt apart (live_slices m)"
    using assms(1,2) by (simp_all add: memory_inv_def live_slices_def)
  note as = assign_slice_elems [OF ok(2) assms(3)]
  have away: "list_all (apart s) ?others"
    using ap by (auto simp: live_slices_def assms(2) list_all_iff sorted_wrt_append apart_sym)
  have kept: "list_all (store_keeps ?h h) ?others"
    using ok(1) away unfolding as(4) list_all_iff by (blast intro: store_keeps_write)
  have "elems ?h s = xs" using assms(1,2) by (simp add: memory_inv_def shows_all_def)
  moreover have "elems h (assignments m) = gpu_assignments (listed m)"
    using kept assms(1) by (simp add: store_keeps_def memory_inv_def)
  moreover have "shows_all h before \<and> shows_all h after"
    using shows_all_keeps [of ?h h before] shows_all_keeps [of ?h h after] kept assms(1,2)
    by (simp add: memory_inv_def shows_all_def)
  moreover have "building_ok (m\<lparr>st_arrays := h, taken := before @ (s, xs[i := x]) # after\<rparr>)"
    using assms(1) kept filled_keeps by (auto simp: memory_inv_def building_ok_def building_slices_def)
  ultimately show ?thesis
    using store_keeps_ok [OF kept] ap as(1,3)
    by (simp add: memory_inv_def live_slices_def building_slices_def shows_all_def assms(2))
qed

lemma memory_inv_step: "memory_step spare m m' \<Longrightarrow> memory_inv m \<Longrightarrow> memory_inv m'"
  by (induction rule: memory_step.induct)
    (simp_all add: memory_inv_lists memory_inv_appends memory_inv_publishes memory_inv_copies memory_inv_assigns)

lemma memory_inv_run: "(memory_step spare)\<^sup>*\<^sup>* memory_start m \<Longrightarrow> memory_inv m"
  by (induction rule: rtranclp_induct) (auto intro: memory_inv_start memory_inv_step)

section \<open>Properties\<close>

text \<open>
  C19. Snapshots of the sidecar's cache are private. However a refresh, element by element and without a lock, is
  interleaved with scrapes that copy the published slice and write into their copies: what is published are always the
  assignments of one list of pods that was answered in full, and every copy shows what was published when it was taken, changed by
  its owner's own writes only.
\<close>

theorem snapshots_are_private:
  assumes "(memory_step spare)\<^sup>*\<^sup>* memory_start m"
  shows "elems (st_arrays m) (assignments m) = gpu_assignments (listed m) \<and>
    list_all (\<lambda>(s, xs). elems (st_arrays m) s = xs) (taken m)"
  using memory_inv_run [OF assms] by (simp add: memory_inv_def shows_all_def)

text \<open>A reader copies what one pod published, a second refresh finds no pod, and the copy still shows the first.\<close>

definition cuda_pod :: Pod where
  "cuda_pod = \<lparr>p_namespace = ''ml'', p_name = ''train'', p_node = ''node-1'', p_phase = ''Running'', p_annotations = Map.empty,
     p_containers = [\<lparr>c_name = ''main'', c_limits = [''nvidia.com/gpu'' \<mapsto> 1], c_requests = Map.empty\<rparr>]\<rparr>"

lemma memory_after_refresh:
  assumes "(memory_step spare)\<^sup>*\<^sup>* memory_start m" "building m = None"
  obtains m' where "(memory_step spare)\<^sup>*\<^sup>* memory_start m'" "building m' = None" "listed m' = pods" "taken m' = taken m"
proof -
  obtain out h where "make_slice no_assignment 0 (length pods) (st_arrays m) = (out, h)" by fastforce
  from assms(1) refresh_lists [OF assms(2) this]
  have begun: "(memory_step spare)\<^sup>*\<^sup>* memory_start (m\<lparr>st_arrays := h, building := Some (pods, pods, out)\<rparr>)"
    by (rule rtranclp.rtrancl_into_rtrancl)
  have "\<exists>h out. (memory_step spare)\<^sup>*\<^sup>* memory_start (m\<lparr>st_arrays := h, building := Some (pods, [], out)\<rparr>)"
    if "(memory_step spare)\<^sup>*\<^sup>* memory_start (m\<lparr>st_arrays := h, building := Some (pods, rest, out)\<rparr>)" for rest h out
    using that
  proof (induction rest arbitrary: h out)
    case (Cons p ps)
    let ?m = "m\<lparr>st_arrays := h, building := Some (pods, p # ps, out)\<rparr>"
    obtain out' h' where "append_pod spare p (out, st_arrays ?m) = (out', h')" by fastforce
    from refresh_appends [OF _ this, of pods ps] have "memory_step spare ?m
        (m\<lparr>st_arrays := h', building := Some (pods, ps, out')\<rparr>)" by simp
    with Cons show ?case by (meson rtranclp.rtrancl_into_rtrancl)
  qed blast
  from this [OF begun] obtain h out
    where "(memory_step spare)\<^sup>*\<^sup>* memory_start (m\<lparr>st_arrays := h, building := Some (pods, [], out)\<rparr>)" by blast
  moreover have "memory_step spare (m\<lparr>st_arrays := h, building := Some (pods, [], out)\<rparr>)
      (m\<lparr>st_arrays := h, assignments := out, listed := pods, building := None\<rparr>)"
    using refresh_publishes [of "m\<lparr>st_arrays := h, building := Some (pods, [], out)\<rparr>" pods out spare] by simp
  ultimately have "(memory_step spare)\<^sup>*\<^sup>* memory_start (m\<lparr>st_arrays := h, assignments := out, listed := pods, building := None\<rparr>)"
    by (rule rtranclp.rtrancl_into_rtrancl)
  then show thesis by (rule that) simp_all
qed

theorem snapshots_are_private_witness:
  "\<exists>m s. (memory_step [])\<^sup>*\<^sup>* memory_start m \<and> elems (st_arrays m) (assignments m) = [] \<and>
     map na_PodName (elems (st_arrays m) s) = [''train'']"
proof -
  have none: "building memory_start = None" by (simp add: memory_start_def dcgm_store.defs)
  obtain m1 where m1: "(memory_step [])\<^sup>*\<^sup>* memory_start m1" "building m1 = None" "listed m1 = [cuda_pod]"
    using memory_after_refresh [where pods = "[cuda_pod]", OF rtranclp.rtrancl_refl none] by metis
  obtain s h where cl: "clone_slice no_assignment (assignments m1) (st_arrays m1) = (s, h)" by fastforce
  let ?m2 = "m1\<lparr>st_arrays := h, taken := (s, elems (st_arrays m1) (assignments m1)) # taken m1\<rparr>"
  have "(memory_step [])\<^sup>*\<^sup>* memory_start ?m2"
    using m1(1) reader_copies [OF cl] by (rule rtranclp.rtrancl_into_rtrancl)
  then obtain m3 where m3: "(memory_step [])\<^sup>*\<^sup>* memory_start m3" "listed m3 = []" "taken m3 = taken ?m2"
    using memory_after_refresh [where pods = "[]" and m = ?m2] m1(2) by force
  have "elems (st_arrays m1) (assignments m1) = gpu_assignments [cuda_pod]"
    using snapshots_are_private [OF m1(1)] m1(3) by simp
  moreover have "elems (st_arrays m3) s = elems (st_arrays m1) (assignments m1)" "elems (st_arrays m3) (assignments m3) = []"
    using snapshots_are_private [OF m3(1)] m3(2,3) by simp_all
  moreover have "map na_PodName (gpu_assignments [cuda_pod]) = [''train'']"
    by (simp add: cuda_pod_def firstGPUContainer_def hasGPURequest_def gpuRequestName_def)
  ultimately show ?thesis using m3(1) by metis
qed

end
