(* ===== verification/Operator_Services.thy ===== *)
theory Operator_Services
  imports Processes Go_Slice
begin

text \<open>
  What surrounds the components of the operators: the unary calls and accessors of the device-plugin server
  (\<open>pkg/deviceplugin/server.go\<close>), the construction of the in-cluster client that every operator has a copy of, the
  scheme of the controller (\<open>internal/controller/run.go\<close>, \<open>api/v1alpha1\<close>) and the stubs at the end of \<open>run\<close> in
  \<open>cmd/fake-rocm-gpu-operator/main.go\<close>.
\<close>

section \<open>The device slice of the server\<close>

text \<open>The server holds a slice of pointers; \<open>pm_devices\<close> are the devices they point to.\<close>

record plugin_memory =
  pm_pointers :: "nat option arrays"
  pm_devices :: "Device list"
  sv_devices :: slice

definition memory_of_server :: "Server \<Rightarrow> plugin_memory" where
  "memory_of_server s =
     \<lparr>pm_pointers = [map Some [0..<length (devices s)]], pm_devices = devices s,
      sv_devices = \<lparr>sl_array = Some 0, sl_len = length (devices s)\<rparr>\<rparr>"

definition server_Devices :: "plugin_memory \<Rightarrow> slice \<times> plugin_memory" where
  "server_Devices m = apsnd (\<lambda>h. m\<lparr>pm_pointers := h\<rparr>) (clone_slice None (sv_devices m) (pm_pointers m))"

definition pointed_devices :: "plugin_memory \<Rightarrow> slice \<Rightarrow> Device list" where
  "pointed_devices m s = map (\<lambda>p. pm_devices m ! the p) (elems (pm_pointers m) s)"

lemma memory_of_server_ok:
  "slice_ok (pm_pointers (memory_of_server s)) (sv_devices (memory_of_server s))"
  "pointed_devices (memory_of_server s) (sv_devices (memory_of_server s)) = devices s"
  by (simp_all add: memory_of_server_def slice_ok_def slice_cap_def array_of_def pointed_devices_def elems_def comp_def map_nth)

text \<open>
  \<open>Devices\<close> returns the server's devices. The caller may overwrite the slice it gets without the server seeing it, but
  the devices themselves are shared: both slices hold the same pointers.
\<close>

lemma server_Devices_copy:
  assumes "server_Devices m = (s, m')" "slice_ok (pm_pointers m) (sv_devices m)"
  shows "elems (pm_pointers m') s = elems (pm_pointers m') (sv_devices m')"
    "pointed_devices m' s = pointed_devices m (sv_devices m)"
    "assign_slice s i p (pm_pointers m') = Some h \<Longrightarrow> elems h (sv_devices m') = elems (pm_pointers m) (sv_devices m)"
proof -
  obtain h' where cl: "clone_slice None (sv_devices m) (pm_pointers m) = (s, h')" and m': "m' = m\<lparr>pm_pointers := h'\<rparr>"
    using assms(1) by (auto simp: server_Devices_def apsnd_def map_prod_def split: prod.splits)
  note ok = clone_slice_ok [OF cl assms(2)]
  have own: "elems h' (sv_devices m) = elems (pm_pointers m) (sv_devices m)"
    unfolding ok(4) using assms(2) by (rule elems_grow)
  with ok(2) show "elems (pm_pointers m') s = elems (pm_pointers m') (sv_devices m')" by (simp add: m')
  show "pointed_devices m' s = pointed_devices m (sv_devices m)"
    using ok(2) by (simp add: pointed_devices_def m')
  show "elems h (sv_devices m') = elems (pm_pointers m) (sv_devices m)" if "assign_slice s i p (pm_pointers m') = Some h"
  proof -
    have "h = write_array s ((array_of h' s)[i := p]) h'"
      using that m' by (auto simp: assign_slice_def split: if_splits)
    then show ?thesis using apart_fresh [OF assms(2) ok(3)] own by (simp add: m' elems_write_apart)
  qed
qed

section \<open>The unary calls of the kubelet\<close>

record DevicePluginOptions =
  PreStartRequired :: bool
  GetPreferredAllocationAvailable :: bool

definition server_ResourceName :: "Server \<Rightarrow> string" where
  "server_ResourceName s = resourceName s"

definition GetDevicePluginOptions :: "Server \<Rightarrow> DevicePluginOptions" where
  "GetDevicePluginOptions s = \<lparr>PreStartRequired = False, GetPreferredAllocationAvailable = False\<rparr>"

text \<open>A request has, per container, the devices to choose from and the size; the answer lists devices per container.\<close>

definition GetPreferredAllocation :: "Server \<Rightarrow> (string list \<times> int) list \<Rightarrow> string list list" where
  "GetPreferredAllocation s req = []"

definition PreStartContainer :: "Server \<Rightarrow> string list \<Rightarrow> unit" where
  "PreStartContainer s devs = ()"

section \<open>The in-cluster client\<close>

text \<open>What client-go answers: the configuration of the pod's service account, and the client built from it.\<close>

record ('cfg, 'cs) in_cluster =
  InClusterConfig :: "string + 'cfg"
  ClientForConfig :: "'cfg \<Rightarrow> string + 'cs"

definition exporter_newInClusterClientset :: "('cfg, 'cs) in_cluster \<Rightarrow> string + 'cs" where
  "exporter_newInClusterClientset g = (case InClusterConfig g of Inl e \<Rightarrow> Inl e | Inr cfg \<Rightarrow> ClientForConfig g cfg)"

definition plugin_newInClusterClientset :: "('cfg, 'cs) in_cluster \<Rightarrow> string + 'cs" where
  "plugin_newInClusterClientset g = (case InClusterConfig g of Inl e \<Rightarrow> Inl e | Inr cfg \<Rightarrow> ClientForConfig g cfg)"

definition updater_newInClusterClientset :: "('cfg, 'cs) in_cluster \<Rightarrow> string + 'cs" where
  "updater_newInClusterClientset g = (case InClusterConfig g of Inl e \<Rightarrow> Inl e | Inr cfg \<Rightarrow> ClientForConfig g cfg)"

definition labeller_newInClusterClientset :: "('cfg, 'cs) in_cluster \<Rightarrow> string + 'cs" where
  "labeller_newInClusterClientset g = (case InClusterConfig g of Inl e \<Rightarrow> Inl e | Inr cfg \<Rightarrow> ClientForConfig g cfg)"

definition dcgm_newInClusterClientset :: "('cfg, 'cs) in_cluster \<Rightarrow> string + 'cs" where
  "dcgm_newInClusterClientset g = (case InClusterConfig g of Inl e \<Rightarrow> Inl e | Inr cfg \<Rightarrow> ClientForConfig g cfg)"

text \<open>The five copies agree, which is why one answer \<open>pe_client\<close> stands for all of them.\<close>

lemma clients_agree:
  "plugin_newInClusterClientset = exporter_newInClusterClientset"
  "updater_newInClusterClientset = exporter_newInClusterClientset"
  "labeller_newInClusterClientset = exporter_newInClusterClientset"
  "dcgm_newInClusterClientset = exporter_newInClusterClientset"
  by (simp_all add: fun_eq_iff exporter_newInClusterClientset_def plugin_newInClusterClientset_def
      updater_newInClusterClientset_def labeller_newInClusterClientset_def dcgm_newInClusterClientset_def)

definition env_with_client :: "('cfg, 'cs) in_cluster \<Rightarrow> process_env \<Rightarrow> process_env" where
  "env_with_client g env = env\<lparr>pe_client := \<not> isl (exporter_newInClusterClientset g)\<rparr>"

text \<open>
  Without a client the status-updater and the node labeller never start, the device plugin starts without an annotator
  and the exporters serve the idle sampler.
\<close>

lemma started_without_client:
  assumes "exporter_newInClusterClientset g = Inl e"
  shows "statusupdater_Run (env_with_client g env) args \<noteq> Started u"
    "nodelabeller_Run (env_with_client g env) args \<noteq> Started l"
    "deviceplugin_Run (env_with_client g env) args = Started p \<Longrightarrow> fst p = None"
    "exporter_Run (env_with_client g env) args = Started x \<Longrightarrow> xs_refresh x = None"
  using assms
  by (auto simp: env_with_client_def statusupdater_Run_def nodelabeller_Run_def deviceplugin_Run_def exporter_Run_def
      with_flags_def Let_def split: if_splits sum.splits option.splits)

section \<open>The scheme of the controller\<close>

record GVK =
  gvk_Group :: string
  gvk_Version :: string
  gvk_Kind :: string

record scheme_builder =
  sb_Group :: string
  sb_Version :: string
  sb_kinds :: "string list"

definition SchemeBuilder :: scheme_builder where
  "SchemeBuilder = \<lparr>sb_Group = ''amd.sims.io'', sb_Version = ''v1alpha1'', sb_kinds = []\<rparr>"

text \<open>\<open>Builder.Register\<close> collects the types; \<open>Builder.AddToScheme\<close> adds them under the group and version.\<close>

definition builder_Register :: "string list \<Rightarrow> scheme_builder \<Rightarrow> scheme_builder" where
  "builder_Register kinds b = b\<lparr>sb_kinds := sb_kinds b @ kinds\<rparr>"

definition builder_AddToScheme :: "scheme_builder \<Rightarrow> GVK list \<Rightarrow> GVK list" where
  "builder_AddToScheme b known =
     known @ map (\<lambda>k. \<lparr>gvk_Group = sb_Group b, gvk_Version = sb_Version b, gvk_Kind = k\<rparr>) (sb_kinds b)"

text \<open>\<open>init\<close> of \<open>api/v1alpha1\<close>, which Go runs before that of a package importing it.\<close>

definition types_init :: "scheme_builder \<Rightarrow> scheme_builder" where
  "types_init b = builder_Register [''DeviceConfig'', ''DeviceConfigList''] b"

text \<open>
  \<open>init\<close> of \<open>internal/controller\<close>: \<open>add_core\<close> is client-go's \<open>AddToScheme\<close>; the result is \<open>None\<close> for the panic of \<open>Must\<close>.
  The builder's own \<open>AddToScheme\<close> reports no error.
\<close>

definition controller_init :: "(GVK list \<Rightarrow> string + GVK list) \<Rightarrow> scheme_builder \<Rightarrow> GVK list option" where
  "controller_init add_core b =
     (case add_core [] of Inl _ \<Rightarrow> None | Inr known \<Rightarrow> Some (builder_AddToScheme b known))"

text \<open>The kinds the reconciler reads, writes and watches are known if client-go registers its own.\<close>

definition reconciled_kinds :: "GVK list" where
  "reconciled_kinds =
     [\<lparr>gvk_Group = ''amd.sims.io'', gvk_Version = ''v1alpha1'', gvk_Kind = ''DeviceConfig''\<rparr>,
      \<lparr>gvk_Group = ''apps'', gvk_Version = ''v1'', gvk_Kind = ''DaemonSet''\<rparr>,
      \<lparr>gvk_Group = ''apps'', gvk_Version = ''v1'', gvk_Kind = ''Deployment''\<rparr>,
      \<lparr>gvk_Group = [], gvk_Version = ''v1'', gvk_Kind = ''Service''\<rparr>]"

lemma reconciled_kinds_known:
  assumes "add_core [] = Inr core" "set (tl reconciled_kinds) \<subseteq> set core"
  shows "\<exists>known. controller_init add_core (types_init SchemeBuilder) = Some known \<and> set reconciled_kinds \<subseteq> set known"
  using assms
  by (simp add: controller_init_def types_init_def builder_Register_def builder_AddToScheme_def SchemeBuilder_def
      reconciled_kinds_def)

section \<open>The end of run\<close>

definition phaseStubs :: "string \<rightharpoonup> string" where "phaseStubs = Map.empty"

datatype stub_outcome = StubHelp string string | StubError string string | NoSuchSubcommand string

definition run_stub :: "(string \<rightharpoonup> string) \<Rightarrow> string \<Rightarrow> string list \<Rightarrow> stub_outcome" where
  "run_stub stubs sub subArgs =
     (case stubs sub of
        Some msg \<Rightarrow> if list_ex (\<lambda>a. a = ''-h'' \<or> a = ''--help'') subArgs then StubHelp sub msg else StubError sub msg
      | None \<Rightarrow> NoSuchSubcommand sub)"

text \<open>No stub is left: a subcommand \<open>run\<close> does not know is refused, with \<open>--help\<close> too.\<close>

lemma no_stub_left: "run_stub phaseStubs sub subArgs = NoSuchSubcommand sub"
  by (simp add: run_stub_def phaseStubs_def)

end
