(* ===== verification/Timed_Wait.thy ===== *)
theory Timed_Wait
  imports Kube_Ops
begin

text \<open>
  The waits of \<open>pkg/kube\<close> against the clock. \<open>Kube_Ops\<close> gives the outcome of a wait as a function of its
  rounds; here the loops of \<open>wait.go\<close> and \<open>deployment.go\<close> run with their ticker, the \<open>select\<close> and the deadline
  of the context, and it is shown how many rounds there are and when the wait ends. Times are milliseconds.
  A loop that never returns has the value \<open>None\<close>.
\<close>

definition pollInterval :: nat where "pollInterval = 2 * 1000"
definition capacityWaitWindow :: nat where "capacityWaitWindow = 2 * 60 * 1000"
definition monitoringWaitWindow :: nat where "monitoringWaitWindow = 4 * 60 * 1000"

section \<open>The ticker and the select\<close>

text \<open>
  A \<open>time.Ticker\<close> sends a tick every \<open>pollInterval\<close> after its creation. Its channel holds one tick; those that find it
  full are dropped. \<open>received\<close> counts the ticks that were received or dropped.
\<close>

record ticker =
  created :: nat
  received :: nat

definition NewTicker :: "nat \<Rightarrow> ticker" where
  "NewTicker t = \<lparr>created = t, received = 0\<rparr>"

definition ticks_by :: "ticker \<Rightarrow> nat \<Rightarrow> nat" where
  "ticks_by tk t = (t - created tk) div pollInterval"

definition tick_pending :: "ticker \<Rightarrow> nat \<Rightarrow> bool" where
  "tick_pending tk t \<longleftrightarrow> received tk < ticks_by tk t"

definition next_tick :: "ticker \<Rightarrow> nat \<Rightarrow> nat" where
  "next_tick tk t = created tk + Suc (ticks_by tk t) * pollInterval"

datatype select_outcome = ContextDone nat | Ticked ticker nat

text \<open>
  The \<open>select\<close> entered at \<open>t\<close> with a context that is done from \<open>D\<close> on: it waits until one of its channels is ready.
  When both are, Go chooses, and \<open>prefers_done\<close> says how.
\<close>

definition select_tick :: "(nat \<Rightarrow> bool) \<Rightarrow> nat \<Rightarrow> ticker \<Rightarrow> nat \<Rightarrow> select_outcome" where
  "select_tick prefers_done D tk t =
     (let u = (if tick_pending tk t \<or> D \<le> t then t else min D (next_tick tk t)) in
      if D \<le> u \<and> (\<not> tick_pending tk u \<or> prefers_done u) then ContextDone u
      else Ticked (tk\<lparr>received := ticks_by tk u\<rparr>) u)"

section \<open>The two loops\<close>

text \<open>A request issued at some time has an answer and a time of its return.\<close>

type_synonym 'a requests = "nat \<Rightarrow> 'a \<times> nat"

text \<open>The body of each loop before its \<open>select\<close>: whether the answer ends the wait.\<close>

definition capacity_verdict :: "string \<Rightarrow> int \<Rightarrow> int \<Rightarrow> api_error + Node list \<Rightarrow> wait_result option" where
  "capacity_verdict resource perNode nodes answer =
     (case countReadyWorkers answer resource (of_int perNode) of
        Inl e \<Rightarrow> Some (WaitFailed e)
      | Inr ready \<Rightarrow> if int ready \<ge> nodes then Some WaitOk else None)"

fun available_verdict :: "api_error + (string \<times> string) list \<Rightarrow> wait_result option" where
  "available_verdict (Inl e) = (if e \<noteq> NotFound then Some (WaitFailed e) else None)"
| "available_verdict (Inr d) = (if deploymentAvailable d then Some WaitOk else None)"

text \<open>
  The loop from a poll at \<open>t\<close> on. It yields the rounds as \<open>Kube_Ops\<close> has them, the outcome and the time of the return.
\<close>

partial_function (option) poll_loop ::
  "'a requests \<Rightarrow> ('a \<Rightarrow> wait_result option) \<Rightarrow> (nat \<Rightarrow> bool) \<Rightarrow> nat \<Rightarrow> ticker \<Rightarrow> nat \<Rightarrow>
   (('a \<times> bool) list \<times> wait_result \<times> nat) option" where
  "poll_loop poll verdict prefers_done D tk t =
     (let (answer, t') = poll t in
      case verdict answer of
        Some r \<Rightarrow> Some ([(answer, D \<le> t')], r, t')
      | None \<Rightarrow>
          (case select_tick prefers_done D tk t' of
             ContextDone u \<Rightarrow> Some ([(answer, True)], WaitTimeout, u)
           | Ticked tk' u \<Rightarrow>
               Option.bind (poll_loop poll verdict prefers_done D tk' u)
                 (\<lambda>(rounds, r, v). Some ((answer, False) # rounds, r, v))))"

definition timed_waitForCapacity ::
  "(api_error + Node list) requests \<Rightarrow> (nat \<Rightarrow> bool) \<Rightarrow> nat \<Rightarrow> string \<Rightarrow> int \<Rightarrow> int \<Rightarrow> nat \<Rightarrow>
   (((api_error + Node list) \<times> bool) list \<times> wait_result \<times> nat) option" where
  "timed_waitForCapacity poll prefers_done D resource perNode nodes t =
     poll_loop poll (capacity_verdict resource perNode nodes) prefers_done D (NewTicker t) t"

definition timed_waitForDeployment ::
  "(api_error + (string \<times> string) list) requests \<Rightarrow> (nat \<Rightarrow> bool) \<Rightarrow> nat \<Rightarrow> nat \<Rightarrow>
   (((api_error + (string \<times> string) list) \<times> bool) list \<times> wait_result \<times> nat) option" where
  "timed_waitForDeployment poll prefers_done D t =
     poll_loop poll available_verdict prefers_done D (NewTicker t) t"

section \<open>The outcome is that of the rounds\<close>

text \<open>\<open>wait\<close> is one of the waits of \<open>Kube_Ops\<close> and \<open>verdict\<close> its body.\<close>

definition wait_of :: "('a \<Rightarrow> wait_result option) \<Rightarrow> (('a \<times> bool) list \<Rightarrow> wait_result) \<Rightarrow> bool" where
  "wait_of verdict wait \<longleftrightarrow> wait [] = WaitBlocked \<and>
     (\<forall>a b rounds. wait ((a, b) # rounds) =
       (case verdict a of Some r \<Rightarrow> r | None \<Rightarrow> if b then WaitTimeout else wait rounds))"

lemma wait_of_capacity: "wait_of (capacity_verdict resource perNode nodes) (waitForCapacity resource perNode nodes)"
  by (auto simp: wait_of_def capacity_verdict_def split: sum.splits)

lemma wait_of_available: "wait_of available_verdict waitForDeploymentAvailable"
  unfolding wait_of_def by (auto split: sum.splits)

lemma wait_of_Cons:
  "wait_of verdict wait \<Longrightarrow> wait ((a, b) # rounds) =
     (case verdict a of Some r \<Rightarrow> r | None \<Rightarrow> if b then WaitTimeout else wait rounds)"
  by (simp add: wait_of_def)

text \<open>One unfolding of the loop, with the results of the request and of the \<open>select\<close> given.\<close>

lemma poll_loop_stops:
  assumes "poll t = (a, t')" "verdict a = Some r"
  shows "poll_loop poll verdict pd D tk t = Some ([(a, D \<le> t')], r, t')"
  by (subst poll_loop.simps) (simp add: assms)

lemma poll_loop_times_out:
  assumes "poll t = (a, t')" "verdict a = None" "select_tick pd D tk t' = ContextDone u"
  shows "poll_loop poll verdict pd D tk t = Some ([(a, True)], WaitTimeout, u)"
  by (subst poll_loop.simps) (simp add: assms)

lemma poll_loop_goes_on:
  assumes "poll t = (a, t')" "verdict a = None" "select_tick pd D tk t' = Ticked tk' u"
  shows "poll_loop poll verdict pd D tk t =
    Option.bind (poll_loop poll verdict pd D tk' u) (\<lambda>(rounds, r, v). Some ((a, False) # rounds, r, v))"
  by (subst poll_loop.simps) (simp add: assms)

lemmas poll_loop_unfold = poll_loop_stops poll_loop_times_out poll_loop_goes_on

text \<open>Whatever the loop yields, the wait of \<open>Kube_Ops\<close> yields on its rounds.\<close>

lemma poll_loop_outcome:
  assumes "poll_loop poll verdict pd D tk t = Some (rounds, r, u)" "wait_of verdict wait"
  shows "wait rounds = r"
proof -
  let ?P = "\<lambda>poll verdict pd D tk t x. wait_of verdict wait \<longrightarrow> wait (fst x) = fst (snd x)"
  have "wait_of verdict wait \<longrightarrow> wait (fst (rounds, r, u)) = fst (snd (rounds, r, u))"
    by (rule poll_loop.raw_induct [of ?P, OF _ assms(1)])
      (auto simp: wait_of_Cons Option.bind_eq_Some_conv split: prod.splits option.splits select_outcome.splits)
  with assms(2) show ?thesis by simp
qed

section \<open>Time\<close>

lemma pollInterval_pos [simp]: "0 < pollInterval"
  by (simp add: pollInterval_def)

lemma ticks_by_mono: "t \<le> u \<Longrightarrow> ticks_by tk t \<le> ticks_by tk u"
  by (simp add: ticks_by_def div_le_mono)

lemma ticks_by_received [simp]: "ticks_by (tk\<lparr>received := n\<rparr>) t = ticks_by tk t"
  by (simp add: ticks_by_def)

lemma ticks_by_next: "ticks_by tk (next_tick tk t) = Suc (ticks_by tk t)"
  by (simp add: ticks_by_def next_tick_def)

lemma next_tick_after: "created tk \<le> t \<Longrightarrow> t < next_tick tk t \<and> next_tick tk t \<le> t + pollInterval"
proof -
  assume "created tk \<le> t"
  then obtain n where "t = created tk + n" using le_iff_add by blast
  moreover have "n < Suc (n div pollInterval) * pollInterval"
    by (metis dividend_less_div_times mult_Suc add.commute pollInterval_pos)
  moreover have "n div pollInterval * pollInterval \<le> n" by (rule div_times_less_eq_dividend)
  ultimately show ?thesis by (simp add: next_tick_def ticks_by_def)
qed

text \<open>A \<open>select\<close> entered before the deadline ends at the deadline or with a tick that was not received yet.\<close>

lemma select_tick_done:
  assumes "select_tick pd D tk t = ContextDone u" shows "u = max t D"
  using assms by (auto simp: select_tick_def Let_def max_def split: if_splits)

lemma select_tick_ticked:
  assumes "select_tick pd D tk t = Ticked tk' u" "received tk \<le> ticks_by tk t" "created tk \<le> t"
  shows "t \<le> u" "u \<le> max t D" "created tk' = created tk" "received tk' = ticks_by tk u"
    "received tk < received tk'" "ticks_by tk' = ticks_by tk"
proof -
  define v where "v = (if tick_pending tk t \<or> D \<le> t then t else min D (next_tick tk t))"
  from assms(1) have u: "u = v" "tk' = tk\<lparr>received := ticks_by tk u\<rparr>" "\<not> (D \<le> u \<and> (\<not> tick_pending tk u \<or> pd u))"
    by (auto simp: select_tick_def Let_def v_def [symmetric] split: if_splits)
  show tu: "t \<le> u" "u \<le> max t D"
    using next_tick_after [OF assms(3)] by (auto simp: u(1) v_def)
  have "tick_pending tk u"
  proof (cases "tick_pending tk t \<or> D \<le> t")
    case True
    with u show ?thesis by (auto simp: v_def)
  next
    case False
    then have "u = D \<or> u = next_tick tk t" by (auto simp: u(1) v_def)
    then show ?thesis
      using u(3) assms(2) by (auto simp: tick_pending_def ticks_by_next)
  qed
  then show "created tk' = created tk" "received tk' = ticks_by tk u" "received tk < received tk'"
    "ticks_by tk' = ticks_by tk"
    by (simp_all add: u(2) tick_pending_def fun_eq_iff)
qed

text \<open>
  While the polls take at most an interval, the next poll comes within an interval of the last one, unless the deadline
  is as near.
\<close>

lemma select_tick_soon:
  assumes "received tk = ticks_by tk t" "created tk \<le> t" "t \<le> t'" "t' \<le> t + pollInterval" "t + pollInterval < D"
  shows "\<exists>tk' u. select_tick pd D tk t' = Ticked tk' u \<and> u \<le> t + pollInterval"
proof (cases "tick_pending tk t'")
  case True
  with assms show ?thesis by (simp add: select_tick_def)
next
  case False
  then have "ticks_by tk t' = ticks_by tk t"
    using assms(1) ticks_by_mono [OF assms(3), of tk] by (simp add: tick_pending_def)
  then have "next_tick tk t' = next_tick tk t" by (simp add: next_tick_def)
  with next_tick_after [OF assms(2)] False assms(4,5) show ?thesis
    by (simp add: select_tick_def Let_def min_def)
qed

section \<open>Requests that obey their context\<close>

text \<open>
  What the loops rely on of client-go: a request carries the context and has returned, with whatever answer, when the
  context is done.
\<close>

locale context_requests =
  fixes poll :: "'a requests" and D :: nat
  assumes returns: "poll t = (a, t') \<Longrightarrow> t \<le> t' \<and> t' \<le> max t D"

text \<open>The outcomes a verdict gives are those of the code before its \<open>select\<close>.\<close>

definition final_verdict :: "('a \<Rightarrow> wait_result option) \<Rightarrow> bool" where
  "final_verdict verdict \<longleftrightarrow> (\<forall>a. verdict a \<noteq> Some WaitTimeout \<and> verdict a \<noteq> Some WaitBlocked)"

lemma final_verdicts: "final_verdict (capacity_verdict resource perNode nodes)" "final_verdict available_verdict"
  unfolding final_verdict_def
  by (auto simp: capacity_verdict_def split: sum.splits) (case_tac a; simp split: if_splits)+

context context_requests
begin

text \<open>
  The invariant of the loop: the poll starts by the end \<open>E\<close> of the window, and no tick of the future is received.
  The variant: the ticks until \<open>E\<close> that are not received.
\<close>

lemma poll_loop_returns:
  assumes "created tk \<le> t" "received tk \<le> ticks_by tk t" "t \<le> E" "D \<le> E" "final_verdict verdict"
  shows "\<exists>rounds r u. poll_loop poll verdict pd D tk t = Some (rounds, r, u) \<and> u \<le> E \<and>
    length rounds \<le> Suc (ticks_by tk E - received tk) \<and> r \<noteq> WaitBlocked \<and> (r = WaitTimeout \<longrightarrow> D \<le> u)"
  using assms(1-3)
proof (induction "ticks_by tk E - received tk" arbitrary: tk t rule: less_induct)
  case less
  obtain a t' where p: "poll t = (a, t')" by fastforce
  note t' = returns [OF p]
  have E: "t' \<le> E" using t' less.prems(3) assms(4) by (auto simp: max_def split: if_splits)
  show ?case
  proof (cases "verdict a")
    case (Some r)
    with assms(5) have "r \<noteq> WaitBlocked" "r \<noteq> WaitTimeout" by (auto simp: final_verdict_def)
    with poll_loop_stops [where poll = poll and verdict = verdict, OF p Some] E show ?thesis by simp
  next
    case None
    show ?thesis
    proof (cases "select_tick pd D tk t'")
      case (ContextDone u)
      from select_tick_done [OF this] E assms(4) have "u \<le> E" "D \<le> u" by simp_all
      with poll_loop_times_out [where poll = poll and verdict = verdict, OF p None ContextDone] show ?thesis by simp
    next
      case (Ticked tk' u)
      have rec: "received tk \<le> ticks_by tk t'" using less.prems(2) ticks_by_mono t' le_trans by blast
      have cr: "created tk \<le> t'" using less.prems(1) t' by simp
      note tk' = select_tick_ticked [OF Ticked rec cr]
      have u: "u \<le> E" using tk'(2) E assms(4) by (auto simp: max_def split: if_splits)
      have fewer: "ticks_by tk' E - received tk' < ticks_by tk E - received tk"
        using tk'(4,5,6) ticks_by_mono [OF u, of tk] by simp
      from less.hyps [OF fewer _ _ u] tk' cr
      obtain rounds r v where "poll_loop poll verdict pd D tk' u = Some (rounds, r, v)" "v \<le> E"
        "length rounds \<le> Suc (ticks_by tk' E - received tk')" "r \<noteq> WaitBlocked" "r = WaitTimeout \<longrightarrow> D \<le> v" by auto
      with poll_loop_goes_on [where poll = poll and verdict = verdict, OF p None Ticked] fewer show ?thesis by simp
    qed
  qed
qed

end

text \<open>
  A server with a latency for each request, behind a client that gives up when the context is done: the reference
  instance of the contract.
\<close>

definition served :: "(nat \<Rightarrow> nat) \<Rightarrow> (nat \<Rightarrow> 'a) \<Rightarrow> 'a \<Rightarrow> nat \<Rightarrow> 'a requests" where
  "served latency answer aborted D t =
     (if t + latency t < D then (answer (t + latency t), t + latency t) else (aborted, max t D))"

interpretation served: context_requests "served latency answer aborted D" D for latency answer aborted D
  by unfold_locales (auto simp: served_def split: if_splits)

section \<open>A wait whose cluster becomes ready\<close>

lemma poll_loop_succeeds:
  assumes "\<And>t a t'. poll t = (a, t') \<Longrightarrow> t \<le> t' \<and> t' \<le> t + d" "d \<le> pollInterval"
    and "\<And>t. T \<le> t \<Longrightarrow> t \<le> T + pollInterval \<Longrightarrow> verdict (fst (poll t)) = Some WaitOk"
    and "\<And>t. t0 \<le> t \<Longrightarrow> t < T \<Longrightarrow> verdict (fst (poll t)) = None \<or> verdict (fst (poll t)) = Some WaitOk"
    and "T + pollInterval < D" "created tk \<le> t" "received tk = ticks_by tk t" "t0 \<le> t" "t \<le> T + pollInterval"
  shows "\<exists>rounds u. poll_loop poll verdict pd D tk t = Some (rounds, WaitOk, u) \<and> u \<le> T + pollInterval + d"
  using assms(6-9)
proof (induction "ticks_by tk (T + pollInterval) - received tk" arbitrary: tk t rule: less_induct)
  case less
  obtain a t' where p: "poll t = (a, t')" by fastforce
  note t' = assms(1) [OF p]
  show ?case
  proof (cases "verdict a = Some WaitOk")
    case True
    with poll_loop_stops [where poll = poll and verdict = verdict, OF p True] t' less.prems(4) show ?thesis by simp
  next
    case False
    with assms(3,4) p less.prems(3,4) have early: "t < T" and none: "verdict a = None"
      by (metis fst_conv not_le_imp_less)+
    have "t' \<le> t + pollInterval" "t + pollInterval < D" using t' assms(2,5) early by simp_all
    from select_tick_soon [OF less.prems(2,1) conjunct1 [OF t'] this]
    obtain tk' u where tick: "select_tick pd D tk t' = Ticked tk' u" "u \<le> t + pollInterval" by blast
    have "received tk \<le> ticks_by tk t'" "created tk \<le> t'"
      using less.prems(1,2) t' ticks_by_mono [OF conjunct1 [OF t'], of tk] by simp_all
    note tk' = select_tick_ticked [OF tick(1) this]
    have u: "u \<le> T + pollInterval" using tick(2) early by simp
    have fewer: "ticks_by tk' (T + pollInterval) - received tk' < ticks_by tk (T + pollInterval) - received tk"
      using tk'(4,5,6) ticks_by_mono [OF u, of tk] by simp
    have "created tk' \<le> u" "received tk' = ticks_by tk' u" "t0 \<le> u"
      using tk' less.prems(1,3) t' by simp_all
    from less.hyps [OF fewer this u] obtain rounds v where
      "poll_loop poll verdict pd D tk' u = Some (rounds, WaitOk, v)" "v \<le> T + pollInterval + d" by blast
    with poll_loop_goes_on [where poll = poll and verdict = verdict, OF p none tick(1)] show ?thesis by simp
  qed
qed

lemma enough_verdict:
  "capacity_verdict resource perNode nodes answer = Some WaitOk \<longleftrightarrow> enough resource perNode nodes answer"
  by (auto simp: capacity_verdict_def countReadyWorkers_def enough_def split: sum.splits)

lemma unanswered_verdict:
  "\<not> isl answer \<Longrightarrow> capacity_verdict resource perNode nodes answer = None \<or>
     capacity_verdict resource perNode nodes answer = Some WaitOk"
  by (auto simp: capacity_verdict_def countReadyWorkers_def split: sum.splits)

lemma fresh_ticker: "created (NewTicker t) = t" "received (NewTicker t) = 0" "ticks_by (NewTicker t) u = (u - t) div pollInterval"
  by (simp_all add: NewTicker_def ticks_by_def)

lemma window_polls: "D \<le> t + window \<Longrightarrow> (max t D - t) div pollInterval \<le> window div pollInterval"
  by (rule div_le_mono) arith

section \<open>Properties\<close>

text \<open>
  C20. The waits end. If requests return when their context is done and the context is done within the window
  that \<open>sims gpu create\<close> gives it, then the wait for capacity returns: at the latest when the context is done, after at most 61
  polls, with the outcome that \<open>waitForCapacity\<close> has for the answers it saw, and it reports a timeout
  only once the context is done. Whatever Go's \<open>select\<close> prefers when a tick and the end of the context meet.
\<close>

theorem capacity_wait_returns:
  assumes "context_requests poll D" "D \<le> t + capacityWaitWindow"
  shows "\<exists>rounds r u. timed_waitForCapacity poll prefers_done D resource perNode nodes t = Some (rounds, r, u) \<and>
    u \<le> max t D \<and> length rounds \<le> 61 \<and> waitForCapacity resource perNode nodes rounds = r \<and>
    r \<noteq> WaitBlocked \<and> (r = WaitTimeout \<longrightarrow> D \<le> u)"
proof -
  obtain rounds r u where run:
      "timed_waitForCapacity poll prefers_done D resource perNode nodes t = Some (rounds, r, u)" "u \<le> max t D"
      "length rounds \<le> Suc ((max t D - t) div pollInterval)" "r \<noteq> WaitBlocked" "r = WaitTimeout \<longrightarrow> D \<le> u"
    using context_requests.poll_loop_returns
      [where poll = poll and D = D and tk = "NewTicker t" and t = t and E = "max t D" and pd = prefers_done and verdict = "capacity_verdict resource perNode nodes",
       OF assms(1) _ _ _ _ final_verdicts(1)]
    by (auto simp: timed_waitForCapacity_def fresh_ticker)
  from run(3) window_polls [OF assms(2)] have "length rounds \<le> 61" by (simp add: capacityWaitWindow_def pollInterval_def)
  moreover have "waitForCapacity resource perNode nodes rounds = r"
    using run(1) wait_of_capacity unfolding timed_waitForCapacity_def by (rule poll_loop_outcome)
  ultimately show ?thesis using run by blast
qed

text \<open>A cluster that answers in a tenth of a second and never has enough workers: the wait times out at its deadline.\<close>

theorem capacity_wait_returns_witness:
  "\<exists>rounds r u. timed_waitForCapacity (served (\<lambda>_. 100) (\<lambda>_. Inr []) (Inl (OtherError ''deadline'')) 120000) (\<lambda>_. True)
      120000 ''amd.com/gpu'' 8 1 0 = Some (rounds, r, u) \<and> u \<le> 120000 \<and> length rounds \<le> 61"
  using capacity_wait_returns
    [of "served (\<lambda>_. 100) (\<lambda>_. Inr []) (Inl (OtherError ''deadline'')) 120000" 120000 0 "\<lambda>_. True" "''amd.com/gpu''" 8 1,
     OF served.context_requests_axioms]
  by (auto simp: capacityWaitWindow_def)

text \<open>The wait for Grafana likewise; its window allows twice as many polls.\<close>

lemma deployment_wait_returns:
  assumes "context_requests poll D" "D \<le> t + monitoringWaitWindow"
  shows "\<exists>rounds r u. timed_waitForDeployment poll prefers_done D t = Some (rounds, r, u) \<and>
    u \<le> max t D \<and> length rounds \<le> 121 \<and> waitForDeploymentAvailable rounds = r \<and>
    r \<noteq> WaitBlocked \<and> (r = WaitTimeout \<longrightarrow> D \<le> u)"
proof -
  obtain rounds r u where run:
      "timed_waitForDeployment poll prefers_done D t = Some (rounds, r, u)" "u \<le> max t D"
      "length rounds \<le> Suc ((max t D - t) div pollInterval)" "r \<noteq> WaitBlocked" "r = WaitTimeout \<longrightarrow> D \<le> u"
    using context_requests.poll_loop_returns
      [where poll = poll and D = D and tk = "NewTicker t" and t = t and E = "max t D" and pd = prefers_done,
       OF assms(1) _ _ _ _ final_verdicts(2)]
    by (auto simp: timed_waitForDeployment_def fresh_ticker)
  from run(3) window_polls [OF assms(2)] have "length rounds \<le> 121" by (simp add: monitoringWaitWindow_def pollInterval_def)
  moreover have "waitForDeploymentAvailable rounds = r"
    using run(1) wait_of_available unfolding timed_waitForDeployment_def by (rule poll_loop_outcome)
  ultimately show ?thesis using run by blast
qed



end
