(* ===== verification/Spec2Isabelle.thy ===== *)
theory Spec2Isabelle
  imports Processes Rocm_Smi Interleaving Exporter Dcgm_Extras Kube_Clients Kind_Log Sims_Config Cli_Main
    Deep_Copy Operator_Main Cache_Concurrency Dcgm_Cache Operator_Services Timed_Wait
begin

text \<open>
  Verification of sims, a tool that simulates GPU clusters on a workstation. Its command line (\<open>pkg/cli\<close>)
  creates a kind cluster, installs a vendor's operator with helm and waits for GPU capacity. Inside the cluster
  run the AMD operator (\<open>src/operators/fake-rocm-gpu-operator\<close>) and the NVIDIA sidecar
  (\<open>src/operators/fake-dcgm-extras\<close>).

  \<^bold>\<open>The program.\<close> A controller watches DeviceConfig resources and keeps four workloads running: a
  kubelet device plugin, a metrics exporter, a status-updater and a node labeller. The device plugin
  advertises fake GPUs to the kubelet and its annotator copies the kubelet's device assignments onto
  the pods as an annotation. The status-updater rebuilds from these annotations a topology, a map from
  nodes to assignments, and publishes it in a ConfigMap. The exporter reads the topology and the
  utilisation range each pod declares, and on every scrape reports one set of gauges per GPU, with the
  labels of the pod that holds it. The NVIDIA sidecar reads the pods of its node and fills its GPU slots.

  \<^bold>\<open>Theories and code.\<close>
  \<^item> \<open>Prelude\<close>, \<open>Go_Float\<close>, \<open>Go_Parse_Float\<close>, \<open>Go_Path\<close>, \<open>Go_Flag\<close>: what the code uses of the Go language and
    its standard library: wrapping integers, \<open>strconv\<close>, \<open>strings\<close>, \<open>path/filepath\<close>, \<open>flag\<close>, and \<open>float64\<close> with
    round to nearest even.
  \<^item> \<open>Annotations\<close>: \<open>pkg/annotations/parse.go\<close>, the utilisation ranges.
  \<^item> \<open>Simulate\<close>: \<open>pkg/simulate/gpu.go\<close>, the GPU inventory and the gauges. \<open>Rocm_Smi\<close>:
    \<open>cmd/rocm-smi-mock/main.go\<close>, the stand-in for rocm-smi.
  \<^item> \<open>Metrics\<close>: \<open>pkg/metrics/registry.go\<close>, the Prometheus series.
  \<^item> \<open>Kube_API\<close>, \<open>Pods\<close>: the API server as the components see it. The client libraries and the server are
    parameters; the locales \<open>object_reader\<close>, \<open>object_store\<close>, \<open>configmap_store\<close>, \<open>pod_store\<close>,
    \<open>namespace_store\<close> and \<open>controller_client\<close> state their documented behaviour, and each is interpreted on a
    reference server.
  \<^item> \<open>Topology\<close>: \<open>pkg/topology/configmap.go\<close>, load, save and lookup; the YAML codec is a parameter.
  \<^item> \<open>Device_Plugin\<close>: \<open>pkg/deviceplugin\<close>, the server's life cycle as a trace of system calls, the device stream
    as a reaction to a list of events, and the annotator.
  \<^item> \<open>Status_Updater\<close>: \<open>internal/statusupdater/run.go\<close>, one pass.
  \<^item> \<open>Exporter\<close>: \<open>internal/exporter\<close>, the cache (a state updated by refreshes, each in the world of its time) and
    the samplers. \<open>Cache_Concurrency\<close>: the caches of both exporters with their lock, at the grain of requests and
    memory accesses.
  \<^item> \<open>Workloads\<close>, \<open>Controller\<close>: \<open>api/v1alpha1\<close> and \<open>pkg/controller\<close>, the builders and \<open>Reconcile\<close>, which
    refines the list \<open>desired_children\<close>. \<open>Controller_Loop\<close>: the watches of \<open>SetupWithManager\<close> and the loop around
    \<open>Reconcile\<close>; controller-runtime's queue is the locale \<open>controller_manager\<close>, interpreted on a reference manager.
  \<^item> \<open>Deep_Copy\<close>: \<open>api/v1alpha1/zz_generated.deepcopy.go\<close> on an explicit store of cells; the locale
    \<open>deep_copier\<close> is the contract of a copy function, interpreted for the pointers and maps the code copies.
  \<^item> \<open>Dcgm_Extras\<close>: \<open>internal/exporter\<close> and \<open>pkg/dcgm\<close> of the NVIDIA sidecar. \<open>Dcgm_Cache\<close>: its cache in
    memory, on the slices of \<open>Go_Slice\<close>, refreshed element by element beside its readers; this \<open>Refresh\<close>
    refines that of \<open>Dcgm_Extras\<close>.
  \<^item> \<open>Processes\<close>: \<open>cmd/fake-rocm-gpu-operator/main.go\<close> and the \<open>Run\<close> functions of all operator processes up to
    their main loops: flags, environment, and the components they build. \<open>Operator_Services\<close>: the unary calls
    of the device-plugin server, the in-cluster clients, the controller's scheme and the stubs of \<open>run\<close>.
  \<^item> \<open>Supervision\<close>: what the processes share once they run: the main goroutine with its \<open>select\<close>, the channel
    \<open>errCh\<close>, helper goroutines and the signal, as a step relation; the locale \<open>supervised\<close> is the contract of the
    goroutines. \<open>Plugin_Process\<close>, \<open>Exporter_Process\<close>: the device plugin with its annotator, and both exporters with their HTTP
    servers, as instances of it. \<open>Labeller_Process\<close>: the node labeller and its JSON merge patch. \<open>Operator_Main\<close>: the
    status-updater's loop, the start of the manager, the two \<open>main\<close> functions and their exit status.
  \<^item> \<open>Interleaving\<close>: the components of the AMD operator side by side, as an inductive step relation over the
    servers, the kubelets and the local variables of the components between their calls.
  \<^item> \<open>Kind_Config\<close>: \<open>pkg/config\<close>. \<open>Sims_Config\<close>: \<open>pkg/simsconfig\<close>. \<open>Kube_Ops\<close>, \<open>Kube_Clients\<close>:
    \<open>pkg/kube\<close>. \<open>Timed_Wait\<close>: its polling loops against the clock, with ticker, \<open>select\<close> and deadline;
    client-go's requests are the locale \<open>context_requests\<close>, interpreted on a server with latencies.
  \<^item> \<open>Cli_Options\<close>, \<open>Cli_Create\<close>, \<open>Cli_Manage\<close>, \<open>Cli_Dashboard\<close>: the commands of \<open>pkg/cli\<close>. \<open>Helm_Client\<close>:
    \<open>pkg/helm\<close> and \<open>pkg/cluster\<close>; \<open>Kind_Log\<close>: the log adapter of \<open>pkg/cluster\<close>. \<open>Cli_Main\<close>: the command tree
    and \<open>cmd/sims/main.go\<close>. \<open>Cli_Host\<close>: the host of the commands. A command is a function of the host
    and the log of the calls made so far; the host's answers are an arbitrary function of that log. The locale
    \<open>trace_contract\<close> is the interface between relations on logs and the combinators of commands; it is
    interpreted for the calls a command may make, for temporary files and for the phases of a plan.

  \<^bold>\<open>State and errors.\<close> Stateful code takes the world as its last argument and returns it updated. Every error return
  is a constructor of an error type; a Go panic of \<open>make\<close> is \<open>None\<close>, of a ticker \<open>Panicked\<close>. Random numbers are a
  stream of rationals in [0, 1). The theories treat a refresh and a scrape of an exporter as one step each;
  \<open>Cache_Concurrency\<close> justifies this for scrapes. \<open>Interleaving\<close> interleaves the components, \<open>Supervision\<close> the goroutines
  of one process.

  \<^bold>\<open>What is shown.\<close> The reconciler reaches the desired state, touches nothing else, is idempotent, keeps server-assigned
  addresses, respects foreign owners and never reports a workload ready that is not; its loop misses no drift of the
  objects it watches. The containers it declares
  start with what it was configured with, and plugin and exporter agree on device identifiers. Allocation by the
  kubelet reaches the metric labels, and in every interleaving a label goes back to a grant of a kubelet. The
  topology equals its specification and survives the ConfigMap. Parsed ranges are proper unless a bound is NaN,
  which the parser lets through; gauges stay in their bands otherwise, in every response an exporter ever serves. A
  scrape has no duplicate series. The device plugin's server tears down in order; every process ends when it is told to, within
  a bounded number of its own steps, no goroutine blocks on the error channel, and the exit status tells why a process ended.
  A scrape sees one published state whatever runs beside it. The node labeller changes its labels and nothing else. Deep copies share nothing
  with their originals, nor the snapshots of the sidecar's cache with what is published later. On the command
  line, creation completes a prefix of its plan and succeeds exactly when all of it took effect, its waits
  end with their window and notice a cluster that becomes ready, a SimsConfig document reaches the chart's values, deletion is confined to the chosen cluster
  and survives failing cleanup, and for every command line the program makes only the calls its subcommand permits and leaves
  no credentials in a temporary file.

  \<^bold>\<open>Bounds and fuel.\<close> No definition needs fuel: every loop is structural, or ends by a measure; a wait is a
  function of the answers to its polls. The loop of \<open>Timed_Wait\<close> is partial and shown to return: an interval of 2
  seconds in windows of 2 and 4 minutes gives at most 61 and 121 polls. Processes run as relations without a bound; after the signal the device-plugin
  process takes at most 18 steps and an exporter at most 10, plus one per event of the environment: the calls left in the
  server's script, the passes of the helpers in progress, and the three steps of \<open>main\<close>. Integers are mathematical,
  with explicit wrapping at 32 and 64 bits where the code computes with them.

  \<^bold>\<open>Not modelled.\<close> HTTP and gRPC transport, the internals of the controller-runtime manager, cobra's parsing,
  the log lines and usage texts of the operators, and the end-to-end test helpers. \<open>time.ParseDuration\<close>, the YAML and
  JSON codecs, \<open>fmt.Sprintf\<close> of the log adapter and the Prometheus registry are parameters or left to the reader of
  structured values.
\<close>

section \<open>From the kubelet's allocation to the metric labels\<close>

text \<open>A pod that alone names a GPU on its node is the holder the topology gives.\<close>

lemma FindAssignment_holder:
  assumes "p \<in> set pods" "p_node p \<noteq> []" "g \<in> set (annotated_ids p)"
    and "\<forall>q \<in> set pods. p_node q = p_node p \<longrightarrow> g \<in> set (annotated_ids q) \<longrightarrow> q = p"
  shows "FindAssignment (build_topology pods) (p_node p) g =
    Some (assignment_for p (firstGPUContainer amdGPUResource p) g)"
proof -
  let ?a = "assignment_for p (firstGPUContainer amdGPUResource p) g"
  have in_nodes: "?a \<in> set (nodes_of (build_topology pods) (p_node p))"
    using assms(1-3) by (auto simp: nodes_of_build pod_assignments_def)
  then have "FindAssignment (build_topology pods) (p_node p) g \<noteq> None"
    unfolding FindAssignment_None not_not
    by (rule rev_image_eqI) (simp add: assignment_for_def)
  then obtain b where b: "FindAssignment (build_topology pods) (p_node p) g = Some b" by blast
  then have "b \<in> set (nodes_of (build_topology pods) (p_node p))" "GPUID b = g"
    using FindAssignment_Some by blast+
  then have "b = ?a"
    using assms(4) by (auto simp: nodes_of_build pod_assignments_def assignment_for_def split: if_splits)
  with b show ?thesis by simp
qed

text \<open>The core of the attribution: annotation and topology are given, the scrape reports the holder.\<close>

lemma holder_labels:
  assumes "p \<in> set pods" "p_node p = host" "host \<noteq> []"
    and "map_get (p_annotations p) AssignedGPUsAnnotation = join '','' (collectDevicesForResource pr r)"
    and "set (collectDevicesForResource pr r) \<subseteq> dev_ID ` set (devices srv)" "New healthy opts = Some srv"
    and "g \<in> set (collectDevicesForResource pr r)"
    and "\<forall>q \<in> set pods. p_node q = host \<longrightarrow> g \<in> set (annotated_ids q) \<longrightarrow> q = p"
    and "topo st = build_topology pods" "i < length gs" "ID (gs ! i) = g"
  shows "sn_GPUID (topologySampler st gs host rng ! i) = g \<and>
    sn_Pod (topologySampler st gs host rng ! i) = p_name p \<and>
    sn_Namespace (topologySampler st gs host rng ! i) = p_namespace p \<and>
    sn_Container (topologySampler st gs host rng ! i) = firstGPUContainer amdGPUResource p"
proof -
  have "map dev_ID (devices srv) = map (\<lambda>i. ''gpu-'' @ itoa i) (go_range (max 0 (o_GPUCount opts)))"
    using New_devices [OF assms(6)] buildDevices_ids by blast
  then have ids_of: "dev_ID ` set (devices srv) = (\<lambda>i. ''gpu-'' @ itoa i) ` set (go_range (max 0 (o_GPUCount opts)))"
    by (metis list.set_map)
  have plain: "\<forall>d \<in> set (collectDevicesForResource pr r). plain_id d"
  proof
    fix d assume "d \<in> set (collectDevicesForResource pr r)"
    then have "d \<in> dev_ID ` set (devices srv)" by (rule subsetD [OF assms(5)])
    then show "plain_id d" unfolding ids_of by (rule imageE) (simp only: plain_id_gpu set_go_range atLeastLessThan_iff)
  qed
  have "collectDevicesForResource pr r \<noteq> []"
    using assms(7) by (metis empty_iff empty_set)
  from annotated_ids_join [OF assms(4) this plain]
  have ids: "annotated_ids p = collectDevicesForResource pr r" .
  have f: "FindAssignment (topo st) host (ID (gs ! i)) =
      Some (assignment_for p (firstGPUContainer amdGPUResource p) g)"
    unfolding assms(2) [symmetric] assms(9,11)
  proof (rule FindAssignment_holder [OF assms(1)])
    show "p_node p \<noteq> []" using assms(2,3) by simp
    show "g \<in> set (annotated_ids p)" unfolding ids by (rule assms(7))
    show "\<forall>q \<in> set pods. p_node q = p_node p \<longrightarrow> g \<in> set (annotated_ids q) \<longrightarrow> q = p"
      using assms(8) unfolding assms(2) .
  qed
  have "attributed st host (gs ! i) (topologySampler st gs host rng ! i)"
    by (rule list_all2_nthD [OF topologySampler_attributed assms(10)])
  moreover have "sn_GPUID (topologySampler st gs host rng ! i) = ID (gs ! i)"
    using topologySampler_ids [of st gs host rng] assms(10) by (metis length_map nth_map)
  ultimately show ?thesis using f assms(11) by (simp add: attributed_def assignment_for_def)
qed

definition demo_cards :: "GPU list" where
  "demo_cards = map (gpu_at ''node-1'' ''MI300X'' 64 ''spx'' 1 0) [0, 1]"

lemma demo_card_ids: "map ID demo_cards = [''gpu-0'', ''gpu-1'']"
  unfolding demo_cards_def by code_simp

lemma demo_pod_facts:
  "p_name annotated_pod = ''train''" "p_node annotated_pod = ''node-1''"
  "map_get (p_annotations annotated_pod) AssignedGPUsAnnotation = ''gpu-0,gpu-1''"
  by (simp_all add: annotated_pod_def) (simp_all add: set_annotation_def demo_pod_def)

text \<open>What an annotator pass wants to write is the list of a pod the kubelet listed.\<close>

lemma annotate_all_values:
  "annotate_all get patch r prs w = (res, w') \<Longrightarrow> (k, v, e) \<in> set res \<Longrightarrow>
     \<exists>pr \<in> set prs. pr_key pr = k \<and> v = join '','' (collectDevicesForResource pr r)"
proof (induction prs arbitrary: res w)
  case (Cons pr prs)
  show ?case
  proof (cases "collectDevicesForResource pr r = []")
    case True
    with Cons show ?thesis by simp
  next
    case False
    obtain err w1 where p: "annotatePod get patch (pr_key pr) (join '','' (collectDevicesForResource pr r)) w = (err, w1)"
      by fastforce
    obtain rest w2 where q: "annotate_all get patch r prs w1 = (rest, w2)" by fastforce
    from Cons.prems(1) False p q have "res = (pr_key pr, join '','' (collectDevicesForResource pr r), err) # rest" "w2 = w'"
      by (simp_all add: Let_def pr_key_def)
    with Cons.prems(2) Cons.IH q show ?thesis by auto
  qed
qed simp


definition granted_pods :: "(key, Pod) server" where
  "granted_pods = \<lparr>objects = [(''default'', ''train'') \<mapsto> demo_pod], unreachable = (\<lambda>_. False)\<rparr>"

definition annotated_pods :: "(key, Pod) server" where
  "annotated_pods = \<lparr>objects = [(''default'', ''train'') \<mapsto> annotated_pod], unreachable = (\<lambda>_. False)\<rparr>"

lemma demo_pass:
  "annotator_reconcile (\<lambda>_. Inr [demo_resources]) srv_get srv_patch ''amd.com/gpu'' granted_pods =
     ([((''default'', ''train''), ''gpu-0,gpu-1'', None)], annotated_pods)"
proof -
  have "map_get (p_annotations demo_pod) AssignedGPUsAnnotation = []" by (simp add: demo_pod_def map_get_def)
  then show ?thesis
    using demo_key(1)
    by (simp add: annotator_reconcile_def demo_devices annotatePod_def srv_get_def srv_patch_def granted_pods_def
        annotated_pods_def annotated_pod_def pr_key_def Let_def)
qed

lemma demo_publication:
  "\<exists>C1 cm. updater_reconcile (\<lambda>_. Inr [annotated_pod]) srv_get srv_create srv_update (\<lambda>_. Inr demo_body) ''sims''
       \<lparr>objects = Map.empty, unreachable = (\<lambda>_. False)\<rparr> = (None :: string updater_error option, C1) \<and>
     srv_get (''sims'', ConfigMapName) C1 = Inr cm"
  by (simp add: updater_reconcile_def Save_def srv_defs)


end
